theory Spec2Isabelle
  imports
    Main
    "HOL-Library.Multiset"
    "HOL-Library.Product_Lexorder"
    "HOL-Library.List_Lexorder"
begin

section \<open>Values, rows and frames\<close>

text \<open>
  The notebook \<^verbatim>\<open>nyctaxi_raw_dataset_etl.ipynb\<close> is a PySpark job on AWS Glue. Its tables
  hold nulls, integers read from CSV (\<^verbatim>\<open>bigint\<close>), strings and, once derived, timestamps.
  The job does no arithmetic on the integers, it only compares and copies them, so they are
  kept as mathematical integers. A timestamp is kept as its civil fields in the session time
  zone.
\<close>

datatype timestamp =
  Timestamp (ts_year: int) (ts_month: int) (ts_day: int)
            (ts_hour: int) (ts_minute: int) (ts_second: int)

datatype val = VNull | VInt int | VStr string | VTs timestamp

text \<open>A row is an ordered list of named fields; a field that is absent reads as null.\<close>

type_synonym row = "(string \<times> val) list"

definition cell :: "row \<Rightarrow> string \<Rightarrow> val" where
  "cell r c = (case map_of r c of None \<Rightarrow> VNull | Some v \<Rightarrow> v)"

text \<open>
  A frame (Glue DynamicFrame or Spark DataFrame) is a schema, its rows, and the broadcast
  mark that \<^verbatim>\<open>pyspark.sql.functions.broadcast\<close> sets for the join planner.
\<close>

record dataframe =
  columns :: "string list"
  rows :: "row list"
  broadcast_hint :: bool

datatype error =
  EntityNotFoundException string string
| AnalysisException string
| SparkException string

definition and_then :: "error + 'a \<Rightarrow> ('a \<Rightarrow> error + 'b) \<Rightarrow> error + 'b" where
  "and_then m f = (case m of Inl e \<Rightarrow> Inl e | Inr x \<Rightarrow> f x)"

section \<open>The catalog and the mappings of the look-up tables\<close>

type_synonym catalog = "string \<times> string \<Rightarrow> dataframe option"

text \<open>\<^verbatim>\<open>glueContext.create_dynamic_frame.from_catalog(database=..., table_name=...)\<close>\<close>

definition from_catalog :: "catalog \<Rightarrow> string \<Rightarrow> string \<Rightarrow> error + dataframe" where
  "from_catalog cat database table_name =
     (case cat (database, table_name) of
        None \<Rightarrow> Inl (EntityNotFoundException database table_name)
      | Some dyf \<Rightarrow> Inr dyf)"

text \<open>
  \<^verbatim>\<open>DynamicFrame.toDF()\<close>: the rows are laid out on the schema, a missing field as null.
\<close>

definition toDF :: "dataframe \<Rightarrow> dataframe" where
  "toDF dyf =
     \<lparr>columns = columns dyf,
      rows = map (\<lambda>r. map (\<lambda>c. (c, cell r c)) (columns dyf)) (rows dyf),
      broadcast_hint = False\<rparr>"

text \<open>
  \<^verbatim>\<open>DynamicFrame.apply_mapping\<close> takes tuples (source column, source type, target column,
  target type) and keeps exactly the target columns whose source is there. Every mapping
  of this job maps a type to itself, so no value is converted; the types are carried as
  written.
\<close>

type_synonym mapping = "string \<times> string \<times> string \<times> string"

definition map_record :: "mapping list \<Rightarrow> row \<Rightarrow> row" where
  "map_record ms r =
     concat (map (\<lambda>(s, st, t, tt). case map_of r s of None \<Rightarrow> [] | Some v \<Rightarrow> [(t, v)]) ms)"

definition apply_mapping :: "dataframe \<Rightarrow> mapping list \<Rightarrow> dataframe" where
  "apply_mapping dyf ms =
     \<lparr>columns = concat (map (\<lambda>(s, st, t, tt). if s \<in> set (columns dyf) then [t] else []) ms),
      rows = map (map_record ms) (rows dyf),
      broadcast_hint = False\<rparr>"

text \<open>The four tables the notebook loads (cell 2), under the names it gives them.\<close>

record tables =
  yellow_dyf :: dataframe
  taxi_zone_dyf :: dataframe
  payment_type_dyf :: dataframe
  rate_code_dyf :: dataframe

definition load_tables :: "catalog \<Rightarrow> error + tables" where
  "load_tables cat =
     and_then (from_catalog cat ''nyctaxi'' ''yellow'') (\<lambda>y.
     and_then (from_catalog cat ''nyctaxi'' ''taxizone'') (\<lambda>z.
     and_then (from_catalog cat ''nyctaxi'' ''paymenttype'') (\<lambda>p.
     and_then (from_catalog cat ''nyctaxi'' ''ratecode'') (\<lambda>c.
       Inr \<lparr>yellow_dyf = y, taxi_zone_dyf = z, payment_type_dyf = p, rate_code_dyf = c\<rparr>))))"

text \<open>Cell 3: the look-up frames.\<close>

definition pu_taxi_zone_df :: "tables \<Rightarrow> dataframe" where
  "pu_taxi_zone_df t = toDF (apply_mapping (taxi_zone_dyf t)
     [(''locationid'', ''bigint'', ''pu_locationid'', ''bigint''),
      (''borough'', ''string'', ''pu_borough'', ''string''),
      (''zone'', ''string'', ''pu_zone'', ''string''),
      (''service_zone'', ''string'', ''pu_service_zone'', ''string'')])"

definition do_taxi_zone_df :: "tables \<Rightarrow> dataframe" where
  "do_taxi_zone_df t = toDF (apply_mapping (taxi_zone_dyf t)
     [(''locationid'', ''bigint'', ''do_locationid'', ''bigint''),
      (''borough'', ''string'', ''do_borough'', ''string''),
      (''zone'', ''string'', ''do_zone'', ''string''),
      (''service_zone'', ''string'', ''do_service_zone'', ''string'')])"

definition payment_type_df :: "tables \<Rightarrow> dataframe" where
  "payment_type_df t = toDF (apply_mapping (payment_type_dyf t)
     [(''id'', ''bigint'', ''payment_type_id'', ''bigint''),
      (''name'', ''string'', ''payment_type_name'', ''string'')])"

text \<open>As in the notebook, the mapping is applied to \<^verbatim>\<open>payment_type_dyf\<close>.\<close>

definition rate_code_df :: "tables \<Rightarrow> dataframe" where
  "rate_code_df t = toDF (apply_mapping (payment_type_dyf t)
     [(''id'', ''bigint'', ''ratecode_id'', ''bigint''),
      (''name'', ''string'', ''ratecode_name'', ''string'')])"

section \<open>Column expressions\<close>

text \<open>
  \<^verbatim>\<open>to_timestamp(col, fmt)\<close> reads a string under a pattern with the parser of the engine
  the job runs on. Engines agree on a string of exactly the pattern's shape, such as
  \<^verbatim>\<open>2019-01-15 08:30:00\<close> under \<^verbatim>\<open>yyyy-MM-dd HH:mm:ss\<close>; on any other string they differ,
  one reading \<^verbatim>\<open>2019-1-5 8:30:00\<close>, another giving null for it, a third raising an error.
  \<open>parse_timestamp\<close> is the fixed-width reading, which decides the strings of the
  pattern's shape only: a pattern letter among \<^verbatim>\<open>yMdHms\<close> stands for one digit of that
  field, any other pattern character for itself, and a string of another shape, or whose
  fields are no calendar date and time of day, gets no timestamp from it. What an engine
  makes of such a string is left to the parser that the section on the engine's parser
  takes as a parameter.
\<close>

definition digit_of :: "char \<Rightarrow> int option" where
  "digit_of c = map_of
     [(CHR ''0'', 0), (CHR ''1'', 1), (CHR ''2'', 2), (CHR ''3'', 3), (CHR ''4'', 4),
      (CHR ''5'', 5), (CHR ''6'', 6), (CHR ''7'', 7), (CHR ''8'', 8), (CHR ''9'', 9)] c"

fun parse_fields :: "string \<Rightarrow> string \<Rightarrow> (char \<Rightarrow> int) \<Rightarrow> (char \<Rightarrow> int) option" where
  "parse_fields [] [] acc = Some acc"
| "parse_fields (p # ps) (c # cs) acc =
     (if p \<in> set ''yMdHms'' then
        (case digit_of c of
           None \<Rightarrow> None
         | Some d \<Rightarrow> parse_fields ps cs (acc(p := acc p * 10 + d)))
      else if p = c then parse_fields ps cs acc
      else None)"
| "parse_fields _ _ acc = None"

definition leap_year :: "int \<Rightarrow> bool" where
  "leap_year y = (y mod 4 = 0 \<and> (y mod 100 \<noteq> 0 \<or> y mod 400 = 0))"

definition days_in_month :: "int \<Rightarrow> int \<Rightarrow> int" where
  "days_in_month y m =
     (if m = 2 then (if leap_year y then 29 else 28)
      else if m = 4 \<or> m = 6 \<or> m = 9 \<or> m = 11 then 30
      else 31)"

definition parse_timestamp :: "string \<Rightarrow> string \<Rightarrow> timestamp option" where
  "parse_timestamp fmt s =
     (case parse_fields fmt s (\<lambda>_. 0) of
        None \<Rightarrow> None
      | Some f \<Rightarrow>
          (if 1 \<le> f CHR ''y'' \<and> 1 \<le> f CHR ''M'' \<and> f CHR ''M'' \<le> 12
              \<and> 1 \<le> f CHR ''d'' \<and> f CHR ''d'' \<le> days_in_month (f CHR ''y'') (f CHR ''M'')
              \<and> f CHR ''H'' \<le> 23 \<and> f CHR ''m'' \<le> 59 \<and> f CHR ''s'' \<le> 59
           then Some (Timestamp (f CHR ''y'') (f CHR ''M'') (f CHR ''d'')
                                (f CHR ''H'') (f CHR ''m'') (f CHR ''s''))
           else None))"

text \<open>
  The functions of \<^verbatim>\<open>pyspark.sql.functions\<close> the job uses, \<^verbatim>\<open>to_timestamp\<close> under the
  fixed-width reading with null for a string it does not read: the chain built on it is
  the chain on an engine with the parser \<open>fixed_width_parser\<close> below, and the chain on any
  engine whose parser does the same on the raw time stamps of the table. A null gives
  null; the calendar functions of null are null.
\<close>

fun to_timestamp :: "val \<Rightarrow> string \<Rightarrow> val" where
  "to_timestamp (VStr s) fmt = (case parse_timestamp fmt s of None \<Rightarrow> VNull | Some t \<Rightarrow> VTs t)"
| "to_timestamp (VTs t) fmt = VTs t"
| "to_timestamp (VInt i) fmt = VNull"
| "to_timestamp VNull fmt = VNull"

fun year :: "val \<Rightarrow> val" where
  "year (VTs t) = VInt (ts_year t)"
| "year v = VNull"

fun month :: "val \<Rightarrow> val" where
  "month (VTs t) = VInt (ts_month t)"
| "month v = VNull"

fun dayofmonth :: "val \<Rightarrow> val" where
  "dayofmonth (VTs t) = VInt (ts_day t)"
| "dayofmonth v = VNull"

datatype expr =
  Col string
| ToTimestamp expr string
| Year expr
| Month expr
| DayOfMonth expr

fun eval_expr :: "expr \<Rightarrow> row \<Rightarrow> val" where
  "eval_expr (Col c) r = cell r c"
| "eval_expr (ToTimestamp e fmt) r = to_timestamp (eval_expr e r) fmt"
| "eval_expr (Year e) r = year (eval_expr e r)"
| "eval_expr (Month e) r = month (eval_expr e r)"
| "eval_expr (DayOfMonth e) r = dayofmonth (eval_expr e r)"

fun expr_refs :: "expr \<Rightarrow> string list" where
  "expr_refs (Col c) = [c]"
| "expr_refs (ToTimestamp e fmt) = expr_refs e"
| "expr_refs (Year e) = expr_refs e"
| "expr_refs (Month e) = expr_refs e"
| "expr_refs (DayOfMonth e) = expr_refs e"

section \<open>Frame operations\<close>

text \<open>
  A column name resolves in a frame when exactly one column has it; Spark raises
  \<^verbatim>\<open>AnalysisException\<close> for a name that is missing or ambiguous.
\<close>

definition resolves :: "dataframe \<Rightarrow> string \<Rightarrow> bool" where
  "resolves df c = (count_list (columns df) c = 1)"

definition unresolved :: "dataframe \<Rightarrow> string list \<Rightarrow> string list" where
  "unresolved df cs = filter (\<lambda>c. \<not> resolves df c) cs"

text \<open>\<^verbatim>\<open>repartition\<close> and \<^verbatim>\<open>cache\<close> change where rows live, not the frame.\<close>

definition repartition :: "int \<Rightarrow> dataframe \<Rightarrow> dataframe" where
  "repartition n df = df"

definition cache :: "dataframe \<Rightarrow> dataframe" where
  "cache df = df"

definition broadcast :: "dataframe \<Rightarrow> dataframe" where
  "broadcast df = df\<lparr>broadcast_hint := True\<rparr>"

text \<open>Equality as a join condition: null equals nothing.\<close>

definition sql_eq :: "val \<Rightarrow> val \<Rightarrow> bool" where
  "sql_eq a b = (a \<noteq> VNull \<and> b \<noteq> VNull \<and> a = b)"

subsection \<open>Physical inner equi-joins\<close>

text \<open>
  The engine's ways to run an inner join on one key pair. The broadcast hash join ships
  the whole right side to every task, builds a hash table of it and streams the left rows
  through; the shuffled hash join first sends the rows of both sides to partitions by a
  hash of the key; the sort-merge join sorts both sides on the key and merges; the nested
  loop tests every pair.
\<close>

datatype join_strategy =
  BroadcastHashJoin
| ShuffledHashJoin "val \<Rightarrow> nat" nat
| SortMergeJoin
| BroadcastNestedLoopJoin

fun build_hash :: "string \<Rightarrow> row list \<Rightarrow> (val \<Rightarrow> row list option)" where
  "build_hash rc [] = Map.empty"
| "build_hash rc (r # rs) =
     (let tbl = build_hash rc rs; k = cell r rc
      in if k = VNull then tbl
         else tbl(k \<mapsto> r # (case tbl k of None \<Rightarrow> [] | Some b \<Rightarrow> b)))"

definition probe :: "(val \<Rightarrow> row list option) \<Rightarrow> string \<Rightarrow> row \<Rightarrow> row list" where
  "probe tbl lc l =
     (let k = cell l lc
      in if k = VNull then []
         else (case tbl k of None \<Rightarrow> [] | Some b \<Rightarrow> map (\<lambda>r. l @ r) b))"

definition hash_join :: "string \<Rightarrow> string \<Rightarrow> row list \<Rightarrow> row list \<Rightarrow> row list" where
  "hash_join lc rc ls rs = concat (map (probe (build_hash rc rs) lc) ls)"

definition shuffle :: "(val \<Rightarrow> nat) \<Rightarrow> nat \<Rightarrow> string \<Rightarrow> row list \<Rightarrow> nat \<Rightarrow> row list" where
  "shuffle h n c xs i = filter (\<lambda>r. h (cell r c) mod max 1 n = i) xs"

definition shuffled_hash_join ::
  "(val \<Rightarrow> nat) \<Rightarrow> nat \<Rightarrow> string \<Rightarrow> string \<Rightarrow> row list \<Rightarrow> row list \<Rightarrow> row list" where
  "shuffled_hash_join h n lc rc ls rs =
     concat (map (\<lambda>i. hash_join lc rc (shuffle h n lc ls i) (shuffle h n rc rs i)) [0..<max 1 n])"

text \<open>The order of values that sorting uses: nulls first, then by value.\<close>

fun sort_rank :: "val \<Rightarrow> nat \<times> int list" where
  "sort_rank VNull = (0, [])"
| "sort_rank (VInt i) = (1, [i])"
| "sort_rank (VStr s) = (2, map of_char s)"
| "sort_rank (VTs t) =
     (3, [ts_year t, ts_month t, ts_day t, ts_hour t, ts_minute t, ts_second t])"

fun merge_join ::
  "(row \<Rightarrow> nat \<times> int list) \<Rightarrow> (row \<Rightarrow> nat \<times> int list) \<Rightarrow> row list \<Rightarrow> row list \<Rightarrow> row list" where
  "merge_join kl kr [] rs = []"
| "merge_join kl kr (l # ls) rs =
     (let rs' = dropWhile (\<lambda>r. kr r < kl l) rs
      in map (\<lambda>r. l @ r) (takeWhile (\<lambda>r. kr r = kl l) rs') @ merge_join kl kr ls rs')"

definition sort_merge_join :: "string \<Rightarrow> string \<Rightarrow> row list \<Rightarrow> row list \<Rightarrow> row list" where
  "sort_merge_join lc rc ls rs =
     (let kl = (\<lambda>l. sort_rank (cell l lc)); kr = (\<lambda>r. sort_rank (cell r rc))
      in merge_join kl kr
           (sort_key kl (filter (\<lambda>l. cell l lc \<noteq> VNull) ls))
           (sort_key kr (filter (\<lambda>r. cell r rc \<noteq> VNull) rs)))"

definition nested_loop_join :: "string \<Rightarrow> string \<Rightarrow> row list \<Rightarrow> row list \<Rightarrow> row list" where
  "nested_loop_join lc rc ls rs =
     map (\<lambda>(l, r). l @ r) (filter (\<lambda>(l, r). sql_eq (cell l lc) (cell r rc)) (List.product ls rs))"

fun exec_join :: "join_strategy \<Rightarrow> string \<Rightarrow> string \<Rightarrow> row list \<Rightarrow> row list \<Rightarrow> row list" where
  "exec_join BroadcastHashJoin lc rc ls rs = hash_join lc rc ls rs"
| "exec_join (ShuffledHashJoin h n) lc rc ls rs = shuffled_hash_join h n lc rc ls rs"
| "exec_join SortMergeJoin lc rc ls rs = sort_merge_join lc rc ls rs"
| "exec_join BroadcastNestedLoopJoin lc rc ls rs = nested_loop_join lc rc ls rs"

text \<open>
  \<^verbatim>\<open>left.join(right, ldf[lc] == rdf[rc])\<close>, an inner join. The two column references are
  resolved in the frames they are taken from; the left one is read in the left row, whose
  first columns are those of \<^verbatim>\<open>ldf\<close>. The columns of both sides are kept.
\<close>

definition join_under ::
  "join_strategy \<Rightarrow> dataframe \<Rightarrow> dataframe \<Rightarrow> dataframe \<times> string \<Rightarrow> dataframe \<times> string
     \<Rightarrow> error + dataframe" where
  "join_under s left right lref rref =
     (if \<not> resolves (fst lref) (snd lref) then Inl (AnalysisException (snd lref))
      else if \<not> resolves (fst rref) (snd rref) then Inl (AnalysisException (snd rref))
      else Inr \<lparr>columns = columns left @ columns right,
                rows = exec_join s (snd lref) (snd rref) (rows left) (rows right),
                broadcast_hint = False\<rparr>)"

text \<open>
  The planner takes the broadcast hash join for a right side marked by \<^verbatim>\<open>broadcast\<close>, and
  otherwise its default for equi-joins, the sort-merge join.
\<close>

definition plan_join :: "dataframe \<Rightarrow> join_strategy" where
  "plan_join right = (if broadcast_hint right then BroadcastHashJoin else SortMergeJoin)"

definition join ::
  "dataframe \<Rightarrow> dataframe \<Rightarrow> dataframe \<times> string \<Rightarrow> dataframe \<times> string \<Rightarrow> error + dataframe" where
  "join left right lref rref = join_under (plan_join right) left right lref rref"

text \<open>
  \<^verbatim>\<open>withColumn(c, e)\<close> replaces the columns named \<^verbatim>\<open>c\<close>, or appends \<^verbatim>\<open>c\<close> when there is
  none.
\<close>

definition put_cell :: "string \<Rightarrow> val \<Rightarrow> row \<Rightarrow> row" where
  "put_cell c v r =
     (if c \<in> fst ` set r then map (\<lambda>(k, w). if k = c then (k, v) else (k, w)) r
      else r @ [(c, v)])"

definition withColumn :: "string \<Rightarrow> expr \<Rightarrow> dataframe \<Rightarrow> error + dataframe" where
  "withColumn c e df =
     (case unresolved df (expr_refs e) of
        n # ns \<Rightarrow> Inl (AnalysisException n)
      | [] \<Rightarrow>
          Inr (df\<lparr>columns := (if c \<in> set (columns df) then columns df else columns df @ [c]),
                  rows := map (\<lambda>r. put_cell c (eval_expr e r) r) (rows df)\<rparr>))"

text \<open>\<^verbatim>\<open>orderBy\<close>: ascending on the listed columns, nulls first.\<close>

definition orderBy :: "string list \<Rightarrow> dataframe \<Rightarrow> error + dataframe" where
  "orderBy cs df =
     (case unresolved df cs of
        n # ns \<Rightarrow> Inl (AnalysisException n)
      | [] \<Rightarrow> Inr (df\<lparr>rows := sort_key (\<lambda>r. map (\<lambda>c. sort_rank (cell r c)) cs) (rows df)\<rparr>))"

text \<open>\<^verbatim>\<open>drop(names)\<close> removes the columns so named; a name that is not there is ignored.\<close>

definition drop_row :: "string list \<Rightarrow> row \<Rightarrow> row" where
  "drop_row cs r = filter (\<lambda>(k, v). k \<notin> set cs) r"

definition drop_columns :: "string list \<Rightarrow> dataframe \<Rightarrow> dataframe" where
  "drop_columns cs df =
     df\<lparr>columns := filter (\<lambda>c. c \<notin> set cs) (columns df),
        rows := map (drop_row cs) (rows df)\<rparr>"

section \<open>Cells 4 and 5: the enriched frame\<close>

definition yellow_df :: "tables \<Rightarrow> dataframe" where
  "yellow_df t = cache (repartition (4 * 10) (toDF (yellow_dyf t)))"

definition yellow_opt_df :: "tables \<Rightarrow> error + dataframe" where
  "yellow_opt_df t =
     and_then (join (yellow_df t) (broadcast (pu_taxi_zone_df t))
                 (yellow_df t, ''pulocationid'') (pu_taxi_zone_df t, ''pu_locationid'')) (\<lambda>j1.
     and_then (join j1 (broadcast (do_taxi_zone_df t))
                 (yellow_df t, ''dolocationid'') (do_taxi_zone_df t, ''do_locationid'')) (\<lambda>j2.
     and_then (join j2 (broadcast (payment_type_df t))
                 (yellow_df t, ''payment_type'') (payment_type_df t, ''payment_type_id'')) (\<lambda>j3.
     and_then (join j3 (broadcast (rate_code_df t))
                 (yellow_df t, ''ratecodeid'') (rate_code_df t, ''ratecode_id'')) (\<lambda>j4.
     and_then (withColumn ''pu_datetime''
                 (ToTimestamp (Col ''tpep_pickup_datetime'') ''yyyy-MM-dd HH:mm:ss'') j4) (\<lambda>d1.
     and_then (withColumn ''do_datetime''
                 (ToTimestamp (Col ''tpep_dropoff_datetime'') ''yyyy-MM-dd HH:mm:ss'') d1) (\<lambda>d2.
     and_then (withColumn ''pu_year'' (Year (Col ''pu_datetime'')) d2) (\<lambda>d3.
     and_then (withColumn ''pu_month'' (Month (Col ''pu_datetime'')) d3) (\<lambda>d4.
     and_then (withColumn ''pu_day'' (DayOfMonth (Col ''pu_datetime'')) d4) (\<lambda>d5.
     and_then (orderBy [''pu_year'', ''pu_month'', ''pu_day''] d5) (\<lambda>d6.
     Inr (drop_columns
            [''store_and_fwd_flag'', ''pulocationid'', ''dolocationid'', ''payment_type_id'',
             ''ratecodeid'', ''tpep_pickup_datetime'', ''tpep_dropoff_datetime''] d6)))))))))))"

text \<open>
  The same chain with each of its four joins run by a given strategy and no broadcast mark:
  what the job computes "under any other join strategy".
\<close>

definition yellow_opt_df_under :: "join_strategy \<Rightarrow> join_strategy \<Rightarrow> join_strategy \<Rightarrow> join_strategy \<Rightarrow> tables
     \<Rightarrow> error + dataframe" where
  "yellow_opt_df_under s1 s2 s3 s4 t =
     and_then (join_under s1 (yellow_df t) (pu_taxi_zone_df t)
                 (yellow_df t, ''pulocationid'') (pu_taxi_zone_df t, ''pu_locationid'')) (\<lambda>j1.
     and_then (join_under s2 j1 (do_taxi_zone_df t)
                 (yellow_df t, ''dolocationid'') (do_taxi_zone_df t, ''do_locationid'')) (\<lambda>j2.
     and_then (join_under s3 j2 (payment_type_df t)
                 (yellow_df t, ''payment_type'') (payment_type_df t, ''payment_type_id'')) (\<lambda>j3.
     and_then (join_under s4 j3 (rate_code_df t)
                 (yellow_df t, ''ratecodeid'') (rate_code_df t, ''ratecode_id'')) (\<lambda>j4.
     and_then (withColumn ''pu_datetime''
                 (ToTimestamp (Col ''tpep_pickup_datetime'') ''yyyy-MM-dd HH:mm:ss'') j4) (\<lambda>d1.
     and_then (withColumn ''do_datetime''
                 (ToTimestamp (Col ''tpep_dropoff_datetime'') ''yyyy-MM-dd HH:mm:ss'') d1) (\<lambda>d2.
     and_then (withColumn ''pu_year'' (Year (Col ''pu_datetime'')) d2) (\<lambda>d3.
     and_then (withColumn ''pu_month'' (Month (Col ''pu_datetime'')) d3) (\<lambda>d4.
     and_then (withColumn ''pu_day'' (DayOfMonth (Col ''pu_datetime'')) d4) (\<lambda>d5.
     and_then (orderBy [''pu_year'', ''pu_month'', ''pu_day''] d5) (\<lambda>d6.
     Inr (drop_columns
            [''store_and_fwd_flag'', ''pulocationid'', ''dolocationid'', ''payment_type_id'',
             ''ratecodeid'', ''tpep_pickup_datetime'', ''tpep_dropoff_datetime''] d6)))))))))))"

text \<open>Two frames with the same schema and the same rows, in whatever order.\<close>

definition same_rows :: "dataframe \<Rightarrow> dataframe \<Rightarrow> bool" where
  "same_rows a b = (columns a = columns b \<and> mset (rows a) = mset (rows b))"

fun same_result :: "error + dataframe \<Rightarrow> error + dataframe \<Rightarrow> bool" where
  "same_result (Inr a) (Inr b) = same_rows a b"
| "same_result (Inl e) (Inl e') = (e = e')"
| "same_result x y = False"

section \<open>Cell 7: the write\<close>

definition your_bucket_name :: string where
  "your_bucket_name = ''ant313-1-087687018744''"

definition blockSize :: int where
  "blockSize = 1024 * 1024 * 32"

text \<open>
  A partitioned data set on storage is one subdirectory per value of the partition
  columns, Hive style (\<^verbatim>\<open>pu_year=2019/pu_month=1\<close>), holding the rows with that value
  without the partition columns themselves. The file system maps a path to the data set
  stored there.
\<close>

type_synonym partition_spec = "(string \<times> val) list"

type_synonym directory = "(partition_spec \<times> row list) list"

type_synonym filesystem = "string \<Rightarrow> directory option"

definition partition_of :: "string list \<Rightarrow> row \<Rightarrow> partition_spec" where
  "partition_of cs r = map (\<lambda>c. (c, cell r c)) cs"

definition partitioned_layout :: "string list \<Rightarrow> row list \<Rightarrow> directory" where
  "partitioned_layout cs rs =
     map (\<lambda>k. (k, map (drop_row cs) (filter (\<lambda>r. partition_of cs r = k) rs)))
         (remdups (map (partition_of cs) rs))"

text \<open>The name of a partition subdirectory; this job partitions by integer columns.\<close>

definition digit_char :: "nat \<Rightarrow> char" where
  "digit_char d = ''0123456789'' ! (d mod 10)"

fun show_nat :: "nat \<Rightarrow> string" where
  "show_nat n = (if n < 10 then [digit_char n] else show_nat (n div 10) @ [digit_char n])"

definition show_int :: "int \<Rightarrow> string" where
  "show_int i = (if i < 0 then CHR ''-'' # show_nat (nat (- i)) else show_nat (nat i))"

fun show_val :: "val \<Rightarrow> string" where
  "show_val VNull = ''__HIVE_DEFAULT_PARTITION__''"
| "show_val (VInt i) = show_int i"
| "show_val (VStr s) = s"
| "show_val (VTs t) =
     show_int (ts_year t) @ ''-'' @ show_int (ts_month t) @ ''-'' @ show_int (ts_day t)
       @ '' '' @ show_int (ts_hour t) @ '':'' @ show_int (ts_minute t)
       @ '':'' @ show_int (ts_second t)"

fun partition_path :: "partition_spec \<Rightarrow> string" where
  "partition_path [] = []"
| "partition_path [(c, v)] = c @ ''='' @ show_val v"
| "partition_path ((c, v) # kvs) = c @ ''='' @ show_val v @ ''/'' @ partition_path kvs"

text \<open>
  \<^verbatim>\<open>df.write\<close> and the builder calls on it. A writer starts in Spark's default mode, which
  refuses a destination that exists.
\<close>

datatype save_mode = Append | Overwrite | ErrorIfExists | Ignore

record writer =
  w_frame :: dataframe
  w_mode :: save_mode
  w_format :: string
  w_options :: "(string \<times> int) list"
  w_partition_by :: "string list"

definition df_write :: "dataframe \<Rightarrow> writer" where
  "df_write df = \<lparr>w_frame = df, w_mode = ErrorIfExists, w_format = ''parquet'',
               w_options = [], w_partition_by = []\<rparr>"

definition mode :: "save_mode \<Rightarrow> writer \<Rightarrow> writer" where
  "mode m w = w\<lparr>w_mode := m\<rparr>"

definition format :: "string \<Rightarrow> writer \<Rightarrow> writer" where
  "format f w = w\<lparr>w_format := f\<rparr>"

definition option :: "string \<Rightarrow> int \<Rightarrow> writer \<Rightarrow> writer" where
  "option k v w = w\<lparr>w_options := (k, v) # filter (\<lambda>(k', v'). k' \<noteq> k) (w_options w)\<rparr>"

definition partitionBy :: "string list \<Rightarrow> writer \<Rightarrow> writer" where
  "partitionBy cs w = w\<lparr>w_partition_by := cs\<rparr>"

text \<open>
  \<^verbatim>\<open>save(path)\<close>. The frame must have no two columns of one name and must have the
  partition columns. Overwrite replaces whatever is at the path, append adds to it, ignore
  leaves an existing destination as it is.
\<close>

definition save :: "string \<Rightarrow> writer \<Rightarrow> filesystem \<Rightarrow> error + filesystem" where
  "save path w fs =
     (let df = w_frame w; new = partitioned_layout (w_partition_by w) (rows df)
      in if \<not> distinct (columns df) then Inl (AnalysisException ''duplicate column'')
         else
           (case unresolved df (w_partition_by w) of
              n # ns \<Rightarrow> Inl (AnalysisException n)
            | [] \<Rightarrow>
               (case w_mode w of
                  Overwrite \<Rightarrow> Inr (fs(path \<mapsto> new))
                | Append \<Rightarrow>
                    Inr (fs(path \<mapsto> (case fs path of None \<Rightarrow> [] | Some old \<Rightarrow> old) @ new))
                | ErrorIfExists \<Rightarrow>
                    (if fs path = None then Inr (fs(path \<mapsto> new))
                     else Inl (AnalysisException ''path already exists''))
                | Ignore \<Rightarrow>
                    (if fs path = None then Inr (fs(path \<mapsto> new)) else Inr fs))))"

definition destination :: string where
  "destination = ''s3://'' @ your_bucket_name @ ''/data/staging/nyctaxi/yellow_opt/''"

definition yellow_opt_writer :: "dataframe \<Rightarrow> writer" where
  "yellow_opt_writer df =
     partitionBy [''pu_year'', ''pu_month'']
       (option ''parquet.block.size'' blockSize
          (format ''parquet'' (mode Overwrite (df_write df))))"

text \<open>The whole notebook: load the tables, build the frame, write it.\<close>

definition etl_job :: "catalog \<Rightarrow> filesystem \<Rightarrow> error + filesystem" where
  "etl_job cat fs =
     and_then (load_tables cat) (\<lambda>t.
     and_then (yellow_opt_df t) (\<lambda>df.
       save destination (yellow_opt_writer df) fs))"

section \<open>What the chain computes, row by row\<close>

text \<open>The inner join as a relation on rows: every matching pair, left rows in order.\<close>

definition inner_join_rows :: "string \<Rightarrow> string \<Rightarrow> row list \<Rightarrow> row list \<Rightarrow> row list" where
  "inner_join_rows lc rc ls rs =
     concat (map (\<lambda>l. map (\<lambda>r. l @ r) (filter (\<lambda>r. sql_eq (cell l lc) (cell r rc)) rs)) ls)"

text \<open>The rows the four joins of \<^verbatim>\<open>yellow_opt_df\<close> make of a list of fact rows.\<close>

definition joined_from :: "tables \<Rightarrow> row list \<Rightarrow> row list" where
  "joined_from t ys =
     inner_join_rows ''ratecodeid'' ''ratecode_id''
       (inner_join_rows ''payment_type'' ''payment_type_id''
          (inner_join_rows ''dolocationid'' ''do_locationid''
             (inner_join_rows ''pulocationid'' ''pu_locationid'' ys (rows (pu_taxi_zone_df t)))
             (rows (do_taxi_zone_df t)))
          (rows (payment_type_df t)))
       (rows (rate_code_df t))"

definition joined_rows :: "tables \<Rightarrow> row list" where
  "joined_rows t = joined_from t (rows (yellow_df t))"

text \<open>The five \<^verbatim>\<open>withColumn\<close> steps on one joined row, and the columns of the final drop.\<close>

definition with_col :: "string \<Rightarrow> expr \<Rightarrow> row \<Rightarrow> row" where
  "with_col c e r = put_cell c (eval_expr e r) r"

definition derive_row :: "row \<Rightarrow> row" where
  "derive_row r =
     with_col ''pu_day'' (DayOfMonth (Col ''pu_datetime''))
       (with_col ''pu_month'' (Month (Col ''pu_datetime''))
          (with_col ''pu_year'' (Year (Col ''pu_datetime''))
             (with_col ''do_datetime''
                (ToTimestamp (Col ''tpep_dropoff_datetime'') ''yyyy-MM-dd HH:mm:ss'')
                (with_col ''pu_datetime''
                   (ToTimestamp (Col ''tpep_pickup_datetime'') ''yyyy-MM-dd HH:mm:ss'') r))))"

definition dropped_columns :: "string list" where
  "dropped_columns =
     [''store_and_fwd_flag'', ''pulocationid'', ''dolocationid'', ''payment_type_id'',
      ''ratecodeid'', ''tpep_pickup_datetime'', ''tpep_dropoff_datetime'']"

definition enrich_row :: "row \<Rightarrow> row" where
  "enrich_row j = drop_row dropped_columns (derive_row j)"

definition add_column :: "string \<Rightarrow> string list \<Rightarrow> string list" where
  "add_column c cs = (if c \<in> set cs then cs else cs @ [c])"

definition joined_columns :: "tables \<Rightarrow> string list" where
  "joined_columns t =
     columns (yellow_df t) @ columns (pu_taxi_zone_df t) @ columns (do_taxi_zone_df t)
       @ columns (payment_type_df t) @ columns (rate_code_df t)"

definition derived_columns :: "string list \<Rightarrow> string list" where
  "derived_columns cs =
     add_column ''pu_day'' (add_column ''pu_month'' (add_column ''pu_year''
       (add_column ''do_datetime'' (add_column ''pu_datetime'' cs))))"

definition order_key :: "row \<Rightarrow> (nat \<times> int list) list" where
  "order_key r = map (\<lambda>c. sort_rank (cell r c)) [''pu_year'', ''pu_month'', ''pu_day'']"

text \<open>A look-up frame has unique keys when no two of its rows share a key that is not null.\<close>

definition unique_keys :: "string \<Rightarrow> dataframe \<Rightarrow> bool" where
  "unique_keys c df = distinct (filter (\<lambda>v. v \<noteq> VNull) (map (\<lambda>r. cell r c) (rows df)))"

definition has_match :: "row \<Rightarrow> string \<Rightarrow> string \<Rightarrow> dataframe \<Rightarrow> bool" where
  "has_match y lc rc df = list_ex (\<lambda>r. sql_eq (cell y lc) (cell r rc)) (rows df)"

definition fully_matched :: "tables \<Rightarrow> row \<Rightarrow> bool" where
  "fully_matched t y =
     (has_match y ''pulocationid'' ''pu_locationid'' (pu_taxi_zone_df t)
      \<and> has_match y ''dolocationid'' ''do_locationid'' (do_taxi_zone_df t)
      \<and> has_match y ''payment_type'' ''payment_type_id'' (payment_type_df t)
      \<and> has_match y ''ratecodeid'' ''ratecode_id'' (rate_code_df t))"

section \<open>Sample tables\<close>

definition sample_yellow :: dataframe where
  "sample_yellow =
     \<lparr>columns = [''vendorid'', ''tpep_pickup_datetime'', ''tpep_dropoff_datetime'',
                 ''ratecodeid'', ''store_and_fwd_flag'', ''pulocationid'', ''dolocationid'',
                 ''payment_type'', ''passenger_count''],
      rows = [[(''vendorid'', VInt 2),
               (''tpep_pickup_datetime'', VStr ''2019-01-15 08:30:00''),
               (''tpep_dropoff_datetime'', VStr ''2019-01-15 08:45:10''),
               (''ratecodeid'', VInt 1), (''store_and_fwd_flag'', VStr ''N''),
               (''pulocationid'', VInt 1), (''dolocationid'', VInt 2),
               (''payment_type'', VInt 1), (''passenger_count'', VInt 3)]],
      broadcast_hint = False\<rparr>"

definition sample_zone :: dataframe where
  "sample_zone =
     \<lparr>columns = [''locationid'', ''borough'', ''zone'', ''service_zone''],
      rows = [[(''locationid'', VInt 1), (''borough'', VStr ''EWR''),
               (''zone'', VStr ''Newark Airport''), (''service_zone'', VStr ''EWR'')],
              [(''locationid'', VInt 2), (''borough'', VStr ''Queens''),
               (''zone'', VStr ''Jamaica Bay''), (''service_zone'', VStr ''Boro Zone'')]],
      broadcast_hint = False\<rparr>"

definition sample_payment_type :: dataframe where
  "sample_payment_type =
     \<lparr>columns = [''id'', ''name''],
      rows = [[(''id'', VInt 1), (''name'', VStr ''Credit card'')],
              [(''id'', VInt 2), (''name'', VStr ''Cash'')]],
      broadcast_hint = False\<rparr>"

definition sample_rate_code :: dataframe where
  "sample_rate_code =
     \<lparr>columns = [''id'', ''name''],
      rows = [[(''id'', VInt 1), (''name'', VStr ''Standard rate'')],
              [(''id'', VInt 2), (''name'', VStr ''JFK'')]],
      broadcast_hint = False\<rparr>"

definition sample_tables :: tables where
  "sample_tables =
     \<lparr>yellow_dyf = sample_yellow, taxi_zone_dyf = sample_zone,
      payment_type_dyf = sample_payment_type, rate_code_dyf = sample_rate_code\<rparr>"

definition sample_catalog :: catalog where
  "sample_catalog =
     [(''nyctaxi'', ''yellow'') \<mapsto> sample_yellow,
      (''nyctaxi'', ''taxizone'') \<mapsto> sample_zone,
      (''nyctaxi'', ''paymenttype'') \<mapsto> sample_payment_type,
      (''nyctaxi'', ''ratecode'') \<mapsto> sample_rate_code]"

text \<open>The schema and the rows of a result; an aborted job has neither.\<close>

definition result_columns :: "error + dataframe \<Rightarrow> string list" where
  "result_columns res = (case res of Inl e \<Rightarrow> [] | Inr df \<Rightarrow> columns df)"

definition result_rows :: "error + dataframe \<Rightarrow> row list" where
  "result_rows res = (case res of Inl e \<Rightarrow> [] | Inr df \<Rightarrow> rows df)"

text \<open>A taxi-zone table in which two rows carry the location 1.\<close>

definition twin_zone :: dataframe where
  "twin_zone =
     \<lparr>columns = [''locationid'', ''borough'', ''zone'', ''service_zone''],
      rows = [[(''locationid'', VInt 1), (''borough'', VStr ''EWR''),
               (''zone'', VStr ''Newark Airport''), (''service_zone'', VStr ''EWR'')],
              [(''locationid'', VInt 1), (''borough'', VStr ''Bronx''),
               (''zone'', VStr ''Allerton''), (''service_zone'', VStr ''Boro Zone'')],
              [(''locationid'', VInt 2), (''borough'', VStr ''Queens''),
               (''zone'', VStr ''Jamaica Bay''), (''service_zone'', VStr ''Boro Zone'')]],
      broadcast_hint = False\<rparr>"

definition twin_tables :: tables where
  "twin_tables = sample_tables\<lparr>taxi_zone_dyf := twin_zone\<rparr>"

text \<open>A trip that starts and ends in the location 1.\<close>

definition round_trip_yellow :: dataframe where
  "round_trip_yellow =
     \<lparr>columns = [''tpep_pickup_datetime'', ''tpep_dropoff_datetime'', ''ratecodeid'',
                 ''pulocationid'', ''dolocationid'', ''payment_type''],
      rows = [[(''tpep_pickup_datetime'', VStr ''2019-02-03 10:00:00''),
               (''tpep_dropoff_datetime'', VStr ''2019-02-03 10:20:00''),
               (''ratecodeid'', VInt 1), (''pulocationid'', VInt 1),
               (''dolocationid'', VInt 1), (''payment_type'', VInt 2)]],
      broadcast_hint = False\<rparr>"

definition round_trip_tables :: tables where
  "round_trip_tables = twin_tables\<lparr>yellow_dyf := round_trip_yellow\<rparr>"

text \<open>Two sets of tables with the same schemas, whatever their rows.\<close>

definition same_schemas :: "tables \<Rightarrow> tables \<Rightarrow> bool" where
  "same_schemas t t' =
     (columns (yellow_dyf t) = columns (yellow_dyf t')
      \<and> columns (taxi_zone_dyf t) = columns (taxi_zone_dyf t')
      \<and> columns (payment_type_dyf t) = columns (payment_type_dyf t')
      \<and> columns (rate_code_dyf t) = columns (rate_code_dyf t'))"

text \<open>The frame the chain makes of the sample tables.\<close>

definition sample_output :: dataframe where
  "sample_output =
     \<lparr>columns =
        [''vendorid'', ''payment_type'', ''passenger_count'', ''pu_locationid'', ''pu_borough'',
         ''pu_zone'', ''pu_service_zone'', ''do_locationid'', ''do_borough'', ''do_zone'',
         ''do_service_zone'', ''payment_type_name'', ''ratecode_id'', ''ratecode_name'',
         ''pu_datetime'', ''do_datetime'', ''pu_year'', ''pu_month'', ''pu_day''],
      rows =
        [[(''vendorid'', VInt 2), (''payment_type'', VInt 1), (''passenger_count'', VInt 3),
          (''pu_locationid'', VInt 1), (''pu_borough'', VStr ''EWR''),
          (''pu_zone'', VStr ''Newark Airport''), (''pu_service_zone'', VStr ''EWR''),
          (''do_locationid'', VInt 2), (''do_borough'', VStr ''Queens''),
          (''do_zone'', VStr ''Jamaica Bay''), (''do_service_zone'', VStr ''Boro Zone''),
          (''payment_type_name'', VStr ''Credit card''), (''ratecode_id'', VInt 1),
          (''ratecode_name'', VStr ''Credit card''),
          (''pu_datetime'', VTs (Timestamp 2019 1 15 8 30 0)),
          (''do_datetime'', VTs (Timestamp 2019 1 15 8 45 10)),
          (''pu_year'', VInt 2019), (''pu_month'', VInt 1), (''pu_day'', VInt 15)]],
      broadcast_hint = False\<rparr>"

text \<open>The sample trip with a pick-up time that is not in the job's format.\<close>

definition odd_time_yellow :: dataframe where
  "odd_time_yellow =
     \<lparr>columns = [''tpep_pickup_datetime'', ''tpep_dropoff_datetime'', ''ratecodeid'',
                 ''pulocationid'', ''dolocationid'', ''payment_type''],
      rows = [[(''tpep_pickup_datetime'', VStr ''15/01/2019 08:30''),
               (''tpep_dropoff_datetime'', VStr ''2019-01-15 08:45:10''),
               (''ratecodeid'', VInt 1), (''pulocationid'', VInt 1),
               (''dolocationid'', VInt 2), (''payment_type'', VInt 1)]],
      broadcast_hint = False\<rparr>"

definition odd_time_tables :: tables where
  "odd_time_tables = sample_tables\<lparr>yellow_dyf := odd_time_yellow\<rparr>"

definition odd_time_output :: dataframe where
  "odd_time_output =
     \<lparr>columns =
        [''payment_type'', ''pu_locationid'', ''pu_borough'', ''pu_zone'', ''pu_service_zone'',
         ''do_locationid'', ''do_borough'', ''do_zone'', ''do_service_zone'',
         ''payment_type_name'', ''ratecode_id'', ''ratecode_name'',
         ''pu_datetime'', ''do_datetime'', ''pu_year'', ''pu_month'', ''pu_day''],
      rows =
        [[(''payment_type'', VInt 1),
          (''pu_locationid'', VInt 1), (''pu_borough'', VStr ''EWR''),
          (''pu_zone'', VStr ''Newark Airport''), (''pu_service_zone'', VStr ''EWR''),
          (''do_locationid'', VInt 2), (''do_borough'', VStr ''Queens''),
          (''do_zone'', VStr ''Jamaica Bay''), (''do_service_zone'', VStr ''Boro Zone''),
          (''payment_type_name'', VStr ''Credit card''), (''ratecode_id'', VInt 1),
          (''ratecode_name'', VStr ''Credit card''),
          (''pu_datetime'', VNull),
          (''do_datetime'', VTs (Timestamp 2019 1 15 8 45 10)),
          (''pu_year'', VNull), (''pu_month'', VNull), (''pu_day'', VNull)]],
      broadcast_hint = False\<rparr>"

text \<open>The sample trip and a trip whose rate code 99 is in no look-up.\<close>

definition mixed_yellow :: dataframe where
  "mixed_yellow =
     sample_yellow\<lparr>rows := rows sample_yellow @
       [[(''vendorid'', VInt 1),
         (''tpep_pickup_datetime'', VStr ''2019-03-02 23:10:05''),
         (''tpep_dropoff_datetime'', VStr ''2019-03-02 23:31:40''),
         (''ratecodeid'', VInt 99), (''store_and_fwd_flag'', VStr ''N''),
         (''pulocationid'', VInt 2), (''dolocationid'', VInt 1),
         (''payment_type'', VInt 2), (''passenger_count'', VInt 1)]]\<rparr>"

definition mixed_tables :: tables where
  "mixed_tables = sample_tables\<lparr>yellow_dyf := mixed_yellow\<rparr>"

text \<open>The data set the sample output makes, and a destination with an older result.\<close>

definition sample_directory :: directory where
  "sample_directory =
     [([(''pu_year'', VInt 2019), (''pu_month'', VInt 1)],
       [[(''vendorid'', VInt 2), (''payment_type'', VInt 1), (''passenger_count'', VInt 3),
         (''pu_locationid'', VInt 1), (''pu_borough'', VStr ''EWR''),
         (''pu_zone'', VStr ''Newark Airport''), (''pu_service_zone'', VStr ''EWR''),
         (''do_locationid'', VInt 2), (''do_borough'', VStr ''Queens''),
         (''do_zone'', VStr ''Jamaica Bay''), (''do_service_zone'', VStr ''Boro Zone''),
         (''payment_type_name'', VStr ''Credit card''), (''ratecode_id'', VInt 1),
         (''ratecode_name'', VStr ''Credit card''),
         (''pu_datetime'', VTs (Timestamp 2019 1 15 8 30 0)),
         (''do_datetime'', VTs (Timestamp 2019 1 15 8 45 10)),
         (''pu_day'', VInt 15)]])]"

definition stale_directory :: directory where
  "stale_directory =
     [([(''pu_year'', VInt 2018), (''pu_month'', VInt 12)],
       [[(''vendorid'', VInt 1), (''pu_day'', VInt 31)]])]"

definition stale_filesystem :: filesystem where
  "stale_filesystem = [destination \<mapsto> stale_directory]"

text \<open>The round trip with the sample look-ups, whose keys are unique.\<close>

definition loop_tables :: tables where
  "loop_tables = sample_tables\<lparr>yellow_dyf := round_trip_yellow\<rparr>"

text \<open>The location ids and the zone attributes of an output row, pick-up beside drop-off.\<close>

definition zone_cells :: "row \<Rightarrow> val list" where
  "zone_cells r =
     [cell r ''pu_locationid'', cell r ''do_locationid'', cell r ''pu_borough'',
      cell r ''do_borough'', cell r ''pu_zone'', cell r ''do_zone'']"

text \<open>The sample tables with the drop-off location 2 twice in the taxi-zone table.\<close>

definition echo_zone :: dataframe where
  "echo_zone =
     \<lparr>columns = [''locationid'', ''borough'', ''zone'', ''service_zone''],
      rows = [[(''locationid'', VInt 1), (''borough'', VStr ''EWR''),
               (''zone'', VStr ''Newark Airport''), (''service_zone'', VStr ''EWR'')],
              [(''locationid'', VInt 2), (''borough'', VStr ''Queens''),
               (''zone'', VStr ''Jamaica Bay''), (''service_zone'', VStr ''Boro Zone'')],
              [(''locationid'', VInt 2), (''borough'', VStr ''Queens''),
               (''zone'', VStr ''Jamaica Bay''), (''service_zone'', VStr ''Boro Zone'')]],
      broadcast_hint = False\<rparr>"

definition echo_tables :: tables where
  "echo_tables = sample_tables\<lparr>taxi_zone_dyf := echo_zone\<rparr>"

text \<open>The cells of a fact row that the example of the specification fixes.\<close>

definition example_cells :: "row \<Rightarrow> val list" where
  "example_cells y =
     [cell y ''pulocationid'', cell y ''dolocationid'', cell y ''payment_type'',
      cell y ''ratecodeid'', cell y ''tpep_pickup_datetime'']"

text \<open>The sample trip as a row of the fact frame, and the look-up rows it matches.\<close>

definition sample_trip :: row where
  "sample_trip =
     [(''vendorid'', VInt 2),
      (''tpep_pickup_datetime'', VStr ''2019-01-15 08:30:00''),
      (''tpep_dropoff_datetime'', VStr ''2019-01-15 08:45:10''),
      (''ratecodeid'', VInt 1), (''store_and_fwd_flag'', VStr ''N''),
      (''pulocationid'', VInt 1), (''dolocationid'', VInt 2),
      (''payment_type'', VInt 1), (''passenger_count'', VInt 3)]"

definition sample_pu :: row where
  "sample_pu =
     [(''pu_locationid'', VInt 1), (''pu_borough'', VStr ''EWR''),
      (''pu_zone'', VStr ''Newark Airport''), (''pu_service_zone'', VStr ''EWR'')]"

definition sample_do :: row where
  "sample_do =
     [(''do_locationid'', VInt 2), (''do_borough'', VStr ''Queens''),
      (''do_zone'', VStr ''Jamaica Bay''), (''do_service_zone'', VStr ''Boro Zone'')]"

definition sample_pay :: row where
  "sample_pay = [(''payment_type_id'', VInt 1), (''payment_type_name'', VStr ''Credit card'')]"

definition sample_rate :: row where
  "sample_rate = [(''ratecode_id'', VInt 1), (''ratecode_name'', VStr ''Credit card'')]"

section \<open>The engine's timestamp parser\<close>

text \<open>
  The parser behind \<^verbatim>\<open>to_timestamp\<close> is the engine's, not the notebook's, and engines do
  not agree on a string that is not exactly of the pattern's shape. For
  \<^verbatim>\<open>2019-1-5 8:30:00\<close> under \<^verbatim>\<open>yyyy-MM-dd HH:mm:ss\<close> one engine gives the timestamp,
  another gives none, and a third refuses the string with an error when the plan runs.
  Here the parser is a parameter: for a pattern and a string it gives a timestamp, reports
  the string unparsable, or raises.
\<close>

datatype parse_outcome = Parsed timestamp | Unparsable | ParserRaises

type_synonym parser = "string \<Rightarrow> string \<Rightarrow> parse_outcome"

text \<open>
  \<^verbatim>\<open>to_timestamp(col, fmt)\<close> over a parser: a string the parser reports unparsable gives
  null, a string it raises on aborts the evaluation.
\<close>

fun to_timestamp_by :: "parser \<Rightarrow> val \<Rightarrow> string \<Rightarrow> error + val" where
  "to_timestamp_by p (VStr s) fmt =
     (case p fmt s of
        Parsed t \<Rightarrow> Inr (VTs t)
      | Unparsable \<Rightarrow> Inr VNull
      | ParserRaises \<Rightarrow> Inl (SparkException s))"
| "to_timestamp_by p (VTs t) fmt = Inr (VTs t)"
| "to_timestamp_by p (VInt i) fmt = Inr VNull"
| "to_timestamp_by p VNull fmt = Inr VNull"

fun eval_expr_by :: "parser \<Rightarrow> expr \<Rightarrow> row \<Rightarrow> error + val" where
  "eval_expr_by p (Col c) r = Inr (cell r c)"
| "eval_expr_by p (ToTimestamp e fmt) r =
     and_then (eval_expr_by p e r) (\<lambda>v. to_timestamp_by p v fmt)"
| "eval_expr_by p (Year e) r = and_then (eval_expr_by p e r) (\<lambda>v. Inr (year v))"
| "eval_expr_by p (Month e) r = and_then (eval_expr_by p e r) (\<lambda>v. Inr (month v))"
| "eval_expr_by p (DayOfMonth e) r = and_then (eval_expr_by p e r) (\<lambda>v. Inr (dayofmonth v))"

text \<open>A computation on every row of a frame; the first row that raises aborts it.\<close>

fun each_row :: "('a \<Rightarrow> error + 'b) \<Rightarrow> 'a list \<Rightarrow> error + 'b list" where
  "each_row f [] = Inr []"
| "each_row f (x # xs) =
     and_then (f x) (\<lambda>y. and_then (each_row f xs) (\<lambda>ys. Inr (y # ys)))"

text \<open>
  \<^verbatim>\<open>withColumn(c, e)\<close> over a parser. A name that does not resolve is refused when the call
  is made. An error of the parser comes up when the rows are computed: in the engine that
  is when the write runs the plan, here it is where the column is added; the job aborts
  either way, and nothing reads a frame in between.
\<close>

definition withColumn_by :: "parser \<Rightarrow> string \<Rightarrow> expr \<Rightarrow> dataframe \<Rightarrow> error + dataframe" where
  "withColumn_by p c e df =
     (case unresolved df (expr_refs e) of
        n # ns \<Rightarrow> Inl (AnalysisException n)
      | [] \<Rightarrow>
          and_then (each_row (\<lambda>r. and_then (eval_expr_by p e r) (\<lambda>v. Inr (put_cell c v r)))
                      (rows df)) (\<lambda>rs.
          Inr (df\<lparr>columns := (if c \<in> set (columns df) then columns df else columns df @ [c]),
                  rows := rs\<rparr>)))"

text \<open>Cells 4 and 5 and the whole notebook, on an engine with the parser \<open>p\<close>.\<close>

definition yellow_opt_df_by :: "parser \<Rightarrow> tables \<Rightarrow> error + dataframe" where
  "yellow_opt_df_by p t =
     and_then (join (yellow_df t) (broadcast (pu_taxi_zone_df t))
                 (yellow_df t, ''pulocationid'') (pu_taxi_zone_df t, ''pu_locationid'')) (\<lambda>j1.
     and_then (join j1 (broadcast (do_taxi_zone_df t))
                 (yellow_df t, ''dolocationid'') (do_taxi_zone_df t, ''do_locationid'')) (\<lambda>j2.
     and_then (join j2 (broadcast (payment_type_df t))
                 (yellow_df t, ''payment_type'') (payment_type_df t, ''payment_type_id'')) (\<lambda>j3.
     and_then (join j3 (broadcast (rate_code_df t))
                 (yellow_df t, ''ratecodeid'') (rate_code_df t, ''ratecode_id'')) (\<lambda>j4.
     and_then (withColumn_by p ''pu_datetime''
                 (ToTimestamp (Col ''tpep_pickup_datetime'') ''yyyy-MM-dd HH:mm:ss'') j4) (\<lambda>d1.
     and_then (withColumn_by p ''do_datetime''
                 (ToTimestamp (Col ''tpep_dropoff_datetime'') ''yyyy-MM-dd HH:mm:ss'') d1) (\<lambda>d2.
     and_then (withColumn_by p ''pu_year'' (Year (Col ''pu_datetime'')) d2) (\<lambda>d3.
     and_then (withColumn_by p ''pu_month'' (Month (Col ''pu_datetime'')) d3) (\<lambda>d4.
     and_then (withColumn_by p ''pu_day'' (DayOfMonth (Col ''pu_datetime'')) d4) (\<lambda>d5.
     and_then (orderBy [''pu_year'', ''pu_month'', ''pu_day''] d5) (\<lambda>d6.
     Inr (drop_columns
            [''store_and_fwd_flag'', ''pulocationid'', ''dolocationid'', ''payment_type_id'',
             ''ratecodeid'', ''tpep_pickup_datetime'', ''tpep_dropoff_datetime''] d6)))))))))))"

definition etl_job_by :: "parser \<Rightarrow> catalog \<Rightarrow> filesystem \<Rightarrow> error + filesystem" where
  "etl_job_by p cat fs =
     and_then (load_tables cat) (\<lambda>t.
     and_then (yellow_opt_df_by p t) (\<lambda>df.
       save destination (yellow_opt_writer df) fs))"

text \<open>
  Whether the parser raises on a value, and the value \<^verbatim>\<open>to_timestamp\<close> gives when it does
  not.
\<close>

fun raises :: "parser \<Rightarrow> val \<Rightarrow> string \<Rightarrow> bool" where
  "raises p (VStr s) fmt = (p fmt s = ParserRaises)"
| "raises p v fmt = False"

fun read_timestamp :: "parser \<Rightarrow> val \<Rightarrow> string \<Rightarrow> val" where
  "read_timestamp p (VStr s) fmt = (case p fmt s of Parsed t \<Rightarrow> VTs t | _ \<Rightarrow> VNull)"
| "read_timestamp p (VTs t) fmt = VTs t"
| "read_timestamp p v fmt = VNull"

definition row_raises :: "parser \<Rightarrow> row \<Rightarrow> bool" where
  "row_raises p j =
     (raises p (cell j ''tpep_pickup_datetime'') ''yyyy-MM-dd HH:mm:ss''
      \<or> raises p (cell j ''tpep_dropoff_datetime'') ''yyyy-MM-dd HH:mm:ss'')"

text \<open>The five \<^verbatim>\<open>withColumn\<close> steps on one joined row whose strings the parser takes.\<close>

definition with_timestamp :: "parser \<Rightarrow> string \<Rightarrow> string \<Rightarrow> string \<Rightarrow> row \<Rightarrow> row" where
  "with_timestamp p c k fmt r = put_cell c (read_timestamp p (cell r k) fmt) r"

definition derive_row_by :: "parser \<Rightarrow> row \<Rightarrow> row" where
  "derive_row_by p r =
     with_col ''pu_day'' (DayOfMonth (Col ''pu_datetime''))
       (with_col ''pu_month'' (Month (Col ''pu_datetime''))
          (with_col ''pu_year'' (Year (Col ''pu_datetime''))
             (with_timestamp p ''do_datetime'' ''tpep_dropoff_datetime'' ''yyyy-MM-dd HH:mm:ss''
                (with_timestamp p ''pu_datetime'' ''tpep_pickup_datetime'' ''yyyy-MM-dd HH:mm:ss''
                   r))))"

definition enrich_row_by :: "parser \<Rightarrow> row \<Rightarrow> row" where
  "enrich_row_by p j = drop_row dropped_columns (derive_row_by p j)"

definition enriched_rows_by :: "parser \<Rightarrow> tables \<Rightarrow> row list" where
  "enriched_rows_by p t =
     map (drop_row dropped_columns) (sort_key order_key (map (derive_row_by p) (joined_rows t)))"

definition output_columns :: "tables \<Rightarrow> string list" where
  "output_columns t =
     filter (\<lambda>c. c \<notin> set dropped_columns) (derived_columns (joined_columns t))"

text \<open>
  What the analysis of the chain asks of the schemas: the join keys and the raw timestamps
  resolve, and no two columns already bear the name of a derived column that is read. The
  write asks in addition that the output has no two columns of one name.
\<close>

definition chain_resolves :: "tables \<Rightarrow> bool" where
  "chain_resolves t =
     (resolves (yellow_df t) ''pulocationid'' \<and> resolves (pu_taxi_zone_df t) ''pu_locationid''
      \<and> resolves (yellow_df t) ''dolocationid'' \<and> resolves (do_taxi_zone_df t) ''do_locationid''
      \<and> resolves (yellow_df t) ''payment_type'' \<and> resolves (payment_type_df t) ''payment_type_id''
      \<and> resolves (yellow_df t) ''ratecodeid'' \<and> resolves (rate_code_df t) ''ratecode_id''
      \<and> count_list (joined_columns t) ''tpep_pickup_datetime'' = 1
      \<and> count_list (joined_columns t) ''tpep_dropoff_datetime'' = 1
      \<and> count_list (joined_columns t) ''pu_datetime'' \<le> 1
      \<and> count_list (joined_columns t) ''pu_year'' \<le> 1
      \<and> count_list (joined_columns t) ''pu_month'' \<le> 1
      \<and> count_list (joined_columns t) ''pu_day'' \<le> 1)"

definition analysis_ok :: "tables \<Rightarrow> bool" where
  "analysis_ok t = (chain_resolves t \<and> distinct (output_columns t))"

text \<open>A frame without the broadcast mark.\<close>

definition frame :: "string list \<Rightarrow> row list \<Rightarrow> dataframe" where
  "frame cs rs = \<lparr>columns = cs, rows = rs, broadcast_hint = False\<rparr>"

text \<open>
  Two parsers to run the job on. The first reads the strings of exactly the pattern's
  shape and reports every other string unparsable; the second reads the same strings and
  raises on every other one, as an engine does that fails on a string it cannot read.
\<close>

definition fixed_width_parser :: parser where
  "fixed_width_parser fmt s =
     (case parse_timestamp fmt s of None \<Rightarrow> Unparsable | Some t \<Rightarrow> Parsed t)"

definition refusing_parser :: parser where
  "refusing_parser fmt s =
     (case parse_timestamp fmt s of None \<Rightarrow> ParserRaises | Some t \<Rightarrow> Parsed t)"

text \<open>
  The catalog of the trip with the odd pick-up time, the data set the job makes of it, and
  a catalog whose trip has the pick-up time \<^verbatim>\<open>2019-1-5 8:30:00\<close>.
\<close>

definition odd_time_catalog :: catalog where
  "odd_time_catalog = sample_catalog((''nyctaxi'', ''yellow'') \<mapsto> odd_time_yellow)"

definition odd_time_directory :: directory where
  "odd_time_directory =
     [([(''pu_year'', VNull), (''pu_month'', VNull)],
       [[(''payment_type'', VInt 1),
         (''pu_locationid'', VInt 1), (''pu_borough'', VStr ''EWR''),
         (''pu_zone'', VStr ''Newark Airport''), (''pu_service_zone'', VStr ''EWR''),
         (''do_locationid'', VInt 2), (''do_borough'', VStr ''Queens''),
         (''do_zone'', VStr ''Jamaica Bay''), (''do_service_zone'', VStr ''Boro Zone''),
         (''payment_type_name'', VStr ''Credit card''), (''ratecode_id'', VInt 1),
         (''ratecode_name'', VStr ''Credit card''),
         (''pu_datetime'', VNull),
         (''do_datetime'', VTs (Timestamp 2019 1 15 8 45 10)),
         (''pu_day'', VNull)]])]"

definition short_time_yellow :: dataframe where
  "short_time_yellow =
     \<lparr>columns = [''tpep_pickup_datetime'', ''tpep_dropoff_datetime'', ''ratecodeid'',
                 ''pulocationid'', ''dolocationid'', ''payment_type''],
      rows = [[(''tpep_pickup_datetime'', VStr ''2019-1-5 8:30:00''),
               (''tpep_dropoff_datetime'', VStr ''2019-01-05 08:45:10''),
               (''ratecodeid'', VInt 1), (''pulocationid'', VInt 1),
               (''dolocationid'', VInt 2), (''payment_type'', VInt 1)]],
      broadcast_hint = False\<rparr>"

definition short_time_catalog :: catalog where
  "short_time_catalog = sample_catalog((''nyctaxi'', ''yellow'') \<mapsto> short_time_yellow)"

section \<open>Facts about the frame operations\<close>

subsection \<open>The chain as stages\<close>

lemma and_then_Inr: "and_then m f = Inr y \<longleftrightarrow> (\<exists>x. m = Inr x \<and> f x = Inr y)"
  by (cases m) (simp_all add: and_then_def)

lemma build_hash_lookup:
  "k \<noteq> VNull \<Longrightarrow>
     (case build_hash rc rs k of None \<Rightarrow> [] | Some b \<Rightarrow> b) = filter (\<lambda>r. cell r rc = k) rs"
  by (induction rs) (auto simp: Let_def)

lemma probe_build_hash:
  "probe (build_hash rc rs) lc l = map (\<lambda>r. l @ r) (filter (\<lambda>r. sql_eq (cell l lc) (cell r rc)) rs)"
proof (cases "cell l lc = VNull")
  case True
  then show ?thesis by (simp add: probe_def sql_eq_def)
next
  case False
  have "filter (\<lambda>r. sql_eq (cell l lc) (cell r rc)) rs = filter (\<lambda>r. cell r rc = cell l lc) rs"
    using False by (intro filter_cong) (auto simp: sql_eq_def)
  moreover have "probe (build_hash rc rs) lc l
      = map (\<lambda>r. l @ r) (case build_hash rc rs (cell l lc) of None \<Rightarrow> [] | Some b \<Rightarrow> b)"
    using False by (simp add: probe_def split: option.splits)
  ultimately show ?thesis
    using build_hash_lookup [OF False, of rc rs] by simp
qed

lemma hash_join_eq: "hash_join lc rc ls rs = inner_join_rows lc rc ls rs"
  unfolding hash_join_def inner_join_rows_def
  by (rule arg_cong [where f = concat], rule map_cong) (simp_all add: probe_build_hash)

lemma nested_loop_join_eq: "nested_loop_join lc rc ls rs = inner_join_rows lc rc ls rs"
  by (induction ls) (simp_all add: nested_loop_join_def inner_join_rows_def filter_map comp_def)

lemma join_broadcast:
  "join l (broadcast r) lref rref = join_under BroadcastHashJoin l r lref rref"
  by (simp add: join_def plan_join_def broadcast_def join_under_def)

lemma join_under_Inr:
  "join_under s l r (ldf, lc) (rdf, rc) = Inr j \<longleftrightarrow>
     resolves ldf lc \<and> resolves rdf rc
     \<and> j = \<lparr>columns = columns l @ columns r, rows = exec_join s lc rc (rows l) (rows r),
            broadcast_hint = False\<rparr>"
  by (auto simp: join_under_def)

lemma withColumn_Inr:
  "withColumn c e df = Inr d \<longleftrightarrow>
     unresolved df (expr_refs e) = []
     \<and> d = df\<lparr>columns := add_column c (columns df), rows := map (with_col c e) (rows df)\<rparr>"
  by (auto simp: withColumn_def add_column_def with_col_def split: list.splits)

lemma orderBy_Inr:
  "orderBy cs df = Inr d \<longleftrightarrow>
     unresolved df cs = []
     \<and> d = df\<lparr>rows := sort_key (\<lambda>r. map (\<lambda>c. sort_rank (cell r c)) cs) (rows df)\<rparr>"
  by (auto simp: orderBy_def split: list.splits)

lemma yellow_opt_df_Inr:
  assumes "yellow_opt_df t = Inr out"
  shows "columns out = filter (\<lambda>c. c \<notin> set dropped_columns) (derived_columns (joined_columns t))"
    and "rows out = map (drop_row dropped_columns) (sort_key order_key (map derive_row (joined_rows t)))"
  using assms
  unfolding yellow_opt_df_def and_then_Inr join_broadcast join_under_Inr withColumn_Inr orderBy_Inr
  by (auto simp: drop_columns_def derived_columns_def joined_columns_def dropped_columns_def
      hash_join_eq joined_rows_def joined_from_def derive_row_def [abs_def] order_key_def [abs_def] comp_def)



subsection \<open>Cells of changed rows\<close>

lemma map_of_replace:
  "map_of (map (\<lambda>(k, w). if k = c then (k, v) else (k, w)) r) k
     = (case map_of r k of None \<Rightarrow> None | Some w \<Rightarrow> Some (if k = c then v else w))"
  by (induction r) (simp_all add: case_prod_beta)

lemma map_of_put_cell:
  "map_of (put_cell c v r) k = (if k = c then Some v else map_of r k)"
proof (cases "map_of r c")
  case None
  then have "c \<notin> fst ` set r" by (simp add: map_of_eq_None_iff)
  with None show ?thesis by (simp add: put_cell_def map_add_def split: option.splits)
next
  case (Some w)
  then have "c \<in> fst ` set r" by (metis map_of_eq_None_iff option.distinct(1))
  with Some show ?thesis by (simp add: put_cell_def map_of_replace split: option.splits)
qed

lemma cell_with_col:
  "cell (with_col c e r) k = (if k = c then eval_expr e r else cell r k)"
  by (simp add: with_col_def cell_def map_of_put_cell)

lemma map_of_drop_row: "map_of (drop_row cs r) k = (if k \<in> set cs then None else map_of r k)"
  by (induction r) (auto simp: drop_row_def)

lemma cell_drop_row: "cell (drop_row cs r) k = (if k \<in> set cs then VNull else cell r k)"
  by (simp add: cell_def map_of_drop_row)

lemma cell_append: "cell (l @ r) k = (if k \<in> fst ` set l then cell l k else cell r k)"
proof (cases "map_of l k")
  case None
  then have "k \<notin> fst ` set l" by (simp add: map_of_eq_None_iff)
  with None show ?thesis by (simp add: cell_def map_add_def)
next
  case (Some v)
  then have "k \<in> fst ` set l" by (metis map_of_eq_None_iff option.distinct(1))
  with Some show ?thesis by (simp add: cell_def map_add_def)
qed

lemma set_inner_join_rows:
  "set (inner_join_rows lc rc ls rs) =
     {l @ r | l r. l \<in> set ls \<and> r \<in> set rs \<and> sql_eq (cell l lc) (cell r rc)}"
  by (auto simp: inner_join_rows_def)

lemma set_rows_yellow_opt_df:
  assumes "yellow_opt_df t = Inr out"
  shows "set (rows out) = enrich_row ` set (joined_rows t)"
  by (simp add: yellow_opt_df_Inr(2) [OF assms] enrich_row_def [abs_def] image_image)


lemma count_list_add_column:
  "k \<noteq> c \<Longrightarrow> count_list (add_column c cs) k = count_list cs k"
  by (simp add: add_column_def)

lemma unresolved_single: "unresolved df [c] = [] \<longleftrightarrow> count_list (columns df) c = 1"
  by (simp add: unresolved_def resolves_def)

lemma yellow_opt_df_resolves:
  assumes "yellow_opt_df t = Inr out"
  shows "resolves (yellow_df t) ''pulocationid'' \<and> resolves (pu_taxi_zone_df t) ''pu_locationid''
    \<and> resolves (yellow_df t) ''dolocationid'' \<and> resolves (do_taxi_zone_df t) ''do_locationid''
    \<and> resolves (yellow_df t) ''payment_type'' \<and> resolves (payment_type_df t) ''payment_type_id''
    \<and> resolves (yellow_df t) ''ratecodeid'' \<and> resolves (rate_code_df t) ''ratecode_id''
    \<and> count_list (joined_columns t) ''tpep_pickup_datetime'' = 1
    \<and> count_list (joined_columns t) ''tpep_dropoff_datetime'' = 1"
  using assms
  unfolding yellow_opt_df_def and_then_Inr join_broadcast join_under_Inr withColumn_Inr orderBy_Inr
  by (clarsimp simp: joined_columns_def unresolved_single count_list_add_column
      simp del: count_list.simps)

lemma cell_enrich_row:
  "cell (enrich_row j) ''pu_datetime'' = to_timestamp (cell j ''tpep_pickup_datetime'') ''yyyy-MM-dd HH:mm:ss''"
  "cell (enrich_row j) ''do_datetime'' = to_timestamp (cell j ''tpep_dropoff_datetime'') ''yyyy-MM-dd HH:mm:ss''"
  "cell (enrich_row j) ''pu_year'' = year (cell (enrich_row j) ''pu_datetime'')"
  "cell (enrich_row j) ''pu_month'' = month (cell (enrich_row j) ''pu_datetime'')"
  "cell (enrich_row j) ''pu_day'' = dayofmonth (cell (enrich_row j) ''pu_datetime'')"
  by (simp_all add: enrich_row_def derive_row_def cell_drop_row cell_with_col dropped_columns_def)

subsection \<open>Schemas\<close>

lemma set_add_column: "set (add_column c cs) = insert c (set cs)"
  by (auto simp: add_column_def)

lemma set_derived_columns:
  "set (derived_columns cs) =
     {''pu_datetime'', ''do_datetime'', ''pu_year'', ''pu_month'', ''pu_day''} \<union> set cs"
  by (auto simp: derived_columns_def set_add_column)

lemma resolves_mem: "resolves df c \<Longrightarrow> c \<in> set (columns df)"
  by (metis count_list_0_iff resolves_def zero_neq_one)

lemma columns_yellow_df: "columns (yellow_df t) = columns (yellow_dyf t)"
  by (simp add: yellow_df_def cache_def repartition_def toDF_def)

lemma columns_lookups:
  "columns (pu_taxi_zone_df t) =
     (if ''locationid'' \<in> set (columns (taxi_zone_dyf t)) then [''pu_locationid''] else [])
     @ (if ''borough'' \<in> set (columns (taxi_zone_dyf t)) then [''pu_borough''] else [])
     @ (if ''zone'' \<in> set (columns (taxi_zone_dyf t)) then [''pu_zone''] else [])
     @ (if ''service_zone'' \<in> set (columns (taxi_zone_dyf t)) then [''pu_service_zone''] else [])"
  "columns (do_taxi_zone_df t) =
     (if ''locationid'' \<in> set (columns (taxi_zone_dyf t)) then [''do_locationid''] else [])
     @ (if ''borough'' \<in> set (columns (taxi_zone_dyf t)) then [''do_borough''] else [])
     @ (if ''zone'' \<in> set (columns (taxi_zone_dyf t)) then [''do_zone''] else [])
     @ (if ''service_zone'' \<in> set (columns (taxi_zone_dyf t)) then [''do_service_zone''] else [])"
  "columns (payment_type_df t) =
     (if ''id'' \<in> set (columns (payment_type_dyf t)) then [''payment_type_id''] else [])
     @ (if ''name'' \<in> set (columns (payment_type_dyf t)) then [''payment_type_name''] else [])"
  "columns (rate_code_df t) =
     (if ''id'' \<in> set (columns (payment_type_dyf t)) then [''ratecode_id''] else [])
     @ (if ''name'' \<in> set (columns (payment_type_dyf t)) then [''ratecode_name''] else [])"
  by (simp_all add: pu_taxi_zone_df_def do_taxi_zone_df_def payment_type_df_def rate_code_df_def
      toDF_def apply_mapping_def)

lemma same_schemas_columns:
  assumes "same_schemas t t'"
  shows "columns (yellow_df t) = columns (yellow_df t')"
    "columns (pu_taxi_zone_df t) = columns (pu_taxi_zone_df t')"
    "columns (do_taxi_zone_df t) = columns (do_taxi_zone_df t')"
    "columns (payment_type_df t) = columns (payment_type_df t')"
    "columns (rate_code_df t) = columns (rate_code_df t')"
  using assms by (simp_all add: same_schemas_def columns_yellow_df columns_lookups)

lemma unresolved_columns_cong:
  "columns df = columns df' \<Longrightarrow> unresolved df cs = unresolved df' cs"
  by (simp add: unresolved_def resolves_def)


lemma and_then_rel_columns:
  assumes "rel_sum (=) (\<lambda>a b. columns a = columns b) m m'"
    and "\<And>x x'. columns x = columns x' \<Longrightarrow> rel_sum (=) (\<lambda>a b. columns a = columns b) (f x) (f' x')"
  shows "rel_sum (=) (\<lambda>a b. columns a = columns b) (and_then m f) (and_then m' f')"
  using assms by (cases m; cases m') (simp_all add: and_then_def)

lemma join_rel_columns:
  assumes "columns l = columns l'" "columns r = columns r'"
    "columns ldf = columns ldf'" "columns rdf = columns rdf'"
  shows "rel_sum (=) (\<lambda>a b. columns a = columns b)
           (join l (broadcast r) (ldf, lc) (rdf, rc)) (join l' (broadcast r') (ldf', lc) (rdf', rc))"
  using assms by (simp add: join_def join_under_def resolves_def broadcast_def)

lemma withColumn_rel_columns:
  assumes "columns d = columns d'"
  shows "rel_sum (=) (\<lambda>a b. columns a = columns b) (withColumn c e d) (withColumn c e d')"
  using assms unresolved_columns_cong [OF assms, of "expr_refs e"]
  by (simp add: withColumn_def split: list.splits)

lemma orderBy_rel_columns:
  assumes "columns d = columns d'"
  shows "rel_sum (=) (\<lambda>a b. columns a = columns b) (orderBy cs d) (orderBy cs d')"
  using assms unresolved_columns_cong [OF assms, of cs]
  by (simp add: orderBy_def split: list.splits)

lemma yellow_opt_df_same_schemas:
  assumes "same_schemas t t'"
  shows "rel_sum (=) (\<lambda>a b. columns a = columns b) (yellow_opt_df t) (yellow_opt_df t')"
  unfolding yellow_opt_df_def
  by (intro and_then_rel_columns join_rel_columns withColumn_rel_columns orderBy_rel_columns)
     (simp_all add: same_schemas_columns [OF assms] drop_columns_def)

lemma succeeds_same_schemas:
  assumes "same_schemas t t'" and "yellow_opt_df t = Inr out"
  shows "\<exists>out'. yellow_opt_df t' = Inr out'"
  using yellow_opt_df_same_schemas [OF assms(1)] assms(2)
  by (cases "yellow_opt_df t'") simp_all

subsection \<open>Runs on the sample tables\<close>

lemma sample_run: "yellow_opt_df sample_tables = Inr sample_output"
  by code_simp

lemma odd_time_run: "yellow_opt_df odd_time_tables = Inr odd_time_output"
  by code_simp

subsection \<open>Joined rows and their number\<close>

lemma toDF_row_keys: "r \<in> set (rows (toDF d)) \<Longrightarrow> map fst r = columns d"
  by (auto simp: toDF_def comp_def)

lemma yellow_row_keys: "y \<in> set (rows (yellow_df t)) \<Longrightarrow> fst ` set y = set (columns (yellow_df t))"
proof -
  assume "y \<in> set (rows (yellow_df t))"
  then have "map fst y = columns (yellow_df t)"
    by (simp add: yellow_df_def cache_def repartition_def toDF_row_keys) (simp add: toDF_def)
  then show ?thesis by (metis set_map)
qed

lemma inner_join_rows_single:
  "inner_join_rows lc rc [l] rs = map (\<lambda>r. l @ r) (filter (\<lambda>r. sql_eq (cell l lc) (cell r rc)) rs)"
  by (simp add: inner_join_rows_def)

lemma inner_join_rows_concat:
  "inner_join_rows lc rc (concat xss) rs = concat (map (\<lambda>xs. inner_join_rows lc rc xs rs) xss)"
  by (induction xss) (simp_all add: inner_join_rows_def)

lemma joined_from_by_row: "joined_from t ys = concat (map (\<lambda>y. joined_from t [y]) ys)"
proof -
  have "joined_from t ys = joined_from t (concat (map (\<lambda>y. [y]) ys))" by simp
  also have "\<dots> = concat (map (\<lambda>y. joined_from t [y]) ys)"
    unfolding joined_from_def by (simp only: inner_join_rows_concat map_map comp_def)
  finally show ?thesis .
qed

lemma prefix_inner_join_rows:
  assumes "\<forall>l\<in>set ls. \<exists>x. l = y @ x"
  shows "\<forall>j\<in>set (inner_join_rows lc rc ls rs). \<exists>x. j = y @ x"
  using assms by (fastforce simp: set_inner_join_rows)

lemma length_inner_join_rows:
  assumes "\<forall>l\<in>set ls. \<exists>x. l = y @ x" and "k \<in> fst ` set y"
  shows "length (inner_join_rows k rc ls rs)
           = length ls * length (filter (\<lambda>r. sql_eq (cell y k) (cell r rc)) rs)"
proof -
  have "cell l k = cell y k" if "l \<in> set ls" for l
  proof -
    from that assms(1) obtain x where "l = y @ x" by blast
    with assms(2) show ?thesis by (simp add: cell_append)
  qed
  then have "(\<Sum>l\<leftarrow>ls. length (filter (\<lambda>r. sql_eq (cell l k) (cell r rc)) rs))
      = (\<Sum>l\<leftarrow>ls. length (filter (\<lambda>r. sql_eq (cell y k) (cell r rc)) rs))"
    by (intro arg_cong [where f = sum_list] map_cong) simp_all
  then show ?thesis
    by (simp add: inner_join_rows_def length_concat comp_def sum_list_triv)
qed

lemma unique_keys_filter:
  assumes "unique_keys c df"
  shows "length (filter (\<lambda>r. sql_eq v (cell r c)) (rows df)) \<le> 1"
proof -
  have "distinct (filter (\<lambda>v. v \<noteq> VNull) (map (\<lambda>r. cell r c) rs))
     \<Longrightarrow> length (filter (\<lambda>r. sql_eq v (cell r c)) rs) \<le> 1" for rs
  proof (induction rs)
    case Nil
    then show ?case by simp
  next
    case (Cons r rs)
    show ?case
    proof (cases "sql_eq v (cell r c)")
      case True
      then have "cell r c \<noteq> VNull" "cell r c = v" by (auto simp: sql_eq_def)
      with Cons.prems have "cell r c \<notin> set (map (\<lambda>r. cell r c) rs)" by auto
      then have "filter (\<lambda>r. sql_eq v (cell r c)) rs = []"
        using \<open>cell r c = v\<close> by (auto simp: filter_empty_conv sql_eq_def)
      with True show ?thesis by simp
    next
      case False
      with Cons show ?thesis by (simp split: if_splits)
    qed
  qed
  with assms show ?thesis by (simp add: unique_keys_def)
qed

lemma unique_keys_matches:
  assumes "unique_keys c df"
  shows "length (filter (\<lambda>r. sql_eq (cell y k) (cell r c)) (rows df))
           = (if has_match y k c df then 1 else 0)"
proof -
  have "has_match y k c df \<longleftrightarrow> filter (\<lambda>r. sql_eq (cell y k) (cell r c)) (rows df) \<noteq> []"
    by (auto simp: has_match_def list_ex_iff filter_empty_conv)
  with unique_keys_filter [OF assms, of "cell y k"] show ?thesis
    by (cases "filter (\<lambda>r. sql_eq (cell y k) (cell r c)) (rows df)") auto
qed


lemma yellow_row_has_keys:
  assumes "yellow_opt_df t = Inr out" and "y \<in> set (rows (yellow_df t))"
  shows "''pulocationid'' \<in> fst ` set y \<and> ''dolocationid'' \<in> fst ` set y
    \<and> ''payment_type'' \<in> fst ` set y \<and> ''ratecodeid'' \<in> fst ` set y"
  using yellow_opt_df_resolves [OF assms(1)] yellow_row_keys [OF assms(2)]
  by (auto dest: resolves_mem)

lemma length_joined_from_single:
  assumes ok: "yellow_opt_df t = Inr out" and y: "y \<in> set (rows (yellow_df t))"
    and u1: "unique_keys ''pu_locationid'' (pu_taxi_zone_df t)"
    and u2: "unique_keys ''do_locationid'' (do_taxi_zone_df t)"
    and u3: "unique_keys ''payment_type_id'' (payment_type_df t)"
    and u4: "unique_keys ''ratecode_id'' (rate_code_df t)"
  shows "length (joined_from t [y]) = (if fully_matched t y then 1 else 0)"
proof -
  note k = yellow_row_has_keys [OF ok y]
  define J1 where "J1 = inner_join_rows ''pulocationid'' ''pu_locationid'' [y] (rows (pu_taxi_zone_df t))"
  define J2 where "J2 = inner_join_rows ''dolocationid'' ''do_locationid'' J1 (rows (do_taxi_zone_df t))"
  define J3 where "J3 = inner_join_rows ''payment_type'' ''payment_type_id'' J2 (rows (payment_type_df t))"
  have p0: "\<forall>l\<in>set [y]. \<exists>x. l = y @ x" by simp
  have p1: "\<forall>l\<in>set J1. \<exists>x. l = y @ x"
    unfolding J1_def by (rule prefix_inner_join_rows [OF p0])
  have p2: "\<forall>l\<in>set J2. \<exists>x. l = y @ x"
    unfolding J2_def by (rule prefix_inner_join_rows [OF p1])
  have p3: "\<forall>l\<in>set J3. \<exists>x. l = y @ x"
    unfolding J3_def by (rule prefix_inner_join_rows [OF p2])
  have l1: "length J1 = (if has_match y ''pulocationid'' ''pu_locationid'' (pu_taxi_zone_df t) then 1 else 0)"
    unfolding J1_def using length_inner_join_rows [OF p0] k unique_keys_matches [OF u1] by simp
  have l2: "length J2 = length J1 * (if has_match y ''dolocationid'' ''do_locationid'' (do_taxi_zone_df t) then 1 else 0)"
    unfolding J2_def using length_inner_join_rows [OF p1] k unique_keys_matches [OF u2] by simp
  have l3: "length J3 = length J2 * (if has_match y ''payment_type'' ''payment_type_id'' (payment_type_df t) then 1 else 0)"
    unfolding J3_def using length_inner_join_rows [OF p2] k unique_keys_matches [OF u3] by simp
  have l4: "length (joined_from t [y]) = length J3 * (if has_match y ''ratecodeid'' ''ratecode_id'' (rate_code_df t) then 1 else 0)"
    unfolding joined_from_def J3_def [symmetric] J2_def [symmetric] J1_def [symmetric]
    using length_inner_join_rows [OF p3] k unique_keys_matches [OF u4] by simp
  show ?thesis
    by (simp add: l1 l2 l3 l4 fully_matched_def)
qed

lemma sum_list_indicator:
  "(\<Sum>x\<leftarrow>xs. if P x then 1 else 0) = length (filter P xs)"
  by (induction xs) simp_all

lemma mset_rows_yellow_opt_df:
  assumes "yellow_opt_df t = Inr out"
  shows "mset (rows out) = image_mset enrich_row (mset (joined_rows t))"
  by (simp add: yellow_opt_df_Inr(2) [OF assms] enrich_row_def [abs_def] image_mset.compositionality comp_def)

lemma mixed_run: "yellow_opt_df mixed_tables = Inr sample_output"
  by code_simp

lemma joined_from_single_prefix:
  "\<forall>j\<in>set (joined_from t [y]). \<exists>x. j = y @ x"
  unfolding joined_from_def
  by (intro prefix_inner_join_rows) simp

lemma joined_rows_prefix:
  assumes "j \<in> set (joined_rows t)"
  shows "\<exists>y\<in>set (rows (yellow_df t)). \<exists>x. j = y @ x"
proof -
  from assms obtain y where y: "y \<in> set (rows (yellow_df t))" and j: "j \<in> set (joined_from t [y])"
    unfolding joined_rows_def by (subst (asm) joined_from_by_row) auto
  with joined_from_single_prefix [of t y] show ?thesis by blast
qed

lemma raw_timestamps_in_yellow:
  assumes "yellow_opt_df t = Inr out"
  shows "''tpep_pickup_datetime'' \<in> set (columns (yellow_df t))
    \<and> ''tpep_dropoff_datetime'' \<in> set (columns (yellow_df t))"
proof -
  from yellow_opt_df_resolves [OF assms]
  have "count_list (joined_columns t) ''tpep_pickup_datetime'' \<noteq> 0"
    and "count_list (joined_columns t) ''tpep_dropoff_datetime'' \<noteq> 0" by simp_all
  then have "''tpep_pickup_datetime'' \<in> set (joined_columns t)"
    and "''tpep_dropoff_datetime'' \<in> set (joined_columns t)"
    by (simp_all only: count_list_0_iff not_not)
  then show ?thesis
    by (simp add: joined_columns_def columns_lookups split: if_splits)
qed

subsection \<open>The writer\<close>

lemma distinct_count_list_1:
  "distinct xs \<Longrightarrow> x \<in> set xs \<Longrightarrow> count_list xs x = 1"
  by (induction xs) (auto simp: count_list_0_iff)



lemma save_yellow_opt_writer:
  assumes "distinct (columns out)" and "''pu_year'' \<in> set (columns out)"
    and "''pu_month'' \<in> set (columns out)"
  shows "save path (yellow_opt_writer out) fs
     = Inr (fs(path \<mapsto> partitioned_layout [''pu_year'', ''pu_month''] (rows out)))"
  using assms
  by (simp add: save_def yellow_opt_writer_def partitionBy_def option_def format_def mode_def
      df_write_def unresolved_def resolves_def distinct_count_list_1 Let_def)

lemma save_yellow_opt_writer_Inr:
  assumes "save path (yellow_opt_writer out) fs = Inr fs'"
  shows "distinct (columns out)
    \<and> fs' = fs(path \<mapsto> partitioned_layout [''pu_year'', ''pu_month''] (rows out))"
  using assms
  by (auto simp: save_def yellow_opt_writer_def partitionBy_def option_def format_def mode_def
      df_write_def Let_def split: if_splits list.splits)

lemma etl_job_Inr:
  "etl_job cat fs = Inr fs' \<longleftrightarrow>
     (\<exists>t out. load_tables cat = Inr t \<and> yellow_opt_df t = Inr out
        \<and> save destination (yellow_opt_writer out) fs = Inr fs')"
  by (simp add: etl_job_def and_then_Inr)

lemma pu_year_month_columns:
  assumes "yellow_opt_df t = Inr out"
  shows "''pu_year'' \<in> set (columns out) \<and> ''pu_month'' \<in> set (columns out)"
  by (simp add: yellow_opt_df_Inr(1) [OF assms] set_derived_columns dropped_columns_def)

lemma etl_job_result:
  assumes "etl_job cat fs = Inr fs'"
  shows "\<exists>t out. load_tables cat = Inr t \<and> yellow_opt_df t = Inr out \<and> distinct (columns out)
     \<and> fs' = fs(destination \<mapsto> partitioned_layout [''pu_year'', ''pu_month''] (rows out))"
  using assms save_yellow_opt_writer_Inr unfolding etl_job_Inr by blast

lemma etl_job_run:
  assumes "load_tables cat = Inr t" and "yellow_opt_df t = Inr out" and "distinct (columns out)"
  shows "etl_job cat fs
     = Inr (fs(destination \<mapsto> partitioned_layout [''pu_year'', ''pu_month''] (rows out)))"
  using assms pu_year_month_columns [OF assms(2)]
  by (simp add: etl_job_def and_then_def save_yellow_opt_writer)

lemma sample_load: "load_tables sample_catalog = Inr sample_tables"
  by (simp add: load_tables_def from_catalog_def sample_catalog_def and_then_def sample_tables_def)

lemma sample_layout:
  "partitioned_layout [''pu_year'', ''pu_month''] (rows sample_output) = sample_directory"
  by code_simp

lemma sample_job: "etl_job sample_catalog fs = Inr (fs(destination \<mapsto> sample_directory))"
proof -
  have "distinct (columns sample_output)" by code_simp
  from etl_job_run [OF sample_load sample_run this, of fs] show ?thesis
    by (simp only: sample_layout)
qed

subsection \<open>Where the cells of a joined row come from\<close>

lemma joined_rows_decompose:
  assumes "j \<in> set (joined_rows t)"
  shows "\<exists>y a b c d. y \<in> set (rows (yellow_df t)) \<and> a \<in> set (rows (pu_taxi_zone_df t))
    \<and> b \<in> set (rows (do_taxi_zone_df t)) \<and> c \<in> set (rows (payment_type_df t))
    \<and> d \<in> set (rows (rate_code_df t)) \<and> j = y @ a @ b @ c @ d
    \<and> sql_eq (cell y ''pulocationid'') (cell a ''pu_locationid'')
    \<and> sql_eq (cell (y @ a) ''dolocationid'') (cell b ''do_locationid'')
    \<and> sql_eq (cell (y @ a @ b) ''payment_type'') (cell c ''payment_type_id'')
    \<and> sql_eq (cell (y @ a @ b @ c) ''ratecodeid'') (cell d ''ratecode_id'')"
proof -
  from assms obtain j3 d where d: "d \<in> set (rows (rate_code_df t))" and j: "j = j3 @ d"
    and e4: "sql_eq (cell j3 ''ratecodeid'') (cell d ''ratecode_id'')"
    and j3: "j3 \<in> set (inner_join_rows ''payment_type'' ''payment_type_id''
          (inner_join_rows ''dolocationid'' ''do_locationid''
             (inner_join_rows ''pulocationid'' ''pu_locationid'' (rows (yellow_df t)) (rows (pu_taxi_zone_df t)))
             (rows (do_taxi_zone_df t)))
          (rows (payment_type_df t)))"
    unfolding joined_rows_def joined_from_def by (subst (asm) set_inner_join_rows) blast
  from j3 obtain j2 c where c: "c \<in> set (rows (payment_type_df t))" and j3e: "j3 = j2 @ c"
    and e3: "sql_eq (cell j2 ''payment_type'') (cell c ''payment_type_id'')"
    and j2: "j2 \<in> set (inner_join_rows ''dolocationid'' ''do_locationid''
             (inner_join_rows ''pulocationid'' ''pu_locationid'' (rows (yellow_df t)) (rows (pu_taxi_zone_df t)))
             (rows (do_taxi_zone_df t)))"
    by (subst (asm) set_inner_join_rows) blast
  from j2 obtain j1 b where b: "b \<in> set (rows (do_taxi_zone_df t))" and j2e: "j2 = j1 @ b"
    and e2: "sql_eq (cell j1 ''dolocationid'') (cell b ''do_locationid'')"
    and j1: "j1 \<in> set (inner_join_rows ''pulocationid'' ''pu_locationid'' (rows (yellow_df t)) (rows (pu_taxi_zone_df t)))"
    by (subst (asm) set_inner_join_rows) blast
  from j1 obtain y a where y: "y \<in> set (rows (yellow_df t))" and a: "a \<in> set (rows (pu_taxi_zone_df t))"
    and j1e: "j1 = y @ a" and e1: "sql_eq (cell y ''pulocationid'') (cell a ''pu_locationid'')"
    by (subst (asm) set_inner_join_rows) blast
  have "j = y @ a @ b @ c @ d" by (simp add: j j3e j2e j1e)
  moreover have "sql_eq (cell (y @ a) ''dolocationid'') (cell b ''do_locationid'')"
    using e2 by (simp add: j1e)
  moreover have "sql_eq (cell (y @ a @ b) ''payment_type'') (cell c ''payment_type_id'')"
    using e3 by (simp add: j2e j1e)
  moreover have "sql_eq (cell (y @ a @ b @ c) ''ratecodeid'') (cell d ''ratecode_id'')"
    using e4 by (simp add: j3e j2e j1e)
  ultimately show ?thesis using y a b c d e1 by blast
qed

lemma cell_schema_row:
  "cell (map (\<lambda>c. (c, f c)) cs) k = (if k \<in> set cs then f k else VNull)"
proof -
  have "map_of (map (\<lambda>c. (c, f c)) cs) k = (if k \<in> set cs then Some (f k) else None)"
    by (induction cs) auto
  then show ?thesis by (simp add: cell_def)
qed

lemma rows_toDF_apply_mapping:
  "r \<in> set (rows (toDF (apply_mapping dyf ms))) \<Longrightarrow>
     \<exists>z\<in>set (rows dyf).
       r = map (\<lambda>c. (c, cell (map_record ms z) c)) (columns (apply_mapping dyf ms))"
  by (auto simp: toDF_def apply_mapping_def)

lemma unique_keys_same_row:
  assumes "unique_keys c df" and "z \<in> set (rows df)" and "z' \<in> set (rows df)"
    and "cell z c = cell z' c" and "cell z c \<noteq> VNull"
  shows "z = z'"
proof -
  let ?rs = "filter (\<lambda>r. cell r c \<noteq> VNull) (rows df)"
  from assms(1) have "distinct (map (\<lambda>r. cell r c) ?rs)"
    by (simp add: unique_keys_def filter_map comp_def)
  then have "inj_on (\<lambda>r. cell r c) (set ?rs)" by (simp add: distinct_map)
  moreover have "z \<in> set ?rs" "z' \<in> set ?rs" using assms by simp_all
  ultimately show ?thesis using assms(4) by (auto dest: inj_onD)
qed

lemma cell_notin: "k \<notin> fst ` set r \<Longrightarrow> cell r k = VNull"
  by (simp add: cell_def map_of_eq_None_iff [THEN iffD2])

lemma row_keys_toDF:
  "r \<in> set (rows (toDF d)) \<Longrightarrow> fst ` set r = set (columns (toDF d))"
proof -
  assume "r \<in> set (rows (toDF d))"
  then have "map fst r = columns d" by (rule toDF_row_keys)
  then have "set (map fst r) = set (columns d)" by simp
  then show ?thesis by (simp add: toDF_def)
qed

lemma lookup_row_keys:
  "a \<in> set (rows (pu_taxi_zone_df t)) \<Longrightarrow>
     fst ` set a \<subseteq> {''pu_locationid'', ''pu_borough'', ''pu_zone'', ''pu_service_zone''}"
  "b \<in> set (rows (do_taxi_zone_df t)) \<Longrightarrow>
     fst ` set b \<subseteq> {''do_locationid'', ''do_borough'', ''do_zone'', ''do_service_zone''}"
  "c \<in> set (rows (payment_type_df t)) \<Longrightarrow>
     fst ` set c \<subseteq> {''payment_type_id'', ''payment_type_name''}"
  "d \<in> set (rows (rate_code_df t)) \<Longrightarrow>
     fst ` set d \<subseteq> {''ratecode_id'', ''ratecode_name''}"
proof -
  show "a \<in> set (rows (pu_taxi_zone_df t)) \<Longrightarrow>
     fst ` set a \<subseteq> {''pu_locationid'', ''pu_borough'', ''pu_zone'', ''pu_service_zone''}"
    using row_keys_toDF [of a] columns_lookups(1) [of t]
    by (simp add: pu_taxi_zone_df_def split: if_splits)
  show "b \<in> set (rows (do_taxi_zone_df t)) \<Longrightarrow>
     fst ` set b \<subseteq> {''do_locationid'', ''do_borough'', ''do_zone'', ''do_service_zone''}"
    using row_keys_toDF [of b] columns_lookups(2) [of t]
    by (simp add: do_taxi_zone_df_def split: if_splits)
  show "c \<in> set (rows (payment_type_df t)) \<Longrightarrow>
     fst ` set c \<subseteq> {''payment_type_id'', ''payment_type_name''}"
    using row_keys_toDF [of c] columns_lookups(3) [of t]
    by (simp add: payment_type_df_def split: if_splits)
  show "d \<in> set (rows (rate_code_df t)) \<Longrightarrow>
     fst ` set d \<subseteq> {''ratecode_id'', ''ratecode_name''}"
    using row_keys_toDF [of d] columns_lookups(4) [of t]
    by (simp add: rate_code_df_def split: if_splits)
qed

lemma map_record_Cons:
  "map_record ((s, st, t, tt) # ms) z =
     (case map_of z s of None \<Rightarrow> [] | Some v \<Rightarrow> [(t, v)]) @ map_record ms z"
  by (simp add: map_record_def)

lemma map_record_no_target:
  "k \<notin> (\<lambda>(s, st, t, tt). t) ` set ms \<Longrightarrow> map_of (map_record ms z) k = None"
proof (induction ms)
  case Nil
  then show ?case by (simp add: map_record_def)
next
  case (Cons m ms)
  obtain s st t tt where m: "m = (s, st, t, tt)" by (cases m)
  from Cons show ?case by (simp add: m map_record_Cons map_add_def split: option.splits)
qed

lemma mapped_cell:
  assumes "distinct (map (\<lambda>(s, st, t, tt). t) ms)" and "(s, st, k, tt) \<in> set ms"
  shows "cell (map_record ms z) k = cell z s"
  using assms
proof (induction ms)
  case Nil
  then show ?case by simp
next
  case (Cons m ms)
  obtain s' st' t' tt' where m: "m = (s', st', t', tt')" by (cases m)
  show ?case
  proof (cases "(s, st, k, tt) = m")
    case True
    then have e: "s' = s" "t' = k" by (simp_all add: m)
    from Cons.prems(1) have "k \<notin> (\<lambda>(s, st, t, tt). t) ` set ms" by (simp add: m e)
    then have "map_of (map_record ms z) k = None" by (rule map_record_no_target)
    then show ?thesis
      by (simp add: m e map_record_Cons cell_def map_add_def split: option.splits)
  next
    case False
    with Cons.prems have mem: "(s, st, k, tt) \<in> set ms" by auto
    then have "k \<in> (\<lambda>(s, st, t, tt). t) ` set ms" by force
    moreover from Cons.prems(1) have "t' \<notin> (\<lambda>(s, st, t, tt). t) ` set ms" by (simp add: m)
    ultimately have "t' \<noteq> k" by blast
    moreover from Cons.prems(1) have "distinct (map (\<lambda>(s, st, t, tt). t) ms)" by simp
    ultimately show ?thesis
      using Cons.IH mem by (simp add: m map_record_Cons cell_def map_add_def split: option.splits)
  qed
qed

lemma mapped_column:
  assumes "distinct (map (\<lambda>(s, st, t, tt). t) ms)" and "(s, st, k, tt) \<in> set ms"
  shows "k \<in> set (columns (apply_mapping dyf ms)) \<longleftrightarrow> s \<in> set (columns dyf)"
proof -
  have "k \<in> set (columns (apply_mapping dyf ms))
      \<longleftrightarrow> (\<exists>(s', st', t', tt')\<in>set ms. t' = k \<and> s' \<in> set (columns dyf))"
    by (auto simp: apply_mapping_def split: if_splits)
  also have "\<dots> \<longleftrightarrow> s \<in> set (columns dyf)"
  proof
    assume "\<exists>(s', st', t', tt')\<in>set ms. t' = k \<and> s' \<in> set (columns dyf)"
    then obtain s' st' tt' where m': "(s', st', k, tt') \<in> set ms" and c: "s' \<in> set (columns dyf)"
      by auto
    from assms(1) have "inj_on (\<lambda>(s, st, t, tt). t) (set ms)" by (simp add: distinct_map)
    from inj_onD [OF this _ m' assms(2)] have "s' = s" by simp
    with c show "s \<in> set (columns dyf)" by simp
  next
    assume "s \<in> set (columns dyf)"
    with assms(2) show "\<exists>(s', st', t', tt')\<in>set ms. t' = k \<and> s' \<in> set (columns dyf)" by auto
  qed
  finally show ?thesis .
qed

lemma mapped_frame_cell:
  assumes "r \<in> set (rows (toDF (apply_mapping dyf ms)))"
    and "distinct (map (\<lambda>(s, st, t, tt). t) ms)"
  shows "\<exists>z\<in>set (rows dyf). \<forall>s st k tt. (s, st, k, tt) \<in> set ms \<longrightarrow>
           cell r k = (if s \<in> set (columns dyf) then cell z s else VNull)"
proof -
  from rows_toDF_apply_mapping [OF assms(1)] obtain z where z: "z \<in> set (rows dyf)"
    and r: "r = map (\<lambda>c. (c, cell (map_record ms z) c)) (columns (apply_mapping dyf ms))"
    by blast
  have "cell r k = (if s \<in> set (columns dyf) then cell z s else VNull)"
    if "(s, st, k, tt) \<in> set ms" for s st k tt
    unfolding r cell_schema_row
    using mapped_cell [OF assms(2) that] mapped_column [OF assms(2) that] by simp
  with z show ?thesis by blast
qed

lemma pu_zone_row_cells:
  assumes "a \<in> set (rows (pu_taxi_zone_df t))"
  shows "\<exists>z\<in>set (rows (taxi_zone_dyf t)).
     cell a ''pu_locationid'' =
       (if ''locationid'' \<in> set (columns (taxi_zone_dyf t)) then cell z ''locationid'' else VNull)
     \<and> cell a ''pu_borough'' =
       (if ''borough'' \<in> set (columns (taxi_zone_dyf t)) then cell z ''borough'' else VNull)
     \<and> cell a ''pu_zone'' =
       (if ''zone'' \<in> set (columns (taxi_zone_dyf t)) then cell z ''zone'' else VNull)
     \<and> cell a ''pu_service_zone'' =
       (if ''service_zone'' \<in> set (columns (taxi_zone_dyf t)) then cell z ''service_zone'' else VNull)"
proof -
  let ?ms = "[(''locationid'', ''bigint'', ''pu_locationid'', ''bigint''),
        (''borough'', ''string'', ''pu_borough'', ''string''),
        (''zone'', ''string'', ''pu_zone'', ''string''),
        (''service_zone'', ''string'', ''pu_service_zone'', ''string'')]"
  have d: "distinct (map (\<lambda>(s, st, t, tt). t) ?ms)" by simp
  from mapped_frame_cell [OF assms [unfolded pu_taxi_zone_df_def] d]
  obtain z where z: "z \<in> set (rows (taxi_zone_dyf t))"
    and c: "\<forall>s st k tt. (s, st, k, tt) \<in> set ?ms \<longrightarrow>
      cell a k = (if s \<in> set (columns (taxi_zone_dyf t)) then cell z s else VNull)"
    by blast
  have "cell a ''pu_locationid'' =
       (if ''locationid'' \<in> set (columns (taxi_zone_dyf t)) then cell z ''locationid'' else VNull)"
    using c [rule_format, of "''locationid''" "''bigint''" "''pu_locationid''" "''bigint''"] by simp
  moreover have "cell a ''pu_borough'' =
       (if ''borough'' \<in> set (columns (taxi_zone_dyf t)) then cell z ''borough'' else VNull)"
    using c [rule_format, of "''borough''" "''string''" "''pu_borough''" "''string''"] by simp
  moreover have "cell a ''pu_zone'' =
       (if ''zone'' \<in> set (columns (taxi_zone_dyf t)) then cell z ''zone'' else VNull)"
    using c [rule_format, of "''zone''" "''string''" "''pu_zone''" "''string''"] by simp
  moreover have "cell a ''pu_service_zone'' =
       (if ''service_zone'' \<in> set (columns (taxi_zone_dyf t)) then cell z ''service_zone'' else VNull)"
    using c [rule_format, of "''service_zone''" "''string''" "''pu_service_zone''" "''string''"] by simp
  ultimately show ?thesis using z by blast
qed

lemma do_zone_row_cells:
  assumes "b \<in> set (rows (do_taxi_zone_df t))"
  shows "\<exists>z\<in>set (rows (taxi_zone_dyf t)).
     cell b ''do_locationid'' =
       (if ''locationid'' \<in> set (columns (taxi_zone_dyf t)) then cell z ''locationid'' else VNull)
     \<and> cell b ''do_borough'' =
       (if ''borough'' \<in> set (columns (taxi_zone_dyf t)) then cell z ''borough'' else VNull)
     \<and> cell b ''do_zone'' =
       (if ''zone'' \<in> set (columns (taxi_zone_dyf t)) then cell z ''zone'' else VNull)
     \<and> cell b ''do_service_zone'' =
       (if ''service_zone'' \<in> set (columns (taxi_zone_dyf t)) then cell z ''service_zone'' else VNull)"
proof -
  let ?ms = "[(''locationid'', ''bigint'', ''do_locationid'', ''bigint''),
        (''borough'', ''string'', ''do_borough'', ''string''),
        (''zone'', ''string'', ''do_zone'', ''string''),
        (''service_zone'', ''string'', ''do_service_zone'', ''string'')]"
  have d: "distinct (map (\<lambda>(s, st, t, tt). t) ?ms)" by simp
  from mapped_frame_cell [OF assms [unfolded do_taxi_zone_df_def] d]
  obtain z where z: "z \<in> set (rows (taxi_zone_dyf t))"
    and c: "\<forall>s st k tt. (s, st, k, tt) \<in> set ?ms \<longrightarrow>
      cell b k = (if s \<in> set (columns (taxi_zone_dyf t)) then cell z s else VNull)"
    by blast
  have "cell b ''do_locationid'' =
       (if ''locationid'' \<in> set (columns (taxi_zone_dyf t)) then cell z ''locationid'' else VNull)"
    using c [rule_format, of "''locationid''" "''bigint''" "''do_locationid''" "''bigint''"] by simp
  moreover have "cell b ''do_borough'' =
       (if ''borough'' \<in> set (columns (taxi_zone_dyf t)) then cell z ''borough'' else VNull)"
    using c [rule_format, of "''borough''" "''string''" "''do_borough''" "''string''"] by simp
  moreover have "cell b ''do_zone'' =
       (if ''zone'' \<in> set (columns (taxi_zone_dyf t)) then cell z ''zone'' else VNull)"
    using c [rule_format, of "''zone''" "''string''" "''do_zone''" "''string''"] by simp
  moreover have "cell b ''do_service_zone'' =
       (if ''service_zone'' \<in> set (columns (taxi_zone_dyf t)) then cell z ''service_zone'' else VNull)"
    using c [rule_format, of "''service_zone''" "''string''" "''do_service_zone''" "''string''"] by simp
  ultimately show ?thesis using z by blast
qed

lemma cell_enrich_row_kept:
  "k \<notin> set dropped_columns \<Longrightarrow>
   k \<notin> {''pu_datetime'', ''do_datetime'', ''pu_year'', ''pu_month'', ''pu_day''} \<Longrightarrow>
   cell (enrich_row j) k = cell j k"
  by (simp add: enrich_row_def derive_row_def cell_drop_row cell_with_col)

lemma cell_joined_pu:
  assumes "k \<notin> fst ` set y" and "b \<in> set (rows (do_taxi_zone_df t))"
    and "c \<in> set (rows (payment_type_df t))" and "d \<in> set (rows (rate_code_df t))"
    and "k \<in> {''pu_locationid'', ''pu_borough'', ''pu_zone'', ''pu_service_zone''}"
  shows "cell (y @ a @ b @ c @ d) k = cell a k"
proof -
  from assms(5) lookup_row_keys(2) [OF assms(2)] have "k \<notin> fst ` set b" by auto
  moreover from assms(5) lookup_row_keys(3) [OF assms(3)] have "k \<notin> fst ` set c" by auto
  moreover from assms(5) lookup_row_keys(4) [OF assms(4)] have "k \<notin> fst ` set d" by auto
  ultimately show ?thesis using assms(1) by (simp add: cell_append cell_notin)
qed

lemma cell_joined_do:
  assumes "k \<notin> fst ` set y" and "a \<in> set (rows (pu_taxi_zone_df t))"
    and "c \<in> set (rows (payment_type_df t))" and "d \<in> set (rows (rate_code_df t))"
    and "k \<in> {''do_locationid'', ''do_borough'', ''do_zone'', ''do_service_zone''}"
  shows "cell (y @ a @ b @ c @ d) k = cell b k"
proof -
  from assms(5) lookup_row_keys(1) [OF assms(2)] have "k \<notin> fst ` set a" by auto
  moreover from assms(5) lookup_row_keys(3) [OF assms(3)] have "k \<notin> fst ` set c" by auto
  moreover from assms(5) lookup_row_keys(4) [OF assms(4)] have "k \<notin> fst ` set d" by auto
  ultimately show ?thesis using assms(1) by (simp add: cell_append cell_notin)
qed

lemma sql_eq_VInt: "sql_eq (VInt i) x \<longleftrightarrow> x = VInt i"
  by (auto simp: sql_eq_def)

lemma cell_joined_pay:
  assumes "k \<notin> fst ` set y" and "a \<in> set (rows (pu_taxi_zone_df t))"
    and "b \<in> set (rows (do_taxi_zone_df t))" and "d \<in> set (rows (rate_code_df t))"
    and "k \<in> {''payment_type_id'', ''payment_type_name''}"
  shows "cell (y @ a @ b @ c @ d) k = cell c k"
proof -
  from assms(5) lookup_row_keys(1) [OF assms(2)] have "k \<notin> fst ` set a" by auto
  moreover from assms(5) lookup_row_keys(2) [OF assms(3)] have "k \<notin> fst ` set b" by auto
  moreover from assms(5) lookup_row_keys(4) [OF assms(4)] have "k \<notin> fst ` set d" by auto
  ultimately show ?thesis using assms(1) by (simp add: cell_append cell_notin)
qed

lemma cell_joined_rate:
  assumes "k \<notin> fst ` set y" and "a \<in> set (rows (pu_taxi_zone_df t))"
    and "b \<in> set (rows (do_taxi_zone_df t))" and "c \<in> set (rows (payment_type_df t))"
    and "k \<in> {''ratecode_id'', ''ratecode_name''}"
  shows "cell (y @ a @ b @ c @ d) k = cell d k"
proof -
  from assms(5) lookup_row_keys(1) [OF assms(2)] have "k \<notin> fst ` set a" by auto
  moreover from assms(5) lookup_row_keys(2) [OF assms(3)] have "k \<notin> fst ` set b" by auto
  moreover from assms(5) lookup_row_keys(3) [OF assms(4)] have "k \<notin> fst ` set c" by auto
  ultimately show ?thesis using assms(1) by (simp add: cell_append cell_notin)
qed

lemma partitioned_layout_mem:
  assumes "r \<in> set rs"
  shows "\<exists>xs. (partition_of cs r, xs) \<in> set (partitioned_layout cs rs) \<and> drop_row cs r \<in> set xs"
proof -
  let ?xs = "map (drop_row cs) (filter (\<lambda>x. partition_of cs x = partition_of cs r) rs)"
  from assms have "(partition_of cs r, ?xs) \<in> set (partitioned_layout cs rs)"
    by (auto simp: partitioned_layout_def)
  moreover from assms have "drop_row cs r \<in> set ?xs" by auto
  ultimately show ?thesis by blast
qed

lemma parse_example:
  "parse_timestamp ''yyyy-MM-dd HH:mm:ss'' ''2019-01-15 08:30:00'' = Some (Timestamp 2019 1 15 8 30 0)"
  by code_simp

lemma path_example:
  "partition_path [(''pu_year'', VInt 2019), (''pu_month'', VInt 1)] = ''pu_year=2019/pu_month=1''"
  by code_simp

lemma joined_from_single_match:
  assumes ok: "yellow_opt_df t = Inr out" and y: "y \<in> set (rows (yellow_df t))"
    and v: "cell y ''pulocationid'' = VInt i1" "cell y ''dolocationid'' = VInt i2"
      "cell y ''payment_type'' = VInt i3" "cell y ''ratecodeid'' = VInt i4"
    and a: "filter (\<lambda>r. cell r ''pu_locationid'' = VInt i1) (rows (pu_taxi_zone_df t)) = [a]"
    and b: "filter (\<lambda>r. cell r ''do_locationid'' = VInt i2) (rows (do_taxi_zone_df t)) = [b]"
    and c: "filter (\<lambda>r. cell r ''payment_type_id'' = VInt i3) (rows (payment_type_df t)) = [c]"
    and d: "filter (\<lambda>r. cell r ''ratecode_id'' = VInt i4) (rows (rate_code_df t)) = [d]"
  shows "joined_from t [y] = [y @ a @ b @ c @ d]"
proof -
  note k = yellow_row_has_keys [OF ok y]
  have 1: "inner_join_rows ''pulocationid'' ''pu_locationid'' [y] (rows (pu_taxi_zone_df t)) = [y @ a]"
    by (simp add: inner_join_rows_single v sql_eq_VInt a)
  have 2: "inner_join_rows ''dolocationid'' ''do_locationid'' [y @ a] (rows (do_taxi_zone_df t))
      = [y @ a @ b]"
    using k by (simp add: inner_join_rows_single cell_append v sql_eq_VInt b)
  have 3: "inner_join_rows ''payment_type'' ''payment_type_id'' [y @ a @ b] (rows (payment_type_df t))
      = [y @ a @ b @ c]"
    using k by (simp add: inner_join_rows_single cell_append v sql_eq_VInt c)
  have 4: "inner_join_rows ''ratecodeid'' ''ratecode_id'' [y @ a @ b @ c] (rows (rate_code_df t))
      = [y @ a @ b @ c @ d]"
    using k by (simp add: inner_join_rows_single cell_append v sql_eq_VInt d)
  show ?thesis unfolding joined_from_def by (simp only: 1 2 3 4)
qed

lemma joined_from_single_subset:
  "y \<in> set (rows (yellow_df t)) \<Longrightarrow> set (joined_from t [y]) \<subseteq> set (joined_rows t)"
  unfolding joined_rows_def by (subst (2) joined_from_by_row) auto

lemma filter_singleton_mem: "filter P xs = [a] \<Longrightarrow> a \<in> set xs"
proof -
  assume "filter P xs = [a]"
  then have "a \<in> set (filter P xs)" by simp
  then show ?thesis by simp
qed

subsection \<open>Every join strategy computes the inner join\<close>

lemma mset_inner_join_rows:
  "mset (inner_join_rows lc rc ls rs)
     = (\<Sum>l\<in>#mset ls. mset (map (\<lambda>r. l @ r) (filter (\<lambda>r. sql_eq (cell l lc) (cell r rc)) rs)))"
proof -
  have "mset (inner_join_rows lc rc ls rs)
      = sum_list (map (\<lambda>l. mset (map (\<lambda>r. l @ r) (filter (\<lambda>r. sql_eq (cell l lc) (cell r rc)) rs))) ls)"
    by (simp add: inner_join_rows_def mset_concat comp_def)
  also have "\<dots> = sum_mset (mset (map (\<lambda>l. mset (map (\<lambda>r. l @ r) (filter (\<lambda>r. sql_eq (cell l lc) (cell r rc)) rs))) ls))"
    by (simp only: sum_mset_sum_list)
  finally show ?thesis by simp
qed

lemma mset_inner_join_rows_cong:
  "mset ls = mset ls' \<Longrightarrow> mset (inner_join_rows lc rc ls rs) = mset (inner_join_rows lc rc ls' rs)"
  by (simp add: mset_inner_join_rows)

lemma inner_join_rows_Cons:
  "inner_join_rows lc rc (l # ls) rs
     = map (\<lambda>r. l @ r) (filter (\<lambda>r. sql_eq (cell l lc) (cell r rc)) rs) @ inner_join_rows lc rc ls rs"
  by (simp add: inner_join_rows_def)

lemma inner_join_rows_Nil: "inner_join_rows lc rc [] rs = []"
  by (simp add: inner_join_rows_def)

lemma mset_concat_append:
  "mset (concat (map (\<lambda>i. A i @ B i) is)) = mset (concat (map A is)) + mset (concat (map B is))"
  by (induction "is") simp_all

lemma concat_if_none:
  "N \<le> k \<Longrightarrow> concat (map (\<lambda>i. if k = i then a else []) [0..<N]) = []"
  by (induction N) simp_all

lemma concat_if_one:
  "k < N \<Longrightarrow> concat (map (\<lambda>i. if k = i then a else []) [0..<N]) = a"
proof (induction N)
  case 0
  then show ?case by simp
next
  case (Suc N)
  show ?case
  proof (cases "k = N")
    case True
    then show ?thesis by (simp add: concat_if_none)
  next
    case False
    with Suc have "k < N" by simp
    with Suc.IH False show ?thesis by simp
  qed
qed

lemma mset_bucketed_join:
  assumes "\<And>l. f l < N"
  shows "mset (concat (map (\<lambda>i. inner_join_rows lc rc (filter (\<lambda>l. f l = i) ls) rs) [0..<N]))
           = mset (inner_join_rows lc rc ls rs)"
proof (induction ls)
  case Nil
  then show ?case by (simp add: inner_join_rows_Nil)
next
  case (Cons l ls)
  let ?g = "map (\<lambda>r. l @ r) (filter (\<lambda>r. sql_eq (cell l lc) (cell r rc)) rs)"
  have "(\<lambda>i. inner_join_rows lc rc (filter (\<lambda>l. f l = i) (l # ls)) rs)
      = (\<lambda>i. (if f l = i then ?g else []) @ inner_join_rows lc rc (filter (\<lambda>l. f l = i) ls) rs)"
    by (rule ext) (simp add: inner_join_rows_Cons)
  then have "mset (concat (map (\<lambda>i. inner_join_rows lc rc (filter (\<lambda>l. f l = i) (l # ls)) rs) [0..<N]))
      = mset (concat (map (\<lambda>i. if f l = i then ?g else []) [0..<N]))
        + mset (concat (map (\<lambda>i. inner_join_rows lc rc (filter (\<lambda>l. f l = i) ls) rs) [0..<N]))"
    by (simp only: mset_concat_append)
  also have "concat (map (\<lambda>i. if f l = i then ?g else []) [0..<N]) = ?g"
    by (rule concat_if_one [OF assms])
  finally show ?case by (simp add: Cons.IH inner_join_rows_Cons)
qed

lemma inner_join_rows_bucket:
  "inner_join_rows lc rc (filter (\<lambda>l. B (cell l lc) = i) ls) (filter (\<lambda>r. B (cell r rc) = i) rs)
     = inner_join_rows lc rc (filter (\<lambda>l. B (cell l lc) = i) ls) rs"
proof -
  have "filter (\<lambda>r. sql_eq (cell l lc) (cell r rc)) (filter (\<lambda>r. B (cell r rc) = i) rs)
      = filter (\<lambda>r. sql_eq (cell l lc) (cell r rc)) rs" if "B (cell l lc) = i" for l
    using that by (auto simp: sql_eq_def intro!: filter_cong)
  then show ?thesis
    unfolding inner_join_rows_def
    by (intro arg_cong [where f = concat] map_cong) simp_all
qed

lemma mset_shuffled_hash_join:
  "mset (shuffled_hash_join h n lc rc ls rs) = mset (inner_join_rows lc rc ls rs)"
proof -
  let ?B = "\<lambda>v. h v mod max 1 n"
  have "shuffled_hash_join h n lc rc ls rs
      = concat (map (\<lambda>i. inner_join_rows lc rc (filter (\<lambda>l. ?B (cell l lc) = i) ls) rs) [0..<max 1 n])"
    unfolding shuffled_hash_join_def shuffle_def hash_join_eq
    by (simp only: inner_join_rows_bucket [where B = "\<lambda>v. h v mod max 1 n"])
  also have "mset \<dots> = mset (inner_join_rows lc rc ls rs)"
    by (rule mset_bucketed_join) simp
  finally show ?thesis .
qed


lemma sort_rank_inj: "sort_rank a = sort_rank b \<longleftrightarrow> a = b"
proof (cases a; cases b)
  fix s s' assume "a = VStr s" "b = VStr s'"
  moreover have "map of_char s = (map of_char s' :: int list) \<longleftrightarrow> s = s'"
    by (metis inj_map_eq_map inj_of_char)
  ultimately show ?thesis by simp
next
  fix t t' assume "a = VTs t" "b = VTs t'"
  then show ?thesis by (cases t; cases t') auto
qed simp_all

lemma takeWhile_filter_sorted:
  assumes "sorted (map kr rs)" and "\<forall>r\<in>set rs. k \<le> kr r"
  shows "takeWhile (\<lambda>r. kr r = k) rs = filter (\<lambda>r. kr r = k) rs"
  using assms
proof (induction rs)
  case Nil
  then show ?case by simp
next
  case (Cons r rs)
  show ?case
  proof (cases "kr r = k")
    case True
    with Cons show ?thesis by simp
  next
    case False
    with Cons.prems have "k < kr r" by auto
    with Cons.prems(1) have "\<forall>x\<in>set rs. kr x \<noteq> k" by auto
    then have "filter (\<lambda>r. kr r = k) rs = []" by (simp add: filter_empty_conv)
    with False show ?thesis by simp
  qed
qed

lemma merge_step_filter:
  assumes "sorted (map kr rs)"
  shows "takeWhile (\<lambda>r. kr r = k) (dropWhile (\<lambda>r. kr r < k) rs) = filter (\<lambda>r. kr r = k) rs"
  using assms
proof (induction rs)
  case Nil
  then show ?case by simp
next
  case (Cons r rs)
  show ?case
  proof (cases "kr r < k")
    case True
    with Cons show ?thesis by simp
  next
    case False
    with Cons.prems have "\<forall>x\<in>set (r # rs). k \<le> kr x" by auto
    from takeWhile_filter_sorted [OF Cons.prems this] False show ?thesis by simp
  qed
qed

lemma filter_dropWhile_below:
  "k \<le> k' \<Longrightarrow>
     filter (\<lambda>r. kr r = k') (dropWhile (\<lambda>r. kr r < k) rs) = filter (\<lambda>r. kr r = (k' :: 'k :: linorder)) rs"
  by (induction rs) auto

lemma sorted_map_dropWhile:
  "sorted (map kr rs) \<Longrightarrow> sorted (map kr (dropWhile P rs))"
  by (induction rs) auto

lemma merge_join_sorted:
  assumes "sorted (map kl ls)" and "sorted (map kr rs)"
  shows "merge_join kl kr ls rs
           = concat (map (\<lambda>l. map (\<lambda>r. l @ r) (filter (\<lambda>r. kr r = kl l) rs)) ls)"
  using assms
proof (induction ls arbitrary: rs)
  case Nil
  then show ?case by simp
next
  case (Cons l ls)
  let ?rs' = "dropWhile (\<lambda>r. kr r < kl l) rs"
  from Cons.prems have sl: "sorted (map kl ls)" and le: "\<forall>x\<in>set ls. kl l \<le> kl x" by auto
  have sr: "sorted (map kr ?rs')" by (rule sorted_map_dropWhile [OF Cons.prems(2)])
  have "merge_join kl kr ls ?rs'
      = concat (map (\<lambda>l. map (\<lambda>r. l @ r) (filter (\<lambda>r. kr r = kl l) ?rs')) ls)"
    by (rule Cons.IH [OF sl sr])
  also have "\<dots> = concat (map (\<lambda>l. map (\<lambda>r. l @ r) (filter (\<lambda>r. kr r = kl l) rs)) ls)"
    using le by (intro arg_cong [where f = concat] map_cong) (simp_all add: filter_dropWhile_below)
  finally show ?case
    by (simp add: Let_def merge_step_filter [OF Cons.prems(2)])
qed

lemma inner_join_rows_drop_null:
  "inner_join_rows lc rc (filter (\<lambda>l. cell l lc \<noteq> VNull) ls) rs = inner_join_rows lc rc ls rs"
  by (induction ls) (simp_all add: inner_join_rows_Nil inner_join_rows_Cons sql_eq_def)

lemma mset_sort_merge_join:
  "mset (sort_merge_join lc rc ls rs) = mset (inner_join_rows lc rc ls rs)"
proof -
  let ?kl = "\<lambda>l. sort_rank (cell l lc)" and ?kr = "\<lambda>r. sort_rank (cell r rc)"
  let ?ls = "sort_key ?kl (filter (\<lambda>l. cell l lc \<noteq> VNull) ls)"
  let ?rs = "sort_key ?kr (filter (\<lambda>r. cell r rc \<noteq> VNull) rs)"
  have "sort_merge_join lc rc ls rs = merge_join ?kl ?kr ?ls ?rs"
    by (simp add: sort_merge_join_def Let_def)
  also have "\<dots> = concat (map (\<lambda>l. map (\<lambda>r. l @ r) (filter (\<lambda>r. ?kr r = ?kl l) ?rs)) ?ls)"
    by (rule merge_join_sorted) simp_all
  finally have "mset (sort_merge_join lc rc ls rs)
      = (\<Sum>l\<leftarrow>?ls. mset (map (\<lambda>r. l @ r) (filter (\<lambda>r. ?kr r = ?kl l) ?rs)))"
    by (simp add: mset_concat comp_def)
  also have "\<dots> = (\<Sum>l\<leftarrow>?ls. mset (map (\<lambda>r. l @ r) (filter (\<lambda>r. sql_eq (cell l lc) (cell r rc)) rs)))"
  proof (intro arg_cong [where f = sum_list] map_cong refl)
    fix l assume "l \<in> set ?ls"
    then have n: "cell l lc \<noteq> VNull" by simp
    have "filter_mset (\<lambda>r. ?kr r = ?kl l) (mset ?rs)
        = filter_mset (\<lambda>r. cell r rc \<noteq> VNull \<and> ?kr r = ?kl l) (mset rs)"
      by (simp add: filter_filter_mset conj_commute)
    also have "\<dots> = filter_mset (\<lambda>r. sql_eq (cell l lc) (cell r rc)) (mset rs)"
      using n by (intro filter_mset_cong refl) (auto simp: sort_rank_inj sql_eq_def)
    finally show "mset (map (\<lambda>r. l @ r) (filter (\<lambda>r. ?kr r = ?kl l) ?rs))
        = mset (map (\<lambda>r. l @ r) (filter (\<lambda>r. sql_eq (cell l lc) (cell r rc)) rs))"
      by simp
  qed
  also have "\<dots> = mset (inner_join_rows lc rc ?ls rs)"
    by (simp add: inner_join_rows_def mset_concat comp_def)
  also have "\<dots> = mset (inner_join_rows lc rc (filter (\<lambda>l. cell l lc \<noteq> VNull) ls) rs)"
    by (rule mset_inner_join_rows_cong) simp
  finally show ?thesis by (simp add: inner_join_rows_drop_null)
qed

lemma mset_exec_join:
  "mset (exec_join s lc rc ls rs) = mset (inner_join_rows lc rc ls rs)"
  by (cases s)
     (simp_all add: hash_join_eq nested_loop_join_eq mset_shuffled_hash_join mset_sort_merge_join)


lemma and_then_same_result:
  assumes "same_result m m'"
    and "\<And>x x'. same_rows x x' \<Longrightarrow> same_result (f x) (f' x')"
  shows "same_result (and_then m f) (and_then m' f')"
  using assms by (cases m; cases m') (simp_all add: and_then_def)

lemma join_same_result:
  assumes "same_rows l l'"
  shows "same_result (join l (broadcast r) lref rref) (join_under s l' r lref rref)"
  using assms mset_inner_join_rows_cong [of "rows l" "rows l'" "snd lref" "snd rref" "rows r"]
  by (simp add: join_broadcast join_under_def same_rows_def mset_exec_join hash_join_eq)

lemma withColumn_same_result:
  assumes "same_rows d d'"
  shows "same_result (withColumn c e d) (withColumn c e d')"
proof -
  from assms have "unresolved d (expr_refs e) = unresolved d' (expr_refs e)"
    by (simp add: same_rows_def unresolved_def resolves_def)
  with assms show ?thesis
    by (simp add: withColumn_def same_rows_def split: list.splits)
qed

lemma orderBy_same_result:
  assumes "same_rows d d'"
  shows "same_result (orderBy cs d) (orderBy cs d')"
proof -
  from assms have "unresolved d cs = unresolved d' cs"
    by (simp add: same_rows_def unresolved_def resolves_def)
  with assms show ?thesis
    by (simp add: orderBy_def same_rows_def split: list.splits)
qed

lemma drop_columns_same_result:
  assumes "same_rows d d'"
  shows "same_result (Inr (drop_columns cs d)) (Inr (drop_columns cs d'))"
  using assms by (simp add: same_rows_def drop_columns_def)

subsection \<open>The chain over a parser\<close>

lemma to_timestamp_by_Inr:
  "to_timestamp_by p v fmt = Inr w \<longleftrightarrow> \<not> raises p v fmt \<and> w = read_timestamp p v fmt"
  by (cases v; cases "p fmt (case v of VStr s \<Rightarrow> s | _ \<Rightarrow> [])") auto

lemma each_row_Inr:
  assumes "\<And>x y. f x = Inr y \<longleftrightarrow> \<not> bad x \<and> y = g x"
  shows "each_row f xs = Inr ys \<longleftrightarrow> (\<forall>x\<in>set xs. \<not> bad x) \<and> ys = map g xs"
  by (induction xs arbitrary: ys) (auto simp: and_then_Inr assms)

lemma each_row_total:
  assumes "\<And>x. f x = Inr (g x)"
  shows "each_row f xs = Inr (map g xs)"
  by (induction xs) (simp_all add: and_then_def assms)

lemma withColumn_by_timestamp_Inr:
  "withColumn_by p c (ToTimestamp (Col k) fmt) df = Inr d \<longleftrightarrow>
     unresolved df [k] = []
     \<and> (\<forall>r\<in>set (rows df). \<not> raises p (cell r k) fmt)
     \<and> d = df\<lparr>columns := add_column c (columns df),
              rows := map (\<lambda>r. put_cell c (read_timestamp p (cell r k) fmt) r) (rows df)\<rparr>"
proof -
  have "each_row (\<lambda>r. and_then (eval_expr_by p (ToTimestamp (Col k) fmt) r) (\<lambda>v. Inr (put_cell c v r)))
          (rows df) = Inr rs
        \<longleftrightarrow> (\<forall>r\<in>set (rows df). \<not> raises p (cell r k) fmt)
          \<and> rs = map (\<lambda>r. put_cell c (read_timestamp p (cell r k) fmt) r) (rows df)" for rs
    by (rule each_row_Inr) (auto simp: and_then_Inr to_timestamp_by_Inr)
  then show ?thesis
    by (auto simp: withColumn_by_def add_column_def and_then_Inr split: list.splits)
qed

lemma withColumn_by_calendar:
  "withColumn_by p c (Year (Col k)) df = withColumn c (Year (Col k)) df"
  "withColumn_by p c (Month (Col k)) df = withColumn c (Month (Col k)) df"
  "withColumn_by p c (DayOfMonth (Col k)) df = withColumn c (DayOfMonth (Col k)) df"
  by (simp_all add: withColumn_by_def withColumn_def and_then_def
      each_row_total [where g = "\<lambda>r. put_cell c (year (cell r k)) r"]
      each_row_total [where g = "\<lambda>r. put_cell c (month (cell r k)) r"]
      each_row_total [where g = "\<lambda>r. put_cell c (dayofmonth (cell r k)) r"]
      split: list.splits)

lemma count_list_add_column_same:
  "count_list (add_column c cs) c = Suc 0 \<longleftrightarrow> count_list cs c \<le> Suc 0"
  by (cases "c \<in> set cs") (auto simp: add_column_def count_list_0_iff le_Suc_eq)

lemma joins_Inr:
  "and_then (join (yellow_df t) (broadcast (pu_taxi_zone_df t))
                 (yellow_df t, ''pulocationid'') (pu_taxi_zone_df t, ''pu_locationid'')) (\<lambda>j1.
     and_then (join j1 (broadcast (do_taxi_zone_df t))
                 (yellow_df t, ''dolocationid'') (do_taxi_zone_df t, ''do_locationid'')) (\<lambda>j2.
     and_then (join j2 (broadcast (payment_type_df t))
                 (yellow_df t, ''payment_type'') (payment_type_df t, ''payment_type_id'')) (\<lambda>j3.
     and_then (join j3 (broadcast (rate_code_df t))
                 (yellow_df t, ''ratecodeid'') (rate_code_df t, ''ratecode_id'')) k))) = Inr out
   \<longleftrightarrow>
     (resolves (yellow_df t) ''pulocationid'' \<and> resolves (pu_taxi_zone_df t) ''pu_locationid''
      \<and> resolves (yellow_df t) ''dolocationid'' \<and> resolves (do_taxi_zone_df t) ''do_locationid''
      \<and> resolves (yellow_df t) ''payment_type'' \<and> resolves (payment_type_df t) ''payment_type_id''
      \<and> resolves (yellow_df t) ''ratecodeid'' \<and> resolves (rate_code_df t) ''ratecode_id'')
      \<and> k (frame (joined_columns t) (joined_rows t)) = Inr out"
  unfolding and_then_Inr join_broadcast join_under_Inr
  by (auto simp: frame_def joined_columns_def joined_rows_def joined_from_def hash_join_eq)

lemma cell_put_cell: "cell (put_cell c v r) k = (if k = c then v else cell r k)"
  by (simp add: cell_def map_of_put_cell)

lemma timestamp_stage:
  "and_then (withColumn_by p c (ToTimestamp (Col k) fmt) (frame cs rs)) g = Inr out \<longleftrightarrow>
     count_list cs k = 1 \<and> (\<forall>r\<in>set rs. \<not> raises p (cell r k) fmt)
     \<and> g (frame (add_column c cs) (map (with_timestamp p c k fmt) rs)) = Inr out"
  unfolding and_then_Inr withColumn_by_timestamp_Inr
  by (auto simp: frame_def unresolved_def resolves_def with_timestamp_def [abs_def])

lemma calendar_stage:
  "and_then (withColumn_by p c (Year (Col k)) (frame cs rs)) g = Inr out \<longleftrightarrow>
     count_list cs k = 1
     \<and> g (frame (add_column c cs) (map (with_col c (Year (Col k))) rs)) = Inr out"
  "and_then (withColumn_by p c (Month (Col k)) (frame cs rs)) g = Inr out \<longleftrightarrow>
     count_list cs k = 1
     \<and> g (frame (add_column c cs) (map (with_col c (Month (Col k))) rs)) = Inr out"
  "and_then (withColumn_by p c (DayOfMonth (Col k)) (frame cs rs)) g = Inr out \<longleftrightarrow>
     count_list cs k = 1
     \<and> g (frame (add_column c cs) (map (with_col c (DayOfMonth (Col k))) rs)) = Inr out"
  unfolding and_then_Inr withColumn_by_calendar withColumn_Inr
  by (auto simp: frame_def unresolved_def resolves_def)

lemma orderBy_stage:
  "and_then (orderBy ks (frame cs rs)) g = Inr out \<longleftrightarrow>
     (\<forall>k\<in>set ks. count_list cs k = 1)
     \<and> g (frame cs (sort_key (\<lambda>r. map (\<lambda>c. sort_rank (cell r c)) ks) rs)) = Inr out"
  unfolding and_then_Inr orderBy_Inr
  by (auto simp: frame_def unresolved_def resolves_def filter_empty_conv)

lemma drop_columns_frame:
  "drop_columns ks (frame cs rs) = frame (filter (\<lambda>c. c \<notin> set ks) cs) (map (drop_row ks) rs)"
  by (simp add: drop_columns_def frame_def)

lemma yellow_opt_df_by_stages:
  "yellow_opt_df_by p t = Inr out \<longleftrightarrow>
     (resolves (yellow_df t) ''pulocationid'' \<and> resolves (pu_taxi_zone_df t) ''pu_locationid''
      \<and> resolves (yellow_df t) ''dolocationid'' \<and> resolves (do_taxi_zone_df t) ''do_locationid''
      \<and> resolves (yellow_df t) ''payment_type'' \<and> resolves (payment_type_df t) ''payment_type_id''
      \<and> resolves (yellow_df t) ''ratecodeid'' \<and> resolves (rate_code_df t) ''ratecode_id'')
     \<and> count_list (joined_columns t) ''tpep_pickup_datetime'' = 1
     \<and> (\<forall>r\<in>set (joined_rows t). \<not> raises p (cell r ''tpep_pickup_datetime'') ''yyyy-MM-dd HH:mm:ss'')
     \<and> count_list (add_column ''pu_datetime'' (joined_columns t)) ''tpep_dropoff_datetime'' = 1
     \<and> (\<forall>r\<in>set (map (with_timestamp p ''pu_datetime'' ''tpep_pickup_datetime'' ''yyyy-MM-dd HH:mm:ss'') (joined_rows t)).
            \<not> raises p (cell r ''tpep_dropoff_datetime'') ''yyyy-MM-dd HH:mm:ss'')
     \<and> count_list (add_column ''do_datetime'' (add_column ''pu_datetime'' (joined_columns t))) ''pu_datetime'' = 1
     \<and> count_list (add_column ''pu_year'' (add_column ''do_datetime'' (add_column ''pu_datetime'' (joined_columns t)))) ''pu_datetime'' = 1
     \<and> count_list (add_column ''pu_month'' (add_column ''pu_year'' (add_column ''do_datetime'' (add_column ''pu_datetime'' (joined_columns t))))) ''pu_datetime'' = 1
     \<and> (\<forall>k\<in>set [''pu_year'', ''pu_month'', ''pu_day'']. count_list (derived_columns (joined_columns t)) k = 1)
     \<and> Inr (frame (output_columns t) (enriched_rows_by p t)) = (Inr out :: error + dataframe)"
  unfolding yellow_opt_df_by_def joins_Inr timestamp_stage calendar_stage orderBy_stage drop_columns_frame
  unfolding output_columns_def enriched_rows_by_def derived_columns_def dropped_columns_def
    derive_row_by_def [abs_def] order_key_def [abs_def] map_map comp_def
  by (rule refl)

lemma cell_with_timestamp:
  "cell (with_timestamp p c k fmt r) n = (if n = c then read_timestamp p (cell r k) fmt else cell r n)"
  by (simp add: with_timestamp_def cell_put_cell)

lemma derived_counts:
  "count_list (derived_columns cs) ''pu_year'' = Suc 0 \<longleftrightarrow> count_list cs ''pu_year'' \<le> Suc 0"
  "count_list (derived_columns cs) ''pu_month'' = Suc 0 \<longleftrightarrow> count_list cs ''pu_month'' \<le> Suc 0"
  "count_list (derived_columns cs) ''pu_day'' = Suc 0 \<longleftrightarrow> count_list cs ''pu_day'' \<le> Suc 0"
  by (simp_all add: derived_columns_def count_list_add_column count_list_add_column_same
      del: count_list.simps)

lemma yellow_opt_df_by_Inr:
  "yellow_opt_df_by p t = Inr out \<longleftrightarrow>
     chain_resolves t \<and> (\<forall>j\<in>set (joined_rows t). \<not> row_raises p j)
     \<and> out = frame (output_columns t) (enriched_rows_by p t)"
  unfolding yellow_opt_df_by_stages chain_resolves_def row_raises_def
  by (simp add: count_list_add_column count_list_add_column_same derived_counts
        cell_with_timestamp del: count_list.simps) blast

lemma chain_output_partition_columns:
  "''pu_year'' \<in> set (output_columns t) \<and> ''pu_month'' \<in> set (output_columns t)"
  by (simp add: output_columns_def set_derived_columns dropped_columns_def)

lemma and_then_Inr_left: "and_then (Inr x) f = f x"
  by (simp add: and_then_def)

lemma etl_job_by_Inr:
  assumes "load_tables cat = Inr t"
  shows "etl_job_by p cat fs = Inr fs' \<longleftrightarrow>
     analysis_ok t \<and> (\<forall>j\<in>set (joined_rows t). \<not> row_raises p j)
     \<and> fs' = fs(destination \<mapsto>
           partitioned_layout [''pu_year'', ''pu_month''] (enriched_rows_by p t))"
proof
  assume "etl_job_by p cat fs = Inr fs'"
  then obtain out where out: "yellow_opt_df_by p t = Inr out"
    and s: "save destination (yellow_opt_writer out) fs = Inr fs'"
    by (auto simp: etl_job_by_def assms and_then_Inr_left and_then_Inr)
  from out have o: "chain_resolves t" "\<forall>j\<in>set (joined_rows t). \<not> row_raises p j"
    "out = frame (output_columns t) (enriched_rows_by p t)"
    by (simp_all add: yellow_opt_df_by_Inr)
  from save_yellow_opt_writer_Inr [OF s] o
  show "analysis_ok t \<and> (\<forall>j\<in>set (joined_rows t). \<not> row_raises p j)
     \<and> fs' = fs(destination \<mapsto>
           partitioned_layout [''pu_year'', ''pu_month''] (enriched_rows_by p t))"
    by (simp add: analysis_ok_def frame_def)
next
  assume a: "analysis_ok t \<and> (\<forall>j\<in>set (joined_rows t). \<not> row_raises p j)
     \<and> fs' = fs(destination \<mapsto>
           partitioned_layout [''pu_year'', ''pu_month''] (enriched_rows_by p t))"
  let ?out = "frame (output_columns t) (enriched_rows_by p t)"
  from a have out: "yellow_opt_df_by p t = Inr ?out"
    by (simp add: yellow_opt_df_by_Inr analysis_ok_def)
  from a have d: "distinct (columns ?out)" by (simp add: analysis_ok_def frame_def)
  have "save destination (yellow_opt_writer ?out) fs
      = Inr (fs(destination \<mapsto> partitioned_layout [''pu_year'', ''pu_month''] (rows ?out)))"
    by (rule save_yellow_opt_writer [OF d]) (simp_all add: frame_def chain_output_partition_columns)
  with a out show "etl_job_by p cat fs = Inr fs'"
    by (simp add: etl_job_by_def assms and_then_Inr_left frame_def)
qed

lemma raw_timestamps_resolve:
  assumes "chain_resolves t"
  shows "''tpep_pickup_datetime'' \<in> set (columns (yellow_df t))
    \<and> ''tpep_dropoff_datetime'' \<in> set (columns (yellow_df t))"
proof -
  from assms
  have "count_list (joined_columns t) ''tpep_pickup_datetime'' \<noteq> 0"
    and "count_list (joined_columns t) ''tpep_dropoff_datetime'' \<noteq> 0"
    by (simp_all add: chain_resolves_def)
  then have "''tpep_pickup_datetime'' \<in> set (joined_columns t)"
    and "''tpep_dropoff_datetime'' \<in> set (joined_columns t)"
    by (simp_all only: count_list_0_iff not_not)
  then show ?thesis
    by (simp add: joined_columns_def columns_lookups split: if_splits)
qed

lemma raw_timestamps_of_joined_row:
  assumes "chain_resolves t" and "j \<in> set (joined_rows t)"
  shows "\<exists>y\<in>set (rows (yellow_df t)).
          cell j ''tpep_pickup_datetime'' = cell y ''tpep_pickup_datetime''
          \<and> cell j ''tpep_dropoff_datetime'' = cell y ''tpep_dropoff_datetime''"
proof -
  from assms(2) obtain y x where y: "y \<in> set (rows (yellow_df t))" and j: "j = y @ x"
    using joined_rows_prefix by blast
  from raw_timestamps_resolve [OF assms(1)] yellow_row_keys [OF y]
  have "''tpep_pickup_datetime'' \<in> fst ` set y" "''tpep_dropoff_datetime'' \<in> fst ` set y"
    by simp_all
  then have "cell j ''tpep_pickup_datetime'' = cell y ''tpep_pickup_datetime''
          \<and> cell j ''tpep_dropoff_datetime'' = cell y ''tpep_dropoff_datetime''"
    by (simp add: j cell_append)
  with y show ?thesis by blast
qed

lemma cell_enrich_row_by:
  "cell (enrich_row_by p j) ''pu_datetime''
     = read_timestamp p (cell j ''tpep_pickup_datetime'') ''yyyy-MM-dd HH:mm:ss''"
  "cell (enrich_row_by p j) ''do_datetime''
     = read_timestamp p (cell j ''tpep_dropoff_datetime'') ''yyyy-MM-dd HH:mm:ss''"
  "cell (enrich_row_by p j) ''pu_year'' = year (cell (enrich_row_by p j) ''pu_datetime'')"
  "cell (enrich_row_by p j) ''pu_month'' = month (cell (enrich_row_by p j) ''pu_datetime'')"
  "cell (enrich_row_by p j) ''pu_day'' = dayofmonth (cell (enrich_row_by p j) ''pu_datetime'')"
  by (simp_all add: enrich_row_by_def derive_row_by_def cell_drop_row cell_with_col
      cell_with_timestamp dropped_columns_def)

lemma set_enriched_rows_by:
  "set (enriched_rows_by p t) = enrich_row_by p ` set (joined_rows t)"
  by (simp add: enriched_rows_by_def enrich_row_by_def [abs_def] image_image)

lemma eval_expr_by_fixed_width:
  "eval_expr_by fixed_width_parser e r = Inr (eval_expr e r)"
proof (induction e)
  case (ToTimestamp e fmt)
  then show ?case
    by (cases "eval_expr e r")
       (simp_all add: and_then_Inr_left fixed_width_parser_def split: option.splits)
qed (simp_all add: and_then_Inr_left)

lemma withColumn_by_fixed_width:
  "withColumn_by fixed_width_parser c e df = withColumn c e df"
  by (simp add: withColumn_by_def withColumn_def and_then_Inr_left eval_expr_by_fixed_width
      each_row_total [where g = "\<lambda>r. put_cell c (eval_expr e r) r"] split: list.splits)

lemma yellow_opt_df_by_fixed_width: "yellow_opt_df_by fixed_width_parser t = yellow_opt_df t"
  by (simp only: yellow_opt_df_by_def yellow_opt_df_def withColumn_by_fixed_width)

lemma etl_job_by_fixed_width: "etl_job_by fixed_width_parser cat fs = etl_job cat fs"
  by (simp only: etl_job_by_def etl_job_def yellow_opt_df_by_fixed_width)

lemma partition_of_unparsable:
  assumes "cell j ''tpep_pickup_datetime'' = VStr s"
    and "p ''yyyy-MM-dd HH:mm:ss'' s = Unparsable"
  shows "partition_of [''pu_year'', ''pu_month''] (enrich_row_by p j)
    = [(''pu_year'', VNull), (''pu_month'', VNull)]"
  using assms by (simp add: partition_of_def cell_enrich_row_by)

lemma odd_time_load: "load_tables odd_time_catalog = Inr odd_time_tables"
  by (simp add: load_tables_def from_catalog_def odd_time_catalog_def sample_catalog_def
      and_then_def odd_time_tables_def sample_tables_def)

lemma short_time_load:
  "load_tables short_time_catalog = Inr (sample_tables\<lparr>yellow_dyf := short_time_yellow\<rparr>)"
  by (simp add: load_tables_def from_catalog_def short_time_catalog_def sample_catalog_def
      and_then_def sample_tables_def)

lemma odd_time_analysis: "analysis_ok odd_time_tables"
  by code_simp

lemma odd_time_no_raise: "filter (row_raises fixed_width_parser) (joined_rows odd_time_tables) = []"
  by code_simp

lemma odd_time_layout:
  "partitioned_layout [''pu_year'', ''pu_month''] (enriched_rows_by fixed_width_parser odd_time_tables)
     = odd_time_directory"
  by code_simp

lemma null_path_example:
  "partition_path [(''pu_year'', VNull), (''pu_month'', VNull)]
     = ''pu_year=__HIVE_DEFAULT_PARTITION__/pu_month=__HIVE_DEFAULT_PARTITION__''"
  by code_simp

lemma short_time_frame:
  "yellow_opt_df_by refusing_parser (sample_tables\<lparr>yellow_dyf := short_time_yellow\<rparr>)
     = Inl (SparkException ''2019-1-5 8:30:00'')"
  by code_simp

lemma row_raises_fixed_width: "\<not> row_raises fixed_width_parser j"
proof -
  have "\<not> raises fixed_width_parser v fmt" for v fmt
    by (cases v) (simp_all add: fixed_width_parser_def split: option.splits)
  then show ?thesis by (simp add: row_raises_def)
qed

lemma same_parse_same_frame:
  assumes "\<forall>j\<in>set (joined_rows t). \<forall>s.
      cell j ''tpep_pickup_datetime'' = VStr s \<or> cell j ''tpep_dropoff_datetime'' = VStr s \<longrightarrow>
      p ''yyyy-MM-dd HH:mm:ss'' s = fixed_width_parser ''yyyy-MM-dd HH:mm:ss'' s"
  shows "yellow_opt_df_by p t = Inr out \<longleftrightarrow> yellow_opt_df t = Inr out"
proof -
  have r: "read_timestamp p v ''yyyy-MM-dd HH:mm:ss'' = read_timestamp fixed_width_parser v ''yyyy-MM-dd HH:mm:ss''
      \<and> \<not> raises p v ''yyyy-MM-dd HH:mm:ss''"
    if "\<forall>s. v = VStr s \<longrightarrow> p ''yyyy-MM-dd HH:mm:ss'' s = fixed_width_parser ''yyyy-MM-dd HH:mm:ss'' s"
    for v
    using that by (cases v) (simp_all add: fixed_width_parser_def split: option.splits)
  have d: "derive_row_by p j = derive_row_by fixed_width_parser j \<and> \<not> row_raises p j"
    if "j \<in> set (joined_rows t)" for j
    using assms that
      r [of "cell j ''tpep_pickup_datetime''"] r [of "cell j ''tpep_dropoff_datetime''"]
    by (auto simp: derive_row_by_def with_timestamp_def cell_put_cell row_raises_def)
  then have "enriched_rows_by p t = enriched_rows_by fixed_width_parser t"
    by (simp add: enriched_rows_by_def cong: map_cong)
  with d show ?thesis
    unfolding yellow_opt_df_by_fixed_width [symmetric] yellow_opt_df_by_Inr
    by (auto simp: row_raises_fixed_width)
qed

section \<open>The block size and the rate-code look-up\<close>

text \<open>
  C9. The row-group size given to the Parquet writer is \<open>1024 * 1024 * 32\<close> bytes, that is
  32MB exactly, which lies between 16MB and 64MB; it is the value the job's writer carries
  under the option \<^verbatim>\<open>parquet.block.size\<close>.
\<close>

theorem block_size_32MB:
  "blockSize = 1024 * 1024 * 32
   \<and> blockSize = 33554432
   \<and> 16 * (1024 * 1024) \<le> blockSize \<and> blockSize \<le> 64 * (1024 * 1024)
   \<and> map_of (w_options (yellow_opt_writer df)) ''parquet.block.size'' = Some blockSize"
  by (simp add: blockSize_def yellow_opt_writer_def option_def partitionBy_def format_def
      mode_def df_write_def)

text \<open>
  C2. The claim wants the rate-code look-up mapped from the rate-code table. On the sample
  tables the frame \<^verbatim>\<open>rate_code_df\<close> holds the names of the payment-type table, not those of
  the rate-code table that was loaded beside it.
\<close>

theorem rate_code_df_holds_payment_types:
  "rows (rate_code_df sample_tables) =
     [[(''ratecode_id'', VInt 1), (''ratecode_name'', VStr ''Credit card'')],
      [(''ratecode_id'', VInt 2), (''ratecode_name'', VStr ''Cash'')]]
   \<and> rows (rate_code_dyf sample_tables) =
     [[(''id'', VInt 1), (''name'', VStr ''Standard rate'')],
      [(''id'', VInt 2), (''name'', VStr ''JFK'')]]"
  by (simp add: rate_code_df_def sample_tables_def sample_payment_type_def sample_rate_code_def
      toDF_def apply_mapping_def map_record_def cell_def)

section \<open>The output schema\<close>

text \<open>
  C1, as the code has it. The output schema is the columns of the fact table and of the four
  look-up frames with the five derived columns, less the seven columns the chain drops:
  \<^verbatim>\<open>store_and_fwd_flag\<close>, \<^verbatim>\<open>pulocationid\<close>, \<^verbatim>\<open>dolocationid\<close>, \<^verbatim>\<open>payment_type_id\<close>,
  \<^verbatim>\<open>ratecodeid\<close> and the two raw timestamp strings. Of each join key pair one column is
  dropped and the other kept: \<^verbatim>\<open>pu_locationid\<close>, \<^verbatim>\<open>do_locationid\<close>, \<^verbatim>\<open>payment_type\<close> and
  \<^verbatim>\<open>ratecode_id\<close> are in the output, with the five derived columns.
\<close>

theorem output_schema:
  assumes "yellow_opt_df t = Inr out"
  shows "columns out = filter (\<lambda>c. c \<notin> set dropped_columns) (derived_columns (joined_columns t))
    \<and> set (columns out) \<inter> set dropped_columns = {}
    \<and> {''pu_locationid'', ''do_locationid'', ''payment_type'', ''ratecode_id'',
        ''pu_datetime'', ''do_datetime'', ''pu_year'', ''pu_month'', ''pu_day''} \<subseteq> set (columns out)"
proof -
  note r = yellow_opt_df_resolves [OF assms]
  have cols: "columns out = filter (\<lambda>c. c \<notin> set dropped_columns) (derived_columns (joined_columns t))"
    by (rule yellow_opt_df_Inr(1) [OF assms])
  have j: "''pu_locationid'' \<in> set (joined_columns t)" "''do_locationid'' \<in> set (joined_columns t)"
    "''payment_type'' \<in> set (joined_columns t)" "''ratecode_id'' \<in> set (joined_columns t)"
    using r by (auto simp: joined_columns_def dest: resolves_mem)
  have "{''pu_locationid'', ''do_locationid'', ''payment_type'', ''ratecode_id'',
        ''pu_datetime'', ''do_datetime'', ''pu_year'', ''pu_month'', ''pu_day''} \<subseteq> set (columns out)"
    using j by (simp add: cols set_derived_columns dropped_columns_def)
  moreover have "set (columns out) \<inter> set dropped_columns = {}"
    by (auto simp: cols)
  ultimately show ?thesis using cols by blast
qed

theorem output_schema_witness:
  "yellow_opt_df sample_tables = Inr sample_output
   \<and> set (columns sample_output) \<inter> set dropped_columns = {}
   \<and> {''pu_locationid'', ''do_locationid'', ''payment_type'', ''ratecode_id'',
       ''pu_datetime'', ''do_datetime'', ''pu_year'', ''pu_month'', ''pu_day''}
        \<subseteq> set (columns sample_output)"
  using output_schema [OF sample_run] sample_run by blast

text \<open>
  C1 as stated fails: on the sample tables the joined look-up ids \<^verbatim>\<open>pu_locationid\<close>,
  \<^verbatim>\<open>do_locationid\<close> and \<^verbatim>\<open>ratecode_id\<close> and the original identifier \<^verbatim>\<open>payment_type\<close> are
  columns of the output.
\<close>

theorem join_keys_in_output:
  "result_columns (yellow_opt_df sample_tables) =
     [''vendorid'', ''payment_type'', ''passenger_count'', ''pu_locationid'', ''pu_borough'',
      ''pu_zone'', ''pu_service_zone'', ''do_locationid'', ''do_borough'', ''do_zone'',
      ''do_service_zone'', ''payment_type_name'', ''ratecode_id'', ''ratecode_name'',
      ''pu_datetime'', ''do_datetime'', ''pu_year'', ''pu_month'', ''pu_day'']
   \<and> ''pu_locationid'' \<in> set (result_columns (yellow_opt_df sample_tables))
   \<and> ''do_locationid'' \<in> set (result_columns (yellow_opt_df sample_tables))
   \<and> ''ratecode_id'' \<in> set (result_columns (yellow_opt_df sample_tables))
   \<and> ''payment_type'' \<in> set (result_columns (yellow_opt_df sample_tables))"
  by (simp add: sample_run result_columns_def sample_output_def)

section \<open>The joins\<close>

text \<open>
  C3, as the code has it. When no look-up frame has two rows with the same key, every fact
  row that finds a row in each of the four look-up frames (on \<^verbatim>\<open>pulocationid = pu_locationid\<close>,
  \<^verbatim>\<open>dolocationid = do_locationid\<close>, \<^verbatim>\<open>payment_type = payment_type_id\<close>,
  \<^verbatim>\<open>ratecodeid = ratecode_id\<close>) gives exactly one output row, every other fact row gives
  none, the output is made of these rows only, and so it has as many rows as there are fact
  rows with all four matches.
\<close>

theorem matched_rows_appear_once:
  assumes ok: "yellow_opt_df t = Inr out"
    and u1: "unique_keys ''pu_locationid'' (pu_taxi_zone_df t)"
    and u2: "unique_keys ''do_locationid'' (do_taxi_zone_df t)"
    and u3: "unique_keys ''payment_type_id'' (payment_type_df t)"
    and u4: "unique_keys ''ratecode_id'' (rate_code_df t)"
  shows "mset (rows out) =
           mset (concat (map (\<lambda>y. map enrich_row (joined_from t [y])) (rows (yellow_df t))))
    \<and> (\<forall>y\<in>set (rows (yellow_df t)).
          length (map enrich_row (joined_from t [y])) = (if fully_matched t y then 1 else 0))
    \<and> length (rows out) = length (filter (fully_matched t) (rows (yellow_df t)))"
proof -
  have a: "mset (rows out) =
           mset (concat (map (\<lambda>y. map enrich_row (joined_from t [y])) (rows (yellow_df t))))"
  proof -
    have "mset (rows out) = mset (map enrich_row (joined_from t (rows (yellow_df t))))"
      by (simp add: mset_rows_yellow_opt_df [OF ok] joined_rows_def)
    also have "joined_from t (rows (yellow_df t))
        = concat (map (\<lambda>y. joined_from t [y]) (rows (yellow_df t)))"
      by (rule joined_from_by_row)
    also have "map enrich_row (concat (map (\<lambda>y. joined_from t [y]) (rows (yellow_df t))))
        = concat (map (\<lambda>y. map enrich_row (joined_from t [y])) (rows (yellow_df t)))"
      by (simp add: map_concat comp_def)
    finally show ?thesis .
  qed
  have b: "\<forall>y\<in>set (rows (yellow_df t)).
          length (map enrich_row (joined_from t [y])) = (if fully_matched t y then 1 else 0)"
    using length_joined_from_single [OF ok _ u1 u2 u3 u4] by simp
  have "length (rows out) = size (mset (rows out))" by simp
  also have "\<dots> = length (concat (map (\<lambda>y. map enrich_row (joined_from t [y])) (rows (yellow_df t))))"
    unfolding a by simp
  also have "\<dots> = (\<Sum>y\<leftarrow>rows (yellow_df t). if fully_matched t y then 1 else 0)"
    unfolding length_concat map_map comp_def
    using b by (intro arg_cong [where f = sum_list] map_cong) simp_all
  finally have c: "length (rows out) = length (filter (fully_matched t) (rows (yellow_df t)))"
    by (simp add: sum_list_indicator)
  from a b c show ?thesis by blast
qed

theorem matched_rows_appear_once_witness:
  "yellow_opt_df mixed_tables = Inr sample_output
   \<and> unique_keys ''pu_locationid'' (pu_taxi_zone_df mixed_tables)
   \<and> unique_keys ''do_locationid'' (do_taxi_zone_df mixed_tables)
   \<and> unique_keys ''payment_type_id'' (payment_type_df mixed_tables)
   \<and> unique_keys ''ratecode_id'' (rate_code_df mixed_tables)
   \<and> length (rows (yellow_df mixed_tables)) = 2
   \<and> length (rows sample_output) = length (filter (fully_matched mixed_tables) (rows (yellow_df mixed_tables)))
   \<and> length (rows sample_output) = 1"
proof -
  have u1: "unique_keys ''pu_locationid'' (pu_taxi_zone_df mixed_tables)" by code_simp
  have u2: "unique_keys ''do_locationid'' (do_taxi_zone_df mixed_tables)" by code_simp
  have u3: "unique_keys ''payment_type_id'' (payment_type_df mixed_tables)" by code_simp
  have u4: "unique_keys ''ratecode_id'' (rate_code_df mixed_tables)" by code_simp
  have n: "length (rows (yellow_df mixed_tables)) = 2" by code_simp
  have m: "length (rows sample_output) = 1" by (simp add: sample_output_def)
  from matched_rows_appear_once [OF mixed_run u1 u2 u3 u4] mixed_run u1 u2 u3 u4 n m
  show ?thesis by blast
qed

text \<open>
  C3 as stated fails when a look-up has two rows for one key: with the location 1 twice in
  the taxi-zone table, the one fact row, which has all four matches, gives two output rows.
\<close>

theorem twin_zone_doubles_the_trip:
  "length (rows (yellow_df twin_tables)) = 1
   \<and> length (filter (fully_matched twin_tables) (rows (yellow_df twin_tables))) = 1
   \<and> length (result_rows (yellow_opt_df twin_tables)) = 2"
  by code_simp

section \<open>The derived timestamps\<close>

text \<open>
  C4, on an engine with the parser \<open>p\<close>. Once the tables are loaded, the job completes
  exactly when the schemas pass the analysis and the parser raises on no raw time stamp of
  a joined row: a string the parser reports unparsable never aborts it. The job then stores
  the enriched joined rows, whose raw pick-up and drop-off strings are those of their fact
  rows. \<^verbatim>\<open>pu_datetime\<close> and \<^verbatim>\<open>do_datetime\<close> are what the parser makes of these strings under
  \<^verbatim>\<open>yyyy-MM-dd HH:mm:ss\<close>, and \<^verbatim>\<open>pu_year\<close>, \<^verbatim>\<open>pu_month\<close>, \<^verbatim>\<open>pu_day\<close> are taken from
  \<^verbatim>\<open>pu_datetime\<close>. For a pick-up string reported unparsable all four are null and the row
  is stored in the partition whose \<^verbatim>\<open>pu_year\<close> and \<^verbatim>\<open>pu_month\<close> are null; for a drop-off
  string reported unparsable \<^verbatim>\<open>do_datetime\<close> is null.
\<close>

theorem unparsable_timestamp_is_null_where_parser_reports:
  assumes "load_tables cat = Inr t"
  shows "((\<exists>fs'. etl_job_by p cat fs = Inr fs')
            \<longleftrightarrow> analysis_ok t \<and> (\<forall>j\<in>set (joined_rows t). \<not> row_raises p j))
    \<and> (\<forall>fs'. etl_job_by p cat fs = Inr fs' \<longrightarrow>
          fs' = fs(destination \<mapsto>
                  partitioned_layout [''pu_year'', ''pu_month''] (enriched_rows_by p t))
          \<and> set (enriched_rows_by p t) = enrich_row_by p ` set (joined_rows t)
          \<and> (\<forall>j\<in>set (joined_rows t). \<exists>y\<in>set (rows (yellow_df t)).
                cell j ''tpep_pickup_datetime'' = cell y ''tpep_pickup_datetime''
                \<and> cell j ''tpep_dropoff_datetime'' = cell y ''tpep_dropoff_datetime'')
          \<and> (\<forall>j\<in>set (joined_rows t). \<forall>s.
                cell j ''tpep_pickup_datetime'' = VStr s
                \<and> p ''yyyy-MM-dd HH:mm:ss'' s = Unparsable \<longrightarrow>
                (\<exists>xs. ([(''pu_year'', VNull), (''pu_month'', VNull)], xs)
                         \<in> set (partitioned_layout [''pu_year'', ''pu_month'']
                                  (enriched_rows_by p t))
                      \<and> drop_row [''pu_year'', ''pu_month''] (enrich_row_by p j) \<in> set xs)))
    \<and> (\<forall>j. cell (enrich_row_by p j) ''pu_datetime''
                = read_timestamp p (cell j ''tpep_pickup_datetime'') ''yyyy-MM-dd HH:mm:ss''
          \<and> cell (enrich_row_by p j) ''do_datetime''
                = read_timestamp p (cell j ''tpep_dropoff_datetime'') ''yyyy-MM-dd HH:mm:ss''
          \<and> cell (enrich_row_by p j) ''pu_year'' = year (cell (enrich_row_by p j) ''pu_datetime'')
          \<and> cell (enrich_row_by p j) ''pu_month'' = month (cell (enrich_row_by p j) ''pu_datetime'')
          \<and> cell (enrich_row_by p j) ''pu_day''
                = dayofmonth (cell (enrich_row_by p j) ''pu_datetime''))
    \<and> (\<forall>j s ts. cell j ''tpep_pickup_datetime'' = VStr s
                \<and> p ''yyyy-MM-dd HH:mm:ss'' s = Parsed ts \<longrightarrow>
          cell (enrich_row_by p j) ''pu_datetime'' = VTs ts
          \<and> cell (enrich_row_by p j) ''pu_year'' = VInt (ts_year ts)
          \<and> cell (enrich_row_by p j) ''pu_month'' = VInt (ts_month ts)
          \<and> cell (enrich_row_by p j) ''pu_day'' = VInt (ts_day ts))
    \<and> (\<forall>j s ts. cell j ''tpep_dropoff_datetime'' = VStr s
                \<and> p ''yyyy-MM-dd HH:mm:ss'' s = Parsed ts \<longrightarrow>
          cell (enrich_row_by p j) ''do_datetime'' = VTs ts)
    \<and> (\<forall>j s. cell j ''tpep_pickup_datetime'' = VStr s
                \<and> p ''yyyy-MM-dd HH:mm:ss'' s = Unparsable \<longrightarrow>
          cell (enrich_row_by p j) ''pu_datetime'' = VNull
          \<and> cell (enrich_row_by p j) ''pu_year'' = VNull
          \<and> cell (enrich_row_by p j) ''pu_month'' = VNull
          \<and> cell (enrich_row_by p j) ''pu_day'' = VNull)
    \<and> (\<forall>j s. cell j ''tpep_dropoff_datetime'' = VStr s
                \<and> p ''yyyy-MM-dd HH:mm:ss'' s = Unparsable \<longrightarrow>
          cell (enrich_row_by p j) ''do_datetime'' = VNull)"
proof -
  note job = etl_job_by_Inr [OF assms, of p fs]
  have a: "(\<exists>fs'. etl_job_by p cat fs = Inr fs')
            \<longleftrightarrow> analysis_ok t \<and> (\<forall>j\<in>set (joined_rows t). \<not> row_raises p j)"
    unfolding job by blast
  have b: "\<forall>fs'. etl_job_by p cat fs = Inr fs' \<longrightarrow>
          fs' = fs(destination \<mapsto>
                  partitioned_layout [''pu_year'', ''pu_month''] (enriched_rows_by p t))
          \<and> set (enriched_rows_by p t) = enrich_row_by p ` set (joined_rows t)
          \<and> (\<forall>j\<in>set (joined_rows t). \<exists>y\<in>set (rows (yellow_df t)).
                cell j ''tpep_pickup_datetime'' = cell y ''tpep_pickup_datetime''
                \<and> cell j ''tpep_dropoff_datetime'' = cell y ''tpep_dropoff_datetime'')
          \<and> (\<forall>j\<in>set (joined_rows t). \<forall>s.
                cell j ''tpep_pickup_datetime'' = VStr s
                \<and> p ''yyyy-MM-dd HH:mm:ss'' s = Unparsable \<longrightarrow>
                (\<exists>xs. ([(''pu_year'', VNull), (''pu_month'', VNull)], xs)
                         \<in> set (partitioned_layout [''pu_year'', ''pu_month'']
                                  (enriched_rows_by p t))
                      \<and> drop_row [''pu_year'', ''pu_month''] (enrich_row_by p j) \<in> set xs))"
  proof (intro allI impI)
    fix fs' assume run: "etl_job_by p cat fs = Inr fs'"
    then have ok: "chain_resolves t"
      and fs': "fs' = fs(destination \<mapsto>
                  partitioned_layout [''pu_year'', ''pu_month''] (enriched_rows_by p t))"
      by (simp_all add: job analysis_ok_def)
    have raw: "\<forall>j\<in>set (joined_rows t). \<exists>y\<in>set (rows (yellow_df t)).
                cell j ''tpep_pickup_datetime'' = cell y ''tpep_pickup_datetime''
                \<and> cell j ''tpep_dropoff_datetime'' = cell y ''tpep_dropoff_datetime''"
      using raw_timestamps_of_joined_row [OF ok] by blast
    have stored: "\<forall>j\<in>set (joined_rows t). \<forall>s.
                cell j ''tpep_pickup_datetime'' = VStr s
                \<and> p ''yyyy-MM-dd HH:mm:ss'' s = Unparsable \<longrightarrow>
                (\<exists>xs. ([(''pu_year'', VNull), (''pu_month'', VNull)], xs)
                         \<in> set (partitioned_layout [''pu_year'', ''pu_month'']
                                  (enriched_rows_by p t))
                      \<and> drop_row [''pu_year'', ''pu_month''] (enrich_row_by p j) \<in> set xs)"
    proof (intro ballI allI impI)
      fix j s
      assume j: "j \<in> set (joined_rows t)"
        and s: "cell j ''tpep_pickup_datetime'' = VStr s
                \<and> p ''yyyy-MM-dd HH:mm:ss'' s = Unparsable"
      from j have "enrich_row_by p j \<in> set (enriched_rows_by p t)"
        by (simp add: set_enriched_rows_by)
      from partitioned_layout_mem [OF this, of "[''pu_year'', ''pu_month'']"] s
      show "\<exists>xs. ([(''pu_year'', VNull), (''pu_month'', VNull)], xs)
                         \<in> set (partitioned_layout [''pu_year'', ''pu_month'']
                                  (enriched_rows_by p t))
                      \<and> drop_row [''pu_year'', ''pu_month''] (enrich_row_by p j) \<in> set xs"
        by (simp add: partition_of_unparsable)
    qed
    from fs' raw stored set_enriched_rows_by [of p t]
    show "fs' = fs(destination \<mapsto>
                  partitioned_layout [''pu_year'', ''pu_month''] (enriched_rows_by p t))
          \<and> set (enriched_rows_by p t) = enrich_row_by p ` set (joined_rows t)
          \<and> (\<forall>j\<in>set (joined_rows t). \<exists>y\<in>set (rows (yellow_df t)).
                cell j ''tpep_pickup_datetime'' = cell y ''tpep_pickup_datetime''
                \<and> cell j ''tpep_dropoff_datetime'' = cell y ''tpep_dropoff_datetime'')
          \<and> (\<forall>j\<in>set (joined_rows t). \<forall>s.
                cell j ''tpep_pickup_datetime'' = VStr s
                \<and> p ''yyyy-MM-dd HH:mm:ss'' s = Unparsable \<longrightarrow>
                (\<exists>xs. ([(''pu_year'', VNull), (''pu_month'', VNull)], xs)
                         \<in> set (partitioned_layout [''pu_year'', ''pu_month'']
                                  (enriched_rows_by p t))
                      \<and> drop_row [''pu_year'', ''pu_month''] (enrich_row_by p j) \<in> set xs))"
      by (intro conjI)
  qed
  have c: "\<forall>j. cell (enrich_row_by p j) ''pu_datetime''
                = read_timestamp p (cell j ''tpep_pickup_datetime'') ''yyyy-MM-dd HH:mm:ss''
          \<and> cell (enrich_row_by p j) ''do_datetime''
                = read_timestamp p (cell j ''tpep_dropoff_datetime'') ''yyyy-MM-dd HH:mm:ss''
          \<and> cell (enrich_row_by p j) ''pu_year'' = year (cell (enrich_row_by p j) ''pu_datetime'')
          \<and> cell (enrich_row_by p j) ''pu_month'' = month (cell (enrich_row_by p j) ''pu_datetime'')
          \<and> cell (enrich_row_by p j) ''pu_day''
                = dayofmonth (cell (enrich_row_by p j) ''pu_datetime'')"
    using cell_enrich_row_by by blast
  have d: "\<forall>j s ts. cell j ''tpep_pickup_datetime'' = VStr s
                \<and> p ''yyyy-MM-dd HH:mm:ss'' s = Parsed ts \<longrightarrow>
          cell (enrich_row_by p j) ''pu_datetime'' = VTs ts
          \<and> cell (enrich_row_by p j) ''pu_year'' = VInt (ts_year ts)
          \<and> cell (enrich_row_by p j) ''pu_month'' = VInt (ts_month ts)
          \<and> cell (enrich_row_by p j) ''pu_day'' = VInt (ts_day ts)"
    by (simp add: cell_enrich_row_by)
  have e: "\<forall>j s ts. cell j ''tpep_dropoff_datetime'' = VStr s
                \<and> p ''yyyy-MM-dd HH:mm:ss'' s = Parsed ts \<longrightarrow>
          cell (enrich_row_by p j) ''do_datetime'' = VTs ts"
    by (simp add: cell_enrich_row_by)
  have f: "\<forall>j s. cell j ''tpep_pickup_datetime'' = VStr s
                \<and> p ''yyyy-MM-dd HH:mm:ss'' s = Unparsable \<longrightarrow>
          cell (enrich_row_by p j) ''pu_datetime'' = VNull
          \<and> cell (enrich_row_by p j) ''pu_year'' = VNull
          \<and> cell (enrich_row_by p j) ''pu_month'' = VNull
          \<and> cell (enrich_row_by p j) ''pu_day'' = VNull"
    by (simp add: cell_enrich_row_by)
  have g: "\<forall>j s. cell j ''tpep_dropoff_datetime'' = VStr s
                \<and> p ''yyyy-MM-dd HH:mm:ss'' s = Unparsable \<longrightarrow>
          cell (enrich_row_by p j) ''do_datetime'' = VNull"
    by (simp add: cell_enrich_row_by)
  from a b c d e f g show ?thesis by (intro conjI)
qed

text \<open>
  The trip with the pick-up time \<^verbatim>\<open>15/01/2019 08:30\<close>, on the parser that reports it
  unparsable: the job completes and stores the trip under
  \<^verbatim>\<open>pu_year=__HIVE_DEFAULT_PARTITION__/pu_month=__HIVE_DEFAULT_PARTITION__\<close>.
\<close>

theorem unparsable_timestamp_is_null_where_parser_reports_witness:
  "load_tables odd_time_catalog = Inr odd_time_tables
   \<and> analysis_ok odd_time_tables
   \<and> filter (row_raises fixed_width_parser) (joined_rows odd_time_tables) = []
   \<and> etl_job_by fixed_width_parser odd_time_catalog Map.empty
       = Inr [destination \<mapsto> odd_time_directory]
   \<and> cell (hd (joined_rows odd_time_tables)) ''tpep_pickup_datetime'' = VStr ''15/01/2019 08:30''
   \<and> fixed_width_parser ''yyyy-MM-dd HH:mm:ss'' ''15/01/2019 08:30'' = Unparsable
   \<and> cell (enrich_row_by fixed_width_parser (hd (joined_rows odd_time_tables))) ''pu_datetime'' = VNull
   \<and> cell (enrich_row_by fixed_width_parser (hd (joined_rows odd_time_tables))) ''pu_year'' = VNull
   \<and> cell (enrich_row_by fixed_width_parser (hd (joined_rows odd_time_tables))) ''pu_month'' = VNull
   \<and> cell (enrich_row_by fixed_width_parser (hd (joined_rows odd_time_tables))) ''pu_day'' = VNull
   \<and> partition_path (fst (hd odd_time_directory))
       = ''pu_year=__HIVE_DEFAULT_PARTITION__/pu_month=__HIVE_DEFAULT_PARTITION__''"
proof -
  note job = unparsable_timestamp_is_null_where_parser_reports
    [OF odd_time_load, of fixed_width_parser Map.empty]
  have nr: "\<forall>j\<in>set (joined_rows odd_time_tables). \<not> row_raises fixed_width_parser j"
    using odd_time_no_raise by (simp only: filter_empty_conv)
  from job odd_time_analysis nr
  obtain fs' where run: "etl_job_by fixed_width_parser odd_time_catalog Map.empty = Inr fs'"
    by blast
  with job
  have "fs' = Map.empty(destination \<mapsto> partitioned_layout [''pu_year'', ''pu_month'']
                  (enriched_rows_by fixed_width_parser odd_time_tables))"
    by blast
  with run have res: "etl_job_by fixed_width_parser odd_time_catalog Map.empty
       = Inr [destination \<mapsto> odd_time_directory]"
    by (simp only: odd_time_layout)
  have c: "cell (hd (joined_rows odd_time_tables)) ''tpep_pickup_datetime'' = VStr ''15/01/2019 08:30''"
    by code_simp
  have u: "fixed_width_parser ''yyyy-MM-dd HH:mm:ss'' ''15/01/2019 08:30'' = Unparsable"
    by code_simp
  from job c u
  have n: "cell (enrich_row_by fixed_width_parser (hd (joined_rows odd_time_tables))) ''pu_datetime'' = VNull
   \<and> cell (enrich_row_by fixed_width_parser (hd (joined_rows odd_time_tables))) ''pu_year'' = VNull
   \<and> cell (enrich_row_by fixed_width_parser (hd (joined_rows odd_time_tables))) ''pu_month'' = VNull
   \<and> cell (enrich_row_by fixed_width_parser (hd (joined_rows odd_time_tables))) ''pu_day'' = VNull"
    by blast
  have pth: "partition_path (fst (hd odd_time_directory))
       = ''pu_year=__HIVE_DEFAULT_PARTITION__/pu_month=__HIVE_DEFAULT_PARTITION__''"
    by (simp add: odd_time_directory_def null_path_example)
  from odd_time_load odd_time_analysis odd_time_no_raise res c u n pth
  show ?thesis by (intro conjI) simp_all
qed

text \<open>
  The job aborts on a string that does not parse when the engine's parser raises on it:
  the trip with the pick-up time \<^verbatim>\<open>2019-1-5 8:30:00\<close>, on the parser that refuses it.
\<close>

theorem refusing_parser_aborts_the_job:
  "load_tables short_time_catalog = Inr (sample_tables\<lparr>yellow_dyf := short_time_yellow\<rparr>)
   \<and> cell (hd (joined_rows (sample_tables\<lparr>yellow_dyf := short_time_yellow\<rparr>)))
        ''tpep_pickup_datetime'' = VStr ''2019-1-5 8:30:00''
   \<and> refusing_parser ''yyyy-MM-dd HH:mm:ss'' ''2019-1-5 8:30:00'' = ParserRaises
   \<and> etl_job_by refusing_parser short_time_catalog Map.empty
       = Inl (SparkException ''2019-1-5 8:30:00'')"
proof -
  have c: "cell (hd (joined_rows (sample_tables\<lparr>yellow_dyf := short_time_yellow\<rparr>)))
        ''tpep_pickup_datetime'' = VStr ''2019-1-5 8:30:00''"
    by code_simp
  have r: "refusing_parser ''yyyy-MM-dd HH:mm:ss'' ''2019-1-5 8:30:00'' = ParserRaises"
    by code_simp
  have j: "etl_job_by refusing_parser short_time_catalog Map.empty
       = Inl (SparkException ''2019-1-5 8:30:00'')"
    by (simp add: etl_job_by_def short_time_load short_time_frame and_then_def)
  from short_time_load c r j show ?thesis by (intro conjI)
qed

section \<open>The write\<close>

text \<open>
  C6. The job writes in overwrite mode. A run that completes leaves at the destination the
  data set made from the source tables, whatever was there before; so a second run on the
  same tables and the same destination leaves the file system as the first run left it.
\<close>

theorem rerun_gives_same_destination:
  assumes "etl_job cat fs = Inr fs'"
  shows "etl_job cat fs' = Inr fs'
    \<and> (\<forall>fs0 fs1. etl_job cat fs0 = Inr fs1 \<longrightarrow> fs1 destination = fs' destination)
    \<and> (\<forall>df. w_mode (yellow_opt_writer df) = Overwrite)"
proof -
  from etl_job_result [OF assms] obtain t out where t: "load_tables cat = Inr t"
    and out: "yellow_opt_df t = Inr out" and d: "distinct (columns out)"
    and fs': "fs' = fs(destination \<mapsto> partitioned_layout [''pu_year'', ''pu_month''] (rows out))"
    by blast
  have "etl_job cat fs' = Inr (fs'(destination \<mapsto> partitioned_layout [''pu_year'', ''pu_month''] (rows out)))"
    by (rule etl_job_run [OF t out d])
  also have "fs'(destination \<mapsto> partitioned_layout [''pu_year'', ''pu_month''] (rows out)) = fs'"
    by (simp add: fs')
  finally have a: "etl_job cat fs' = Inr fs'" .
  have b: "fs1 destination = fs' destination" if "etl_job cat fs0 = Inr fs1" for fs0 fs1
    using that etl_job_run [OF t out d, of fs0] by (auto simp: fs')
  have c: "w_mode (yellow_opt_writer df) = Overwrite" for df
    by (simp add: yellow_opt_writer_def partitionBy_def option_def format_def mode_def)
  from a b c show ?thesis by blast
qed

theorem rerun_gives_same_destination_witness:
  "stale_filesystem destination = Some stale_directory
   \<and> etl_job sample_catalog stale_filesystem
        = Inr (stale_filesystem(destination \<mapsto> sample_directory))
   \<and> etl_job sample_catalog (stale_filesystem(destination \<mapsto> sample_directory))
        = Inr (stale_filesystem(destination \<mapsto> sample_directory))"
proof -
  have s: "stale_filesystem destination = Some stale_directory"
    by (simp add: stale_filesystem_def)
  note h = sample_job [of stale_filesystem]
  from rerun_gives_same_destination [OF h]
  have "etl_job sample_catalog (stale_filesystem(destination \<mapsto> sample_directory))
        = Inr (stale_filesystem(destination \<mapsto> sample_directory))"
    by (rule conjunct1)
  with s h show ?thesis by (intro conjI)
qed



section \<open>The two zone look-ups\<close>

text \<open>
  C10, as the code has it. When the taxi-zone table has no two rows with the same location
  id, and the fact table has no column of its own under the name of a zone attribute of the
  look-ups, every output row made from a joined row whose \<^verbatim>\<open>pulocationid\<close> and
  \<^verbatim>\<open>dolocationid\<close> are equal has \<^verbatim>\<open>pu_borough = do_borough\<close>, \<^verbatim>\<open>pu_zone = do_zone\<close> and
  \<^verbatim>\<open>pu_service_zone = do_service_zone\<close>.
\<close>

theorem same_location_same_zone:
  assumes ok: "yellow_opt_df t = Inr out"
    and uniq: "unique_keys ''locationid'' (taxi_zone_dyf t)"
    and fresh: "set (columns (yellow_dyf t)) \<inter>
        {''pu_borough'', ''pu_zone'', ''pu_service_zone'',
         ''do_borough'', ''do_zone'', ''do_service_zone''} = {}"
  shows "set (rows out) = enrich_row ` set (joined_rows t)
    \<and> (\<forall>j\<in>set (joined_rows t). cell j ''pulocationid'' = cell j ''dolocationid'' \<longrightarrow>
          cell (enrich_row j) ''pu_borough'' = cell (enrich_row j) ''do_borough''
          \<and> cell (enrich_row j) ''pu_zone'' = cell (enrich_row j) ''do_zone''
          \<and> cell (enrich_row j) ''pu_service_zone'' = cell (enrich_row j) ''do_service_zone'')"
proof (rule conjI [OF set_rows_yellow_opt_df [OF ok]], intro ballI impI)
  fix j assume j: "j \<in> set (joined_rows t)"
    and same: "cell j ''pulocationid'' = cell j ''dolocationid''"
  from joined_rows_decompose [OF j] obtain y a b c d
    where y: "y \<in> set (rows (yellow_df t))" and a: "a \<in> set (rows (pu_taxi_zone_df t))"
      and b: "b \<in> set (rows (do_taxi_zone_df t))" and c: "c \<in> set (rows (payment_type_df t))"
      and d: "d \<in> set (rows (rate_code_df t))" and je: "j = y @ a @ b @ c @ d"
      and e1: "sql_eq (cell y ''pulocationid'') (cell a ''pu_locationid'')"
      and e2: "sql_eq (cell (y @ a) ''dolocationid'') (cell b ''do_locationid'')"
    by blast
  note k = yellow_row_has_keys [OF ok y]
  from k have "cell j ''pulocationid'' = cell y ''pulocationid''"
    and "cell j ''dolocationid'' = cell y ''dolocationid''"
    and ya: "cell (y @ a) ''dolocationid'' = cell y ''dolocationid''"
    by (simp_all add: je cell_append)
  with same have yy: "cell y ''pulocationid'' = cell y ''dolocationid''" by simp
  from e1 have a1: "cell a ''pu_locationid'' = cell y ''pulocationid''"
    and n1: "cell a ''pu_locationid'' \<noteq> VNull" by (auto simp: sql_eq_def)
  from e2 ya have b1: "cell b ''do_locationid'' = cell y ''dolocationid''"
    by (auto simp: sql_eq_def)
  from pu_zone_row_cells [OF a] obtain z where z: "z \<in> set (rows (taxi_zone_dyf t))"
    and za: "cell a ''pu_locationid'' =
       (if ''locationid'' \<in> set (columns (taxi_zone_dyf t)) then cell z ''locationid'' else VNull)"
      "cell a ''pu_borough'' =
       (if ''borough'' \<in> set (columns (taxi_zone_dyf t)) then cell z ''borough'' else VNull)"
      "cell a ''pu_zone'' =
       (if ''zone'' \<in> set (columns (taxi_zone_dyf t)) then cell z ''zone'' else VNull)"
      "cell a ''pu_service_zone'' =
       (if ''service_zone'' \<in> set (columns (taxi_zone_dyf t)) then cell z ''service_zone'' else VNull)"
    by blast
  from do_zone_row_cells [OF b] obtain z' where z': "z' \<in> set (rows (taxi_zone_dyf t))"
    and zb: "cell b ''do_locationid'' =
       (if ''locationid'' \<in> set (columns (taxi_zone_dyf t)) then cell z' ''locationid'' else VNull)"
      "cell b ''do_borough'' =
       (if ''borough'' \<in> set (columns (taxi_zone_dyf t)) then cell z' ''borough'' else VNull)"
      "cell b ''do_zone'' =
       (if ''zone'' \<in> set (columns (taxi_zone_dyf t)) then cell z' ''zone'' else VNull)"
      "cell b ''do_service_zone'' =
       (if ''service_zone'' \<in> set (columns (taxi_zone_dyf t)) then cell z' ''service_zone'' else VNull)"
    by blast
  from n1 za(1) have loc: "''locationid'' \<in> set (columns (taxi_zone_dyf t))"
    by (simp split: if_splits)
  from a1 b1 yy za(1) zb(1) loc have "cell z ''locationid'' = cell z' ''locationid''" by simp
  moreover from n1 za(1) loc have "cell z ''locationid'' \<noteq> VNull" by simp
  ultimately have zz: "z = z'" by (rule unique_keys_same_row [OF uniq z z'])
  from fresh yellow_row_keys [OF y] have f:
    "''pu_borough'' \<notin> fst ` set y" "''pu_zone'' \<notin> fst ` set y" "''pu_service_zone'' \<notin> fst ` set y"
    "''do_borough'' \<notin> fst ` set y" "''do_zone'' \<notin> fst ` set y" "''do_service_zone'' \<notin> fst ` set y"
    by (auto simp: columns_yellow_df)
  have pu: "cell (enrich_row j) ''pu_borough'' = cell a ''pu_borough''"
    "cell (enrich_row j) ''pu_zone'' = cell a ''pu_zone''"
    "cell (enrich_row j) ''pu_service_zone'' = cell a ''pu_service_zone''"
    using f by (simp_all add: cell_enrich_row_kept dropped_columns_def je cell_joined_pu [OF _ b c d])
  have do: "cell (enrich_row j) ''do_borough'' = cell b ''do_borough''"
    "cell (enrich_row j) ''do_zone'' = cell b ''do_zone''"
    "cell (enrich_row j) ''do_service_zone'' = cell b ''do_service_zone''"
    using f by (simp_all add: cell_enrich_row_kept dropped_columns_def je cell_joined_do [OF _ a c d])
  show "cell (enrich_row j) ''pu_borough'' = cell (enrich_row j) ''do_borough''
          \<and> cell (enrich_row j) ''pu_zone'' = cell (enrich_row j) ''do_zone''
          \<and> cell (enrich_row j) ''pu_service_zone'' = cell (enrich_row j) ''do_service_zone''"
    by (simp add: pu do za zb zz)
qed

theorem same_location_same_zone_witness:
  "(\<exists>out. yellow_opt_df loop_tables = Inr out)
   \<and> unique_keys ''locationid'' (taxi_zone_dyf loop_tables)
   \<and> hd (joined_rows loop_tables) \<in> set (joined_rows loop_tables)
   \<and> cell (hd (joined_rows loop_tables)) ''pulocationid'' = VInt 1
   \<and> cell (hd (joined_rows loop_tables)) ''dolocationid'' = VInt 1
   \<and> cell (enrich_row (hd (joined_rows loop_tables))) ''pu_borough'' = VStr ''EWR''
   \<and> cell (enrich_row (hd (joined_rows loop_tables))) ''pu_borough''
        = cell (enrich_row (hd (joined_rows loop_tables))) ''do_borough''
   \<and> cell (enrich_row (hd (joined_rows loop_tables))) ''pu_zone''
        = cell (enrich_row (hd (joined_rows loop_tables))) ''do_zone''
   \<and> cell (enrich_row (hd (joined_rows loop_tables))) ''pu_service_zone''
        = cell (enrich_row (hd (joined_rows loop_tables))) ''do_service_zone''"
proof -
  obtain out where ok: "yellow_opt_df loop_tables = Inr out"
    using succeeds_same_schemas [OF _ odd_time_run, of loop_tables]
    by (auto simp: same_schemas_def odd_time_tables_def loop_tables_def sample_tables_def
        odd_time_yellow_def round_trip_yellow_def)
  have u: "unique_keys ''locationid'' (taxi_zone_dyf loop_tables)" by code_simp
  have f: "set (columns (yellow_dyf loop_tables)) \<inter>
        {''pu_borough'', ''pu_zone'', ''pu_service_zone'',
         ''do_borough'', ''do_zone'', ''do_service_zone''} = {}"
    by (simp add: loop_tables_def round_trip_yellow_def)
  have m: "hd (joined_rows loop_tables) \<in> set (joined_rows loop_tables)" by code_simp
  have p: "cell (hd (joined_rows loop_tables)) ''pulocationid'' = VInt 1" by code_simp
  have d: "cell (hd (joined_rows loop_tables)) ''dolocationid'' = VInt 1" by code_simp
  have b: "cell (enrich_row (hd (joined_rows loop_tables))) ''pu_borough'' = VStr ''EWR''"
    by code_simp
  from same_location_same_zone [OF ok u f] m p d
  have "cell (enrich_row (hd (joined_rows loop_tables))) ''pu_borough''
        = cell (enrich_row (hd (joined_rows loop_tables))) ''do_borough''
   \<and> cell (enrich_row (hd (joined_rows loop_tables))) ''pu_zone''
        = cell (enrich_row (hd (joined_rows loop_tables))) ''do_zone''
   \<and> cell (enrich_row (hd (joined_rows loop_tables))) ''pu_service_zone''
        = cell (enrich_row (hd (joined_rows loop_tables))) ''do_service_zone''"
    by simp
  with ok u m p d b show ?thesis by blast
qed

text \<open>
  C10 as stated fails when the taxi-zone table has two rows for one location: the round
  trip in the location 1 then gives four output rows, and the second and the third of them
  pair the pick-up attributes of one row with the drop-off attributes of the other.
\<close>

theorem twin_zone_mixes_attributes:
  "cell (hd (rows (yellow_df round_trip_tables))) ''pulocationid'' = VInt 1
   \<and> cell (hd (rows (yellow_df round_trip_tables))) ''dolocationid'' = VInt 1
   \<and> map zone_cells (result_rows (yellow_opt_df round_trip_tables)) =
       [[VInt 1, VInt 1, VStr ''EWR'', VStr ''EWR'', VStr ''Newark Airport'', VStr ''Newark Airport''],
        [VInt 1, VInt 1, VStr ''EWR'', VStr ''Bronx'', VStr ''Newark Airport'', VStr ''Allerton''],
        [VInt 1, VInt 1, VStr ''Bronx'', VStr ''EWR'', VStr ''Allerton'', VStr ''Newark Airport''],
        [VInt 1, VInt 1, VStr ''Bronx'', VStr ''Bronx'', VStr ''Allerton'', VStr ''Allerton'']]"
  by code_simp

section \<open>The example of the specification\<close>

text \<open>
  C5, as the code has it. Take a fact row with \<^verbatim>\<open>pulocationid = 1\<close>, \<^verbatim>\<open>dolocationid = 2\<close>,
  \<^verbatim>\<open>payment_type = 1\<close>, \<^verbatim>\<open>ratecodeid = 1\<close> and the pick-up time \<^verbatim>\<open>2019-01-15 08:30:00\<close>,
  look-up frames that hold each of these ids in exactly one row, and a fact table with no
  column of its own under the names \<^verbatim>\<open>pu_zone\<close>, \<^verbatim>\<open>do_zone\<close>, \<^verbatim>\<open>payment_type_name\<close>,
  \<^verbatim>\<open>ratecode_name\<close>. In a run that completes the row gives exactly one output row; it has
  \<^verbatim>\<open>pu_year = 2019\<close>, \<^verbatim>\<open>pu_month = 1\<close>, \<^verbatim>\<open>pu_day = 15\<close> and the zone and name columns of
  the matching look-up rows, and it is stored in the subdirectory
  \<^verbatim>\<open>pu_year=2019/pu_month=1\<close> of the destination.
\<close>

theorem example_trip:
  assumes load: "load_tables cat = Inr t" and job: "etl_job cat fs = Inr fs'"
    and y: "y \<in> set (rows (yellow_df t))"
    and v: "example_cells y = [VInt 1, VInt 2, VInt 1, VInt 1, VStr ''2019-01-15 08:30:00'']"
    and a: "filter (\<lambda>r. cell r ''pu_locationid'' = VInt 1) (rows (pu_taxi_zone_df t)) = [a]"
    and b: "filter (\<lambda>r. cell r ''do_locationid'' = VInt 2) (rows (do_taxi_zone_df t)) = [b]"
    and c: "filter (\<lambda>r. cell r ''payment_type_id'' = VInt 1) (rows (payment_type_df t)) = [c]"
    and d: "filter (\<lambda>r. cell r ''ratecode_id'' = VInt 1) (rows (rate_code_df t)) = [d]"
    and fresh: "set (columns (yellow_dyf t)) \<inter>
        {''pu_zone'', ''do_zone'', ''payment_type_name'', ''ratecode_name''} = {}"
  shows "map enrich_row (joined_from t [y]) = [enrich_row (y @ a @ b @ c @ d)]
    \<and> enrich_row (y @ a @ b @ c @ d) \<in> set (result_rows (yellow_opt_df t))
    \<and> cell (enrich_row (y @ a @ b @ c @ d)) ''pu_year'' = VInt 2019
    \<and> cell (enrich_row (y @ a @ b @ c @ d)) ''pu_month'' = VInt 1
    \<and> cell (enrich_row (y @ a @ b @ c @ d)) ''pu_day'' = VInt 15
    \<and> cell (enrich_row (y @ a @ b @ c @ d)) ''pu_zone'' = cell a ''pu_zone''
    \<and> cell (enrich_row (y @ a @ b @ c @ d)) ''do_zone'' = cell b ''do_zone''
    \<and> cell (enrich_row (y @ a @ b @ c @ d)) ''payment_type_name'' = cell c ''payment_type_name''
    \<and> cell (enrich_row (y @ a @ b @ c @ d)) ''ratecode_name'' = cell d ''ratecode_name''
    \<and> (\<exists>dir xs. fs' destination = Some dir
          \<and> ([(''pu_year'', VInt 2019), (''pu_month'', VInt 1)], xs) \<in> set dir
          \<and> drop_row [''pu_year'', ''pu_month''] (enrich_row (y @ a @ b @ c @ d)) \<in> set xs)
    \<and> partition_path [(''pu_year'', VInt 2019), (''pu_month'', VInt 1)] = ''pu_year=2019/pu_month=1''"
proof -
  let ?j = "y @ a @ b @ c @ d" and ?cs = "[''pu_year'', ''pu_month'']"
  from etl_job_result [OF job] load obtain out where ok: "yellow_opt_df t = Inr out"
    and fs': "fs' = fs(destination \<mapsto> partitioned_layout ?cs (rows out))"
    by auto
  from v have v': "cell y ''pulocationid'' = VInt 1" "cell y ''dolocationid'' = VInt 2"
    "cell y ''payment_type'' = VInt 1" "cell y ''ratecodeid'' = VInt 1"
    and p: "cell y ''tpep_pickup_datetime'' = VStr ''2019-01-15 08:30:00''"
    by (simp_all add: example_cells_def)
  have jf: "joined_from t [y] = [?j]"
    by (rule joined_from_single_match [OF ok y v' a b c d])
  then have s1: "map enrich_row (joined_from t [y]) = [enrich_row ?j]" by simp
  from jf joined_from_single_subset [OF y] have jm: "?j \<in> set (joined_rows t)" by auto
  then have rm: "enrich_row ?j \<in> set (rows out)"
    by (simp add: set_rows_yellow_opt_df [OF ok])
  then have s2: "enrich_row ?j \<in> set (result_rows (yellow_opt_df t))"
    by (simp add: ok result_rows_def)
  from raw_timestamps_in_yellow [OF ok] yellow_row_keys [OF y]
  have "''tpep_pickup_datetime'' \<in> fst ` set y" by simp
  then have "cell ?j ''tpep_pickup_datetime'' = VStr ''2019-01-15 08:30:00''"
    by (simp add: cell_append p)
  then have dt: "cell (enrich_row ?j) ''pu_datetime'' = VTs (Timestamp 2019 1 15 8 30 0)"
    by (simp add: cell_enrich_row(1) parse_example)
  have s3: "cell (enrich_row ?j) ''pu_year'' = VInt 2019"
    "cell (enrich_row ?j) ''pu_month'' = VInt 1" "cell (enrich_row ?j) ''pu_day'' = VInt 15"
    by (simp_all add: cell_enrich_row(3,4,5) dt)
  from a have am: "a \<in> set (rows (pu_taxi_zone_df t))"
    by (rule filter_singleton_mem)
  from b have bm: "b \<in> set (rows (do_taxi_zone_df t))"
    by (rule filter_singleton_mem)
  from c have cm: "c \<in> set (rows (payment_type_df t))"
    by (rule filter_singleton_mem)
  from d have dm: "d \<in> set (rows (rate_code_df t))"
    by (rule filter_singleton_mem)
  from fresh yellow_row_keys [OF y] have f:
    "''pu_zone'' \<notin> fst ` set y" "''do_zone'' \<notin> fst ` set y"
    "''payment_type_name'' \<notin> fst ` set y" "''ratecode_name'' \<notin> fst ` set y"
    by (auto simp: columns_yellow_df)
  have s4: "cell (enrich_row ?j) ''pu_zone'' = cell a ''pu_zone''"
    using f by (simp add: cell_enrich_row_kept dropped_columns_def cell_joined_pu [OF _ bm cm dm])
  have s5: "cell (enrich_row ?j) ''do_zone'' = cell b ''do_zone''"
    using f by (simp add: cell_enrich_row_kept dropped_columns_def cell_joined_do [OF _ am cm dm])
  have s6: "cell (enrich_row ?j) ''payment_type_name'' = cell c ''payment_type_name''"
    using f by (simp add: cell_enrich_row_kept dropped_columns_def cell_joined_pay [OF _ am bm dm])
  have s7: "cell (enrich_row ?j) ''ratecode_name'' = cell d ''ratecode_name''"
    using f by (simp add: cell_enrich_row_kept dropped_columns_def cell_joined_rate [OF _ am bm cm])
  have pk: "partition_of ?cs (enrich_row ?j) = [(''pu_year'', VInt 2019), (''pu_month'', VInt 1)]"
    by (simp add: partition_of_def s3)
  from partitioned_layout_mem [OF rm, of ?cs] pk
  have s8: "\<exists>dir xs. fs' destination = Some dir
          \<and> ([(''pu_year'', VInt 2019), (''pu_month'', VInt 1)], xs) \<in> set dir
          \<and> drop_row ?cs (enrich_row ?j) \<in> set xs"
    by (auto simp: fs')
  from s1 s2 s3 s4 s5 s6 s7 s8 path_example show ?thesis by blast
qed

theorem example_trip_witness:
  "load_tables sample_catalog = Inr sample_tables
   \<and> etl_job sample_catalog Map.empty = Inr [destination \<mapsto> sample_directory]
   \<and> sample_trip \<in> set (rows (yellow_df sample_tables))
   \<and> example_cells sample_trip = [VInt 1, VInt 2, VInt 1, VInt 1, VStr ''2019-01-15 08:30:00'']
   \<and> map enrich_row (joined_from sample_tables [sample_trip])
        = [enrich_row (sample_trip @ sample_pu @ sample_do @ sample_pay @ sample_rate)]
   \<and> enrich_row (sample_trip @ sample_pu @ sample_do @ sample_pay @ sample_rate)
        \<in> set (result_rows (yellow_opt_df sample_tables))
   \<and> cell (enrich_row (sample_trip @ sample_pu @ sample_do @ sample_pay @ sample_rate)) ''pu_year''
        = VInt 2019
   \<and> cell (enrich_row (sample_trip @ sample_pu @ sample_do @ sample_pay @ sample_rate)) ''pu_month''
        = VInt 1
   \<and> cell (enrich_row (sample_trip @ sample_pu @ sample_do @ sample_pay @ sample_rate)) ''pu_day''
        = VInt 15
   \<and> cell (enrich_row (sample_trip @ sample_pu @ sample_do @ sample_pay @ sample_rate)) ''pu_zone''
        = VStr ''Newark Airport''
   \<and> cell (enrich_row (sample_trip @ sample_pu @ sample_do @ sample_pay @ sample_rate)) ''do_zone''
        = VStr ''Jamaica Bay''
   \<and> cell (enrich_row (sample_trip @ sample_pu @ sample_do @ sample_pay @ sample_rate))
        ''payment_type_name'' = VStr ''Credit card''"
proof -
  have y: "sample_trip \<in> set (rows (yellow_df sample_tables))" by code_simp
  have v: "example_cells sample_trip
      = [VInt 1, VInt 2, VInt 1, VInt 1, VStr ''2019-01-15 08:30:00'']" by code_simp
  have a: "filter (\<lambda>r. cell r ''pu_locationid'' = VInt 1) (rows (pu_taxi_zone_df sample_tables))
      = [sample_pu]" by code_simp
  have b: "filter (\<lambda>r. cell r ''do_locationid'' = VInt 2) (rows (do_taxi_zone_df sample_tables))
      = [sample_do]" by code_simp
  have c: "filter (\<lambda>r. cell r ''payment_type_id'' = VInt 1) (rows (payment_type_df sample_tables))
      = [sample_pay]" by code_simp
  have d: "filter (\<lambda>r. cell r ''ratecode_id'' = VInt 1) (rows (rate_code_df sample_tables))
      = [sample_rate]" by code_simp
  have f: "set (columns (yellow_dyf sample_tables)) \<inter>
        {''pu_zone'', ''do_zone'', ''payment_type_name'', ''ratecode_name''} = {}"
    by (simp add: sample_tables_def sample_yellow_def)
  have z: "cell sample_pu ''pu_zone'' = VStr ''Newark Airport''"
    "cell sample_do ''do_zone'' = VStr ''Jamaica Bay''"
    "cell sample_pay ''payment_type_name'' = VStr ''Credit card''"
    by (simp_all add: cell_def sample_pu_def sample_do_def sample_pay_def)
  note j = sample_job [of Map.empty]
  from example_trip [OF sample_load j y v a b c d f] sample_load j y v z
  show ?thesis by simp
qed

text \<open>
  C5 as stated fails when a look-up holds one of the ids twice: with the location 2 twice in
  the taxi-zone table the example row, which is the only fact row and finds all its ids,
  gives two output rows.
\<close>

theorem echo_zone_doubles_the_example:
  "rows (yellow_df echo_tables) = [sample_trip]
   \<and> example_cells sample_trip = [VInt 1, VInt 2, VInt 1, VInt 1, VStr ''2019-01-15 08:30:00'']
   \<and> fully_matched echo_tables sample_trip
   \<and> length (result_rows (yellow_opt_df echo_tables)) = 2"
  by code_simp

section \<open>The broadcast hint\<close>

text \<open>
  C7. Whatever the tables, the chain as the notebook writes it, with the broadcast mark on
  every look-up side, and the same chain with each of its four joins run by any strategy
  (broadcast hash, shuffled hash with any hash function and any number of partitions,
  sort-merge, nested loop) have the same result: both abort with the same error, or both
  give frames with the same columns and the same rows, up to their order.
\<close>

theorem join_strategy_does_not_matter:
  "same_result (yellow_opt_df t) (yellow_opt_df_under s1 s2 s3 s4 t)"
  unfolding yellow_opt_df_def yellow_opt_df_under_def
  by (intro and_then_same_result join_same_result withColumn_same_result orderBy_same_result
      drop_columns_same_result)
     (simp_all add: same_rows_def)

theorem join_strategy_does_not_matter_witness:
  "same_result (Inr sample_output)
     (yellow_opt_df_under SortMergeJoin BroadcastNestedLoopJoin BroadcastHashJoin SortMergeJoin
        sample_tables)"
  using join_strategy_does_not_matter
    [of sample_tables SortMergeJoin BroadcastNestedLoopJoin BroadcastHashJoin SortMergeJoin]
  by (simp only: sample_run)

end
